theory Spec2Isabelle
  imports Complex_Main
begin

section \<open>Python values and errors\<close>

text \<open>
  The program is a Python module (\<^verbatim>\<open>reaction_profile_generator/generator.py\<close>).
  Python floats are modelled by \<^typ>\<open>real\<close>: arithmetic and comparisons are exact, except in
  \<open>np_arange\<close>, where the rounding of each operation decides which force constants are
  scanned and is written out.
  Every exception the modelled code can raise is a value of \<open>py_error\<close>, and a function that
  may raise returns \<open>py_error + 'a\<close>.
\<close>

datatype py_error =
  ValueError | IndexError | TypeError | UnboundLocalError | ZeroDivisionError | FileNotFoundError

section \<open>Selection of the preliminary TS-guess index\<close>

text \<open>
  \<^verbatim>\<open>energies - potentials\<close>: \<^verbatim>\<open>energies\<close> is a one-dimensional numpy array and
  \<^verbatim>\<open>potentials\<close> a list. Numpy subtracts elementwise, broadcasts an operand of length one,
  and raises ValueError for any other pair of different lengths.
\<close>

definition np_subtract :: "real list \<Rightarrow> real list \<Rightarrow> py_error + real list" where
  "np_subtract xs ys =
     (if length xs = length ys then Inr (map (\<lambda>(x, y). x - y) (zip xs ys))
      else if length ys = 1 then Inr (map (\<lambda>x. x - hd ys) xs)
      else if length xs = 1 then Inr (map (\<lambda>y. hd xs - y) ys)
      else Inl ValueError)"

text \<open>\<^verbatim>\<open>max(xs)\<close>: ValueError on an empty list, otherwise a left-to-right scan that replaces
  the current maximum only by a strictly greater element.\<close>

fun py_max :: "real list \<Rightarrow> py_error + real" where
  "py_max [] = Inl ValueError"
| "py_max (x # xs) = Inr (foldl (\<lambda>m y. if m < y then y else m) x xs)"

text \<open>\<^verbatim>\<open>xs.index(v)\<close>: the first position holding \<open>v\<close>, ValueError when there is none.\<close>

fun py_index :: "real list \<Rightarrow> real \<Rightarrow> py_error + nat" where
  "py_index [] v = Inl ValueError"
| "py_index (x # xs) v =
     (if x = v then Inr 0
      else (case py_index xs v of Inl e \<Rightarrow> Inl e | Inr i \<Rightarrow> Inr (Suc i)))"

definition get_ts_guess_index :: "real list \<Rightarrow> real list \<Rightarrow> py_error + nat" where
  "get_ts_guess_index energies potentials =
     (case np_subtract energies potentials of
        Inl e \<Rightarrow> Inl e
      | Inr true_energy \<Rightarrow>
          (case py_max true_energy of
             Inl e \<Rightarrow> Inl e
           | Inr m \<Rightarrow> py_index true_energy m))"

section \<open>The bias potential\<close>

text \<open>
  A geometry is the coordinate array of one logged optimisation step: one Cartesian point
  per atom. A distance-constraint map is a Python dict from pairs of 0-based atom indices to
  target distances; it is modelled by the list of its items in iteration order.
\<close>

type_synonym vec3 = "real \<times> real \<times> real"
type_synonym geometry = "vec3 list"
type_synonym constraints = "((nat \<times> nat) \<times> real) list"

definition euclid :: "vec3 \<Rightarrow> vec3 \<Rightarrow> real" where
  "euclid p q =
     (case p of (x1, y1, z1) \<Rightarrow> case q of (x2, y2, z2) \<Rightarrow>
        sqrt ((x1 - x2)\<^sup>2 + (y1 - y2)\<^sup>2 + (z1 - z2)\<^sup>2))"

text \<open>
  \<^verbatim>\<open>scipy.spatial.distance_matrix(x, y)\<close> with the default \<open>p = 2\<close>. It unpacks the shape of
  both arguments into two numbers, which raises ValueError for an array without rows.
\<close>

definition distance_matrix :: "geometry \<Rightarrow> geometry \<Rightarrow> py_error + real list list" where
  "distance_matrix xs ys =
     (if xs = [] \<or> ys = [] then Inl ValueError
      else Inr (map (\<lambda>p. map (\<lambda>q. euclid p q) ys) xs))"

text \<open>\<^verbatim>\<open>m[i, j]\<close> for non-negative indices: IndexError outside the matrix.\<close>

definition matrix_get :: "real list list \<Rightarrow> nat \<Rightarrow> nat \<Rightarrow> py_error + real" where
  "matrix_get m i j =
     (if i < length m \<and> j < length (m ! i) then Inr (m ! i ! j) else Inl IndexError)"

definition angstrom_to_bohr :: "real \<Rightarrow> real" where
  "angstrom_to_bohr distance_angstrom = distance_angstrom * (188973 / 100000)"

text \<open>The inner loop of \<open>determine_potential\<close> over \<^verbatim>\<open>constraints.items()\<close>, with the running
  value of \<^verbatim>\<open>potential\<close> as accumulator.\<close>

fun constraint_loop :: "real list list \<Rightarrow> real \<Rightarrow> constraints \<Rightarrow> real \<Rightarrow> py_error + real" where
  "constraint_loop dist_matrix force_constant [] potential = Inr potential"
| "constraint_loop dist_matrix force_constant ((key, val) # items) potential =
     (case matrix_get dist_matrix (fst key) (snd key) of
        Inl e \<Rightarrow> Inl e
      | Inr d \<Rightarrow>
          (let actual_distance = d - val
           in constraint_loop dist_matrix force_constant items
                (potential + force_constant * (angstrom_to_bohr actual_distance)\<^sup>2)))"

fun determine_potential :: "geometry list \<Rightarrow> constraints \<Rightarrow> real \<Rightarrow> py_error + real list" where
  "determine_potential [] constraints force_constant = Inr []"
| "determine_potential (coords # all_coords) constraints force_constant =
     (case distance_matrix coords coords of
        Inl e \<Rightarrow> Inl e
      | Inr dist_matrix \<Rightarrow>
          (case constraint_loop dist_matrix force_constant constraints 0 of
             Inl e \<Rightarrow> Inl e
           | Inr potential \<Rightarrow>
               (case determine_potential all_coords constraints force_constant of
                  Inl e \<Rightarrow> Inl e
                | Inr potentials \<Rightarrow> Inr (potential # potentials))))"

text \<open>The closed form of the bias potential of one geometry, and what it means for a geometry
  to carry a constraint map.\<close>

definition bias_formula :: "real \<Rightarrow> constraints \<Rightarrow> geometry \<Rightarrow> real" where
  "bias_formula k cs g =
     k * sum_list (map (\<lambda>(key, target).
            ((188973 / 100000) * (euclid (g ! fst key) (g ! snd key) - target))\<^sup>2) cs)"

definition keys_in_range :: "constraints \<Rightarrow> geometry \<Rightarrow> bool" where
  "keys_in_range cs g =
     (g \<noteq> [] \<and> list_all (\<lambda>(key, target). fst key < length g \<and> snd key < length g) cs)"

definition targets_met :: "constraints \<Rightarrow> geometry \<Rightarrow> bool" where
  "targets_met cs g = list_all (\<lambda>(key, target). euclid (g ! fst key) (g ! snd key) = target) cs"

section \<open>Active bonds\<close>

text \<open>
  The part of an RDKit molecule that \<open>get_bonds\<close> reads: its bonds, each with the indices of
  its two atoms and its bond type as a number (\<^verbatim>\<open>GetBondTypeAsDouble\<close>), and the atom map
  number of every atom (\<^verbatim>\<open>GetAtomWithIdx(i).GetAtomMapNum()\<close>, 0 for an unmapped atom). The
  bonds of an RDKit molecule only refer to atoms of that molecule, so the lookup is total.
\<close>

record bond =
  BeginAtomIdx :: nat
  EndAtomIdx :: nat
  BondTypeAsDouble :: real

record mol =
  AtomMapNum :: "nat \<Rightarrow> nat"
  Bonds :: "bond list"

text \<open>Python's \<^verbatim>\<open>round(x)\<close> of a float: the nearest integer, a tie going to the even one.\<close>

definition py_round :: "real \<Rightarrow> int" where
  "py_round x =
     (let f = \<lfloor>x\<rfloor>; d = x - of_int f
      in if d < 1 / 2 then f else if 1 / 2 < d then f + 1 else if even f then f else f + 1)"

text \<open>Decimal formatting of integers inside an f-string.\<close>

definition digit_char :: "nat \<Rightarrow> char" where
  "digit_char d = ''0123456789'' ! d"

fun str_nat :: "nat \<Rightarrow> string" where
  "str_nat n = (if n < 10 then [digit_char n] else str_nat (n div 10) @ [digit_char (n mod 10)])"

declare str_nat.simps [simp del]

definition str_int :: "int \<Rightarrow> string" where
  "str_int i = (if i < 0 then CHR ''-'' # str_nat (nat (- i)) else str_nat (nat i))"

text \<open>The body of the loop of \<open>get_bonds\<close>: the descriptor string added for one bond.\<close>

definition bond_descriptor :: "mol \<Rightarrow> bond \<Rightarrow> string" where
  "bond_descriptor m b =
     (let atom_1 = AtomMapNum m (BeginAtomIdx b);
          atom_2 = AtomMapNum m (EndAtomIdx b);
          num_bonds = py_round (BondTypeAsDouble b)
      in if atom_1 < atom_2
         then str_nat atom_1 @ ''-'' @ str_nat atom_2 @ ''-'' @ str_int num_bonds
         else str_nat atom_2 @ ''-'' @ str_nat atom_1 @ ''-'' @ str_int num_bonds)"

definition get_bonds :: "mol \<Rightarrow> string set" where
  "get_bonds m = foldl (\<lambda>bonds b. insert (bond_descriptor m b) bonds) {} (Bonds m)"

definition get_active_bonds :: "mol \<Rightarrow> mol \<Rightarrow> string set \<times> string set" where
  "get_active_bonds reactant_mol product_mol =
     (let reactant_bonds = get_bonds reactant_mol;
          product_bonds = get_bonds product_mol;
          formed_bonds = product_bonds - reactant_bonds;
          broken_bonds = reactant_bonds - product_bonds
      in (formed_bonds, broken_bonds))"

text \<open>The canonical descriptor of a bond between two map numbers with an integer order, and
  the two molecules of the bond-cleavage scenario \<^verbatim>\<open>[C:1][O:2]>>[C:1].[O:2]\<close>.\<close>

definition canonical_descriptor :: "nat \<Rightarrow> nat \<Rightarrow> int \<Rightarrow> string" where
  "canonical_descriptor a b n = str_nat (min a b) @ ''-'' @ str_nat (max a b) @ ''-'' @ str_int n"

definition scenario_map_num :: "nat \<Rightarrow> nat" where
  "scenario_map_num i = (if i = 0 then 1 else if i = 1 then 2 else 0)"

definition scenario_reactant :: mol where
  "scenario_reactant =
     \<lparr>AtomMapNum = scenario_map_num,
      Bonds = [\<lparr>BeginAtomIdx = 0, EndAtomIdx = 1, BondTypeAsDouble = 1\<rparr>]\<rparr>"

definition scenario_product :: mol where
  "scenario_product = \<lparr>AtomMapNum = scenario_map_num, Bonds = []\<rparr>"

section \<open>Clustering of conformers\<close>

text \<open>
  \<open>count_unique_conformers\<close> first loads one molecule per XYZ file and asks RDKit for the
  best-fit RMSD of every pair \<open>i < j\<close>. Loading and \<^verbatim>\<open>AllChem.GetBestRMS\<close> are external; the
  model takes the list of conformers (one per file, in the order of the files) and the
  function \<open>GetBestRMS\<close> on them. The matrix starts as zeros and receives each pair's value
  at \<open>[i, j]\<close> and \<open>[j, i]\<close>.
\<close>

definition rmsd_matrix :: "('m \<Rightarrow> 'm \<Rightarrow> real) \<Rightarrow> 'm list \<Rightarrow> nat \<Rightarrow> nat \<Rightarrow> real" where
  "rmsd_matrix GetBestRMS molecules i j =
     (if i < j then GetBestRMS (molecules ! i) (molecules ! j)
      else if j < i then GetBestRMS (molecules ! j) (molecules ! i)
      else 0)"

text \<open>The inner loop over the existing clusters: the clusters after \<open>i\<close> was appended to the
  first cluster that passes the test (the \<^verbatim>\<open>break\<close>), or \<open>None\<close> when the loop ends with
  \<^verbatim>\<open>cluster_found\<close> still false.\<close>

fun find_cluster :: "(nat \<Rightarrow> nat \<Rightarrow> real) \<Rightarrow> nat \<Rightarrow> nat list list \<Rightarrow> nat list list option" where
  "find_cluster M i [] = None"
| "find_cluster M i (cluster # clusters) =
     (if list_all (\<lambda>j. M i j < 5 / 10) cluster then Some ((cluster @ [i]) # clusters)
      else (case find_cluster M i clusters of
              None \<Rightarrow> None
            | Some clusters' \<Rightarrow> Some (cluster # clusters')))"

definition cluster_step :: "(nat \<Rightarrow> nat \<Rightarrow> real) \<Rightarrow> nat list list \<Rightarrow> nat \<Rightarrow> nat list list" where
  "cluster_step M clusters i =
     (case find_cluster M i clusters of
        Some clusters' \<Rightarrow> clusters'
      | None \<Rightarrow> clusters @ [[i]])"

definition count_unique_conformers :: "('m \<Rightarrow> 'm \<Rightarrow> real) \<Rightarrow> 'm list \<Rightarrow> nat list list" where
  "count_unique_conformers GetBestRMS molecules =
     foldl (cluster_step (rmsd_matrix GetBestRMS molecules)) [] [0..<length molecules]"

text \<open>The end of \<open>generate_additional_conformers\<close>:
  \<^verbatim>\<open>[conformer_xyz_files[cluster[0]] for cluster in clusters]\<close>. Indexing an empty cluster or
  a position outside the list of files raises IndexError.\<close>

fun cluster_representatives :: "'m list \<Rightarrow> nat list list \<Rightarrow> py_error + 'm list" where
  "cluster_representatives files [] = Inr []"
| "cluster_representatives files (cluster # clusters) =
     (case cluster of
        [] \<Rightarrow> Inl IndexError
      | first # _ \<Rightarrow>
          (if first < length files
           then (case cluster_representatives files clusters of
                   Inl e \<Rightarrow> Inl e
                 | Inr reps \<Rightarrow> Inr (files ! first # reps))
           else Inl IndexError))"

definition conformers_to_do :: "('m \<Rightarrow> 'm \<Rightarrow> real) \<Rightarrow> 'm list \<Rightarrow> py_error + 'm list" where
  "conformers_to_do GetBestRMS conformer_xyz_files =
     cluster_representatives conformer_xyz_files
       (count_unique_conformers GetBestRMS conformer_xyz_files)"

text \<open>The test a conformer has to pass against a cluster, and the pairwise values of the
  three-conformer scenario: RMSD(0,1) = 0.3, RMSD(0,2) = 0.3, RMSD(1,2) = 0.7.\<close>

definition fits_cluster :: "(nat \<Rightarrow> nat \<Rightarrow> real) \<Rightarrow> nat \<Rightarrow> nat list \<Rightarrow> bool" where
  "fits_cluster M i cluster = list_all (\<lambda>j. M i j < 5 / 10) cluster"

definition scenario_rms :: "nat \<Rightarrow> nat \<Rightarrow> real" where
  "scenario_rms a b = (if a = 1 \<and> b = 2 then 7 / 10 else 3 / 10)"

text \<open>The clusters after the first \<open>k\<close> conformers were processed, and the partition
  invariant of the outer loop.\<close>

definition clusters_after :: "('m \<Rightarrow> 'm \<Rightarrow> real) \<Rightarrow> 'm list \<Rightarrow> nat \<Rightarrow> nat list list" where
  "clusters_after GetBestRMS molecules k =
     foldl (cluster_step (rmsd_matrix GetBestRMS molecules)) [] [0..<k]"

definition partition_upto :: "nat \<Rightarrow> nat list list \<Rightarrow> bool" where
  "partition_upto k clusters =
     (distinct (concat clusters) \<and> set (concat clusters) = {0..<k} \<and>
      list_all (\<lambda>c. c \<noteq> [] \<and> sorted_wrt (<) c) clusters)"

section \<open>The search for the TS guess\<close>

text \<open>
  The xTB program is external. Its two uses in the search are parameters of the model:
  \<^item> \<open>xtb_path conformer constraints force_constant\<close> is the trajectory that
    \<open>read_energy_coords_file\<close> reads from the log of the biased optimisation
    (\<open>xtb_optimize_with_applied_potentials\<close>): one energy, one coordinate array and one list
    of atom symbols per logged step;
  \<^item> \<open>xtb_hess content\<close> is the list of the \<^verbatim>\<open>Frequencies --\<close> lines of the report that the
    frequency calculation writes for the geometry file with that content, each line as
    the list of its numbers.
  The charge and the solvent are fixed for one search and are part of these functions.
  XYZ files are modelled by their content (atom symbols and coordinates), and the calls
  of the external program are recorded in the order in which they are made.
\<close>

type_synonym xyz_content = "string list \<times> geometry"

datatype xyz_name = ts_guess_xyz real | product_geometry_obtained_xyz

datatype 'c engine_call = BiasedOptimization 'c real | FrequencyCalculation xyz_content

record 'c engines =
  xtb_path :: "'c \<Rightarrow> constraints \<Rightarrow> real \<Rightarrow> (real \<times> geometry \<times> string list) list"
  xtb_hess :: "xyz_content \<Rightarrow> real list list"

record 'c world =
  engine_calls :: "'c engine_call list"
  xyz_files :: "xyz_name \<Rightarrow> xyz_content option"

record profile =
  p_energies :: "real list"
  p_coords :: "geometry list"
  p_atoms :: "string list list"
  p_potentials :: "real list"

text \<open>\<^verbatim>\<open>xs[-1]\<close> and \<^verbatim>\<open>xs[i]\<close> for a non-negative \<open>i\<close>.\<close>

definition py_last :: "'a list \<Rightarrow> py_error + 'a" where
  "py_last xs = (if xs = [] then Inl IndexError else Inr (last xs))"

definition py_nth :: "'a list \<Rightarrow> nat \<Rightarrow> py_error + 'a" where
  "py_nth xs i = (if i < length xs then Inr (xs ! i) else Inl IndexError)"

text \<open>
  \<open>write_xyz_file_from_atoms_and_coords\<close> writes one line per coordinate and reads the atom
  symbol of the same position, which raises IndexError when there are fewer symbols than
  coordinates (the exception ends the search, and the partly written file is not
  modelled). It returns the file name.
\<close>

definition write_xyz_file_from_atoms_and_coords ::
  "string list \<Rightarrow> geometry \<Rightarrow> xyz_name \<Rightarrow> 'c world \<Rightarrow> 'c world \<times> (py_error + xyz_name)" where
  "write_xyz_file_from_atoms_and_coords atoms coords filename st =
     (if length coords \<le> length atoms
      then (st\<lparr>xyz_files := (xyz_files st)(filename \<mapsto> (atoms, coords))\<rparr>, Inr filename)
      else (st, Inl IndexError))"

text \<open>\<open>read_negative_frequencies\<close> returns the negative numbers of the first
  \<^verbatim>\<open>Frequencies --\<close> line, and \<^verbatim>\<open>None\<close> when the report has no such line.\<close>

definition read_negative_frequencies :: "real list list \<Rightarrow> real list option" where
  "read_negative_frequencies report =
     (case report of [] \<Rightarrow> None | frequencies # _ \<Rightarrow> Some (filter (\<lambda>freq. freq < 0) frequencies))"

text \<open>\<open>get_negative_frequencies\<close> runs the frequency calculation on the named file and reads
  the report \<^verbatim>\<open>g98.out\<close>. Without the input file there is no report to open.\<close>

definition get_negative_frequencies ::
  "'c engines \<Rightarrow> xyz_name \<Rightarrow> 'c world \<Rightarrow> 'c world \<times> (py_error + real list option)" where
  "get_negative_frequencies E filename st =
     (case xyz_files st filename of
        None \<Rightarrow> (st, Inl FileNotFoundError)
      | Some content \<Rightarrow>
          (st\<lparr>engine_calls := engine_calls st @ [FrequencyCalculation content]\<rparr>,
           Inr (read_negative_frequencies (xtb_hess E content))))"

text \<open>\<^verbatim>\<open>len(x)\<close> of the result of \<open>read_negative_frequencies\<close>: TypeError for \<^verbatim>\<open>None\<close>.\<close>

definition py_len :: "real list option \<Rightarrow> py_error + nat" where
  "py_len x = (case x of None \<Rightarrow> Inl TypeError | Some xs \<Rightarrow> Inr (length xs))"

subsection \<open>Validation of the preliminary guess\<close>

text \<open>
  The pair of statements that \<open>get_final_ts_guess_geometry\<close> executes for a trajectory step:
  write the step's geometry to \<^verbatim>\<open>ts_guess_{force_constant}.xyz\<close> and run the frequency
  calculation on that file.
\<close>

definition write_and_check ::
  "'c engines \<Rightarrow> string list list \<Rightarrow> geometry list \<Rightarrow> real \<Rightarrow> nat \<Rightarrow> 'c world
     \<Rightarrow> 'c world \<times> (py_error + xyz_name \<times> real list option)" where
  "write_and_check E atoms coords force_constant index st =
     (case py_nth atoms index of
        Inl e \<Rightarrow> (st, Inl e)
      | Inr a \<Rightarrow>
     (case py_nth coords index of
        Inl e \<Rightarrow> (st, Inl e)
      | Inr c \<Rightarrow>
     (case write_xyz_file_from_atoms_and_coords a c (ts_guess_xyz force_constant) st of
        (st1, Inl e) \<Rightarrow> (st1, Inl e)
      | (st1, Inr filename) \<Rightarrow>
     (case get_negative_frequencies E filename st1 of
        (st2, Inl e) \<Rightarrow> (st2, Inl e)
      | (st2, Inr neg_freq) \<Rightarrow> (st2, Inr (filename, neg_freq))))))"

text \<open>
  The loop of \<open>get_final_ts_guess_geometry\<close> over the remaining indices. It ends with a
  returned file name, or it completes; \<open>neg_freq_init\<close> is \<open>None\<close> while the variable of that
  name is unbound. The body runs the write-and-check pair, returns when one negative
  frequency was found, runs the pair a second time, binds \<open>neg_freq_init\<close> at the first
  index, and returns when the second result has one negative frequency.
\<close>

datatype validation_outcome = Returned xyz_name | Completed "real list option option"

fun validation_loop ::
  "'c engines \<Rightarrow> nat \<Rightarrow> string list list \<Rightarrow> geometry list \<Rightarrow> real \<Rightarrow> nat list
     \<Rightarrow> real list option option \<Rightarrow> 'c world \<Rightarrow> 'c world \<times> (py_error + validation_outcome)" where
  "validation_loop E preliminary atoms coords force_constant [] neg_freq_init st =
     (st, Inr (Completed neg_freq_init))"
| "validation_loop E preliminary atoms coords force_constant (index # rest) neg_freq_init st =
     (case write_and_check E atoms coords force_constant index st of
        (st1, Inl e) \<Rightarrow> (st1, Inl e)
      | (st1, Inr (filename, neg_freq)) \<Rightarrow>
     (case py_len neg_freq of
        Inl e \<Rightarrow> (st1, Inl e)
      | Inr n \<Rightarrow>
          if n = 1 then (st1, Inr (Returned filename))
          else
     (case write_and_check E atoms coords force_constant index st1 of
        (st2, Inl e) \<Rightarrow> (st2, Inl e)
      | (st2, Inr (filename2, neg_freq2)) \<Rightarrow>
     (case py_len neg_freq2 of
        Inl e \<Rightarrow> (st2, Inl e)
      | Inr n2 \<Rightarrow>
          if n2 = 1 then (st2, Inr (Returned filename2))
          else validation_loop E preliminary atoms coords force_constant rest
                 (if index = preliminary then Some neg_freq2 else neg_freq_init) st2))))"

definition get_final_ts_guess_geometry ::
  "'c engines \<Rightarrow> nat \<Rightarrow> string list list \<Rightarrow> geometry list \<Rightarrow> real \<Rightarrow> 'c world
     \<Rightarrow> 'c world \<times> (py_error + xyz_name)" where
  "get_final_ts_guess_geometry E preliminary_ts_guess_index atoms coords force_constant st =
     (case validation_loop E preliminary_ts_guess_index atoms coords force_constant
             [preliminary_ts_guess_index ..<
                min (preliminary_ts_guess_index + 6) (length atoms)] None st of
        (st1, Inl e) \<Rightarrow> (st1, Inl e)
      | (st1, Inr (Returned filename)) \<Rightarrow> (st1, Inr filename)
      | (st1, Inr (Completed neg_freq_init)) \<Rightarrow>
          (case neg_freq_init of
             None \<Rightarrow> (st1, Inl UnboundLocalError)
           | Some _ \<Rightarrow>
               (case py_nth atoms preliminary_ts_guess_index of
                  Inl e \<Rightarrow> (st1, Inl e)
                | Inr a \<Rightarrow>
                    (case py_nth coords preliminary_ts_guess_index of
                       Inl e \<Rightarrow> (st1, Inl e)
                     | Inr c \<Rightarrow>
                         write_xyz_file_from_atoms_and_coords a c
                           (ts_guess_xyz force_constant) st1))))"

subsection \<open>The scan of the force constant\<close>

text \<open>
  The length of the scan depends on how the quotient \<open>(fc_max - fc_min) / fc_delta\<close> is
  rounded, so the arithmetic of \<^verbatim>\<open>np.arange\<close> is modelled with its rounding. A Python float
  is a binary64 number, and every operation returns the exact result rounded to the nearest
  binary64 number, a tie going to the one with the even significand: \<open>binary64 x\<close> is the
  multiple of the unit in the last place nearest to \<open>x\<close>, the unit being \<open>2\<close> to the power
  \<open>e - 52\<close> for \<open>2 ^ e \<le> \<bar>x\<bar> < 2 ^ (e + 1)\<close>, with \<open>e\<close> not below \<open>-1022\<close>. Results beyond
  the largest finite binary64 number, which the machine turns into infinities, are not
  modelled.
\<close>

definition ulp_exponent :: "real \<Rightarrow> int" where
  "ulp_exponent x = max \<lfloor>log 2 \<bar>x\<bar>\<rfloor> (- 1022) - 52"

definition binary64 :: "real \<Rightarrow> real" where
  "binary64 x =
     (if x = 0 then 0
      else real_of_int (py_round (x / 2 powr real_of_int (ulp_exponent x))) *
           2 powr real_of_int (ulp_exponent x))"

text \<open>
  \<^verbatim>\<open>np.arange(start, stop, step)\<close> for Python floats. The length is the ceiling of
  \<open>(stop - start) / step\<close>, computed with two rounded operations on Python numbers (the
  division raises ZeroDivisionError for step 0); there is no element when it is not
  positive. The first element is \<open>start\<close>, the second the rounded sum \<open>start + step\<close>; numpy
  fills the rest with \<open>start + i * delta\<close>, \<open>delta\<close> being the rounded difference of the first
  two elements, each operation rounded.
\<close>

definition np_arange :: "real \<Rightarrow> real \<Rightarrow> real \<Rightarrow> py_error + real list" where
  "np_arange start stop step =
     (if step = 0 then Inl ZeroDivisionError
      else (let length = nat \<lceil>binary64 (binary64 (stop - start) / step)\<rceil>;
                next = binary64 (start + step);
                delta = binary64 (next - start)
            in Inr (map (\<lambda>i. if i = 0 then start else if i = 1 then next
                                else binary64 (start + binary64 (real i * delta)))
                        [0..<length])))"

definition get_profile_for_biased_optimization ::
  "'c engines \<Rightarrow> 'c \<Rightarrow> constraints \<Rightarrow> real \<Rightarrow> 'c world \<Rightarrow> 'c world \<times> (py_error + profile)" where
  "get_profile_for_biased_optimization E conformer formation_constraints force_constant st =
     (let st1 = st\<lparr>engine_calls := engine_calls st @ [BiasedOptimization conformer force_constant]\<rparr>;
          trajectory = xtb_path E conformer formation_constraints force_constant;
          energies = map fst trajectory;
          coords = map (\<lambda>s. fst (snd s)) trajectory;
          atoms = map (\<lambda>s. snd (snd s)) trajectory
      in (case determine_potential coords formation_constraints force_constant of
            Inl e \<Rightarrow> (st1, Inl e)
          | Inr potentials \<Rightarrow>
         (case py_last atoms of
            Inl e \<Rightarrow> (st1, Inl e)
          | Inr a \<Rightarrow>
         (case py_last coords of
            Inl e \<Rightarrow> (st1, Inl e)
          | Inr c \<Rightarrow>
         (case write_xyz_file_from_atoms_and_coords a c product_geometry_obtained_xyz st1 of
            (st2, Inl e) \<Rightarrow> (st2, Inl e)
          | (st2, Inr _) \<Rightarrow>
              (st2, Inr \<lparr>p_energies = energies, p_coords = coords, p_atoms = atoms,
                         p_potentials = potentials\<rparr>))))))"

text \<open>
  The inner loop of \<open>find_ts_guess\<close> over the force constants. \<open>bound\<close> holds the force
  constant and the profile of the last completed iteration, that is, the values that the
  loop variables have after the loop; it is \<open>None\<close> while they are unbound. The loop ends
  exhausted, or by the \<^verbatim>\<open>break\<close> with the preliminary index.
\<close>

datatype scan_outcome = Exhausted "(real \<times> profile) option" | Accepted real profile nat

fun force_constant_loop ::
  "'c engines \<Rightarrow> 'c \<Rightarrow> constraints \<Rightarrow> real list \<Rightarrow> (real \<times> profile) option \<Rightarrow> 'c world
     \<Rightarrow> 'c world \<times> (py_error + scan_outcome)" where
  "force_constant_loop E conformer formation_constraints [] bound st = (st, Inr (Exhausted bound))"
| "force_constant_loop E conformer formation_constraints (force_constant # rest) bound st =
     (case get_profile_for_biased_optimization E conformer formation_constraints force_constant st of
        (st1, Inl e) \<Rightarrow> (st1, Inl e)
      | (st1, Inr prof) \<Rightarrow>
     (case py_last (p_potentials prof) of
        Inl e \<Rightarrow> (st1, Inl e)
      | Inr final \<Rightarrow>
          if 1 / 100 < final
          then force_constant_loop E conformer formation_constraints rest
                 (Some (force_constant, prof)) st1
          else (case get_ts_guess_index (p_energies prof) (p_potentials prof) of
                  Inl e \<Rightarrow> (st1, Inl e)
                | Inr preliminary_ts_guess_index \<Rightarrow>
                    (st1, Inr (Accepted force_constant prof preliminary_ts_guess_index)))))"

text \<open>
  \<open>find_ts_guess\<close> from the loop over \<open>conformers_to_do\<close> to its end. What comes
  before it in the function (parsing of the SMILES strings, the constraints, the seed
  geometries and the conformer ensemble) is the work of RDKit, autodE and xTB; its results
  \<open>formation_constraints\<close> and \<open>conformers_to_do\<close> are parameters here. The result is the
  returned file name, or \<open>None\<close>. Both branches after the scan of a conformer end with a
  \<^verbatim>\<open>return\<close> statement inside the body of the loop over the conformers, and the function
  returns \<^verbatim>\<open>None\<close> when that loop has nothing to iterate over.
\<close>

fun find_ts_guess ::
  "'c engines \<Rightarrow> constraints \<Rightarrow> 'c list \<Rightarrow> real \<Rightarrow> real \<Rightarrow> real \<Rightarrow> 'c world
     \<Rightarrow> 'c world \<times> (py_error + xyz_name option)" where
  "find_ts_guess E formation_constraints [] fc_min fc_max fc_delta st = (st, Inr None)"
| "find_ts_guess E formation_constraints (conformer # rest) fc_min fc_max fc_delta st =
     (case np_arange fc_min fc_max fc_delta of
        Inl e \<Rightarrow> (st, Inl e)
      | Inr force_constants \<Rightarrow>
     (case force_constant_loop E conformer formation_constraints force_constants None st of
        (st1, Inl e) \<Rightarrow> (st1, Inl e)
      | (st1, Inr (Accepted force_constant prof preliminary_ts_guess_index)) \<Rightarrow>
          (case get_final_ts_guess_geometry E preliminary_ts_guess_index (p_atoms prof)
                  (p_coords prof) force_constant st1 of
             (st2, Inl e) \<Rightarrow> (st2, Inl e)
           | (st2, Inr xyz_file_final_ts_guess) \<Rightarrow> (st2, Inr (Some xyz_file_final_ts_guess)))
      | (st1, Inr (Exhausted bound)) \<Rightarrow>
          (case bound of
             None \<Rightarrow> (st1, Inl UnboundLocalError)
           | Some (force_constant, prof) \<Rightarrow>
               (case py_last (p_potentials prof) of
                  Inl e \<Rightarrow> (st1, Inl e)
                | Inr _ \<Rightarrow> (st1, Inr None)))))"

text \<open>The world before anything was written or run.\<close>

definition blank_world :: "'c world" where
  "blank_world = \<lparr>engine_calls = [], xyz_files = (\<lambda>name. None)\<rparr>"

subsection \<open>Concrete runs\<close>

text \<open>
  A two-atom system with the formation constraint "atoms 0 and 1 at distance 1". The
  biased optimisation of the conformer \<open>''far''\<close> logs one step with the atoms at distance 3
  for every force constant, that of any other conformer one step with the atoms at
  distance 1. The frequency calculation reports the lines given by \<open>report\<close>.
\<close>

definition demo_constraints :: constraints where
  "demo_constraints = [((0, 1), 1)]"

definition demo_path :: "string \<Rightarrow> constraints \<Rightarrow> real \<Rightarrow> (real \<times> geometry \<times> string list) list" where
  "demo_path conformer cs force_constant =
     (if conformer = ''far'' then [(- 5, [(0, 0, 0), (3, 0, 0)], [''C'', ''O''])]
      else [(- 5, [(0, 0, 0), (1, 0, 0)], [''C'', ''O''])])"

definition demo_engines :: "real list list \<Rightarrow> string engines" where
  "demo_engines report = \<lparr>xtb_path = demo_path, xtb_hess = (\<lambda>content. report)\<rparr>"

text \<open>The world in which the concrete runs start.\<close>

definition empty_world :: "string world" where
  "empty_world = blank_world"

text \<open>A trajectory of \<open>n\<close> steps whose step \<open>i\<close> has its single atom at \<open>(i, 0, 0)\<close>, and a
  frequency calculation that reports one negative frequency for the geometry of step 6 and
  two for every other geometry.\<close>

definition line_atoms :: "nat \<Rightarrow> string list list" where
  "line_atoms n = map (\<lambda>i. [''H'']) [0..<n]"

definition line_coords :: "nat \<Rightarrow> geometry list" where
  "line_coords n = map (\<lambda>i. [(real i, 0, 0)]) [0..<n]"

definition hess_step6 :: "xyz_content \<Rightarrow> real list list" where
  "hess_step6 content =
     (if snd content = [(6, 0, 0)] then [[- 300, 20, 40]] else [[- 300, - 20, 40]])"

definition step6_engines :: "string engines" where
  "step6_engines = \<lparr>xtb_path = demo_path, xtb_hess = hess_step6\<rparr>"

subsection \<open>Notions used to state the properties of the search\<close>

text \<open>
  The frequency calculation finds exactly one negative frequency for a geometry file; the
  geometry of step \<open>i\<close> of a trajectory; and what the validation needs of the steps it
  examines: the step has coordinates, no more coordinates than atom symbols, and the
  frequency report of its geometry has a \<^verbatim>\<open>Frequencies --\<close> line.
\<close>

definition single_imaginary :: "'c engines \<Rightarrow> xyz_content \<Rightarrow> bool" where
  "single_imaginary E content =
     (case read_negative_frequencies (xtb_hess E content) of
        None \<Rightarrow> False
      | Some neg_freq \<Rightarrow> length neg_freq = 1)"

definition step_geometry :: "string list list \<Rightarrow> geometry list \<Rightarrow> nat \<Rightarrow> xyz_content" where
  "step_geometry atoms coords i = (atoms ! i, coords ! i)"

definition step_usable :: "'c engines \<Rightarrow> string list list \<Rightarrow> geometry list \<Rightarrow> nat \<Rightarrow> bool" where
  "step_usable E atoms coords i =
     (i < length atoms \<and> i < length coords \<and> length (coords ! i) \<le> length (atoms ! i) \<and>
      xtb_hess E (step_geometry atoms coords i) \<noteq> [])"

definition window_usable :: "'c engines \<Rightarrow> string list list \<Rightarrow> geometry list \<Rightarrow> nat \<Rightarrow> bool" where
  "window_usable E atoms coords p =
     (p < length atoms \<and>
      list_all (step_usable E atoms coords) [p..<min (p + 6) (length atoms)])"

text \<open>
  The final-step potential of the biased run of a conformer at a force constant, when the
  run yields a profile; a run is rejected when that potential exceeds 0.01 and reaches the
  product when it does not.
\<close>

definition run_profile :: "'c engines \<Rightarrow> 'c \<Rightarrow> constraints \<Rightarrow> real \<Rightarrow> py_error + profile" where
  "run_profile E conformer cs k =
     snd (get_profile_for_biased_optimization E conformer cs k blank_world)"

definition final_potential :: "'c engines \<Rightarrow> 'c \<Rightarrow> constraints \<Rightarrow> real \<Rightarrow> real option" where
  "final_potential E conformer cs k =
     (case run_profile E conformer cs k of
        Inl e \<Rightarrow> None
      | Inr prof \<Rightarrow> (case py_last (p_potentials prof) of Inl e \<Rightarrow> None | Inr v \<Rightarrow> Some v))"

definition rejected :: "'c engines \<Rightarrow> 'c \<Rightarrow> constraints \<Rightarrow> real \<Rightarrow> bool" where
  "rejected E conformer cs k =
     (case final_potential E conformer cs k of None \<Rightarrow> False | Some v \<Rightarrow> 1 / 100 < v)"

definition reaches_product :: "'c engines \<Rightarrow> 'c \<Rightarrow> constraints \<Rightarrow> real \<Rightarrow> bool" where
  "reaches_product E conformer cs k =
     (case final_potential E conformer cs k of None \<Rightarrow> False | Some v \<Rightarrow> v \<le> 1 / 100)"

text \<open>The force constants that the scan evaluates out of a list: the rejected ones up to the
  first that is not rejected, and that one.\<close>

definition evaluated :: "'c engines \<Rightarrow> 'c \<Rightarrow> constraints \<Rightarrow> real list \<Rightarrow> real list" where
  "evaluated E conformer cs ks =
     takeWhile (rejected E conformer cs) ks @ take 1 (dropWhile (rejected E conformer cs) ks)"

text \<open>Two frequency calculations in a row for each of the listed steps.\<close>

definition twice_each :: "string list list \<Rightarrow> geometry list \<Rightarrow> nat list \<Rightarrow> 'c engine_call list" where
  "twice_each atoms coords idxs =
     concat (map (\<lambda>j. [FrequencyCalculation (step_geometry atoms coords j),
                        FrequencyCalculation (step_geometry atoms coords j)]) idxs)"

text \<open>A world that differs from an earlier one in its recorded calls only by frequency
  calculations appended at the end.\<close>

definition frequency_calls_appended :: "'c world \<Rightarrow> 'c world \<Rightarrow> bool" where
  "frequency_calls_appended st st' =
     (\<exists>contents. engine_calls st' = engine_calls st @ map FrequencyCalculation contents)"

text \<open>
  Reading a decimal string back, the relation "the two bonds join the same pair of map
  numbers with the same rounded order", and the molecules of a reaction that changes the
  order of a bond, \<^verbatim>\<open>[C:1]=[O:2]>>[C:1][O:2]\<close>.
\<close>

definition decimal_value :: "string \<Rightarrow> nat" where
  "decimal_value s = foldl (\<lambda>v c. 10 * v + (of_char c - 48)) 0 s"

definition same_bond :: "mol \<Rightarrow> bond \<Rightarrow> mol \<Rightarrow> bond \<Rightarrow> bool" where
  "same_bond r br p bp =
     ({AtomMapNum r (BeginAtomIdx br), AtomMapNum r (EndAtomIdx br)} =
      {AtomMapNum p (BeginAtomIdx bp), AtomMapNum p (EndAtomIdx bp)} \<and>
      py_round (BondTypeAsDouble br) = py_round (BondTypeAsDouble bp))"

definition carbonyl_reactant :: mol where
  "carbonyl_reactant =
     \<lparr>AtomMapNum = scenario_map_num,
      Bonds = [\<lparr>BeginAtomIdx = 0, EndAtomIdx = 1, BondTypeAsDouble = 2\<rparr>]\<rparr>"

definition carbonyl_product :: mol where
  "carbonyl_product =
     \<lparr>AtomMapNum = scenario_map_num,
      Bonds = [\<lparr>BeginAtomIdx = 1, EndAtomIdx = 0, BondTypeAsDouble = 1\<rparr>]\<rparr>"

section \<open>Properties of the index selection\<close>

lemma foldl_max_ge: "m \<le> foldl (\<lambda>m y. if m < y then y else m) (m::real) xs"
proof (induction xs arbitrary: m)
  case Nil then show ?case by simp
next
  case (Cons a xs)
  have "m \<le> (if m < a then a else m)" by simp
  also have "\<dots> \<le> foldl (\<lambda>m y. if m < y then y else m) (if m < a then a else m) xs"
    by (rule Cons.IH)
  finally show ?case by simp
qed

lemma foldl_max_in: "foldl (\<lambda>m y. if m < y then y else m) (m::real) xs \<in> insert m (set xs)"
  by (induction xs arbitrary: m) auto

lemma foldl_max_ub: "y \<in> set xs \<Longrightarrow> y \<le> foldl (\<lambda>m y. if m < y then y else m) (m::real) xs"
proof (induction xs arbitrary: m)
  case Nil then show ?case by simp
next
  case (Cons a xs)
  show ?case
  proof (cases "y = a")
    case True
    have "(if m < a then a else m) \<le> foldl (\<lambda>m y. if m < y then y else m) (if m < a then a else m) xs"
      by (rule foldl_max_ge)
    with True show ?thesis by (simp split: if_splits)
  next
    case False
    with Cons.prems have "y \<in> set xs" by simp
    from Cons.IH[OF this] show ?thesis by simp
  qed
qed

lemma py_max_greatest:
  assumes "xs \<noteq> []"
  shows "\<exists>m. py_max xs = Inr m \<and> m \<in> set xs \<and> (\<forall>y\<in>set xs. y \<le> m)"
proof -
  from assms obtain a as where xs: "xs = a # as" by (cases xs) auto
  let ?m = "foldl (\<lambda>m y. if m < y then y else m) a as"
  have "?m \<in> set xs" using foldl_max_in[of a as] xs by simp
  moreover have "\<forall>y\<in>set xs. y \<le> ?m"
    using foldl_max_ub[of _ as a] foldl_max_ge[of a as] xs by auto
  ultimately show ?thesis using xs by simp
qed

lemma py_index_first:
  "v \<in> set xs \<Longrightarrow> \<exists>i. py_index xs v = Inr i \<and> i < length xs \<and> xs ! i = v \<and> (\<forall>j<i. xs ! j \<noteq> v)"
proof (induction xs)
  case Nil then show ?case by simp
next
  case (Cons a xs)
  show ?case
  proof (cases "a = v")
    case True then show ?thesis by simp
  next
    case False
    with Cons.prems have "v \<in> set xs" by simp
    from Cons.IH[OF this] obtain i where i: "py_index xs v = Inr i" "i < length xs" "xs ! i = v" "\<forall>j<i. xs ! j \<noteq> v"
      by blast
    have "\<forall>j<Suc i. (a # xs) ! j \<noteq> v"
      using False i(4) by (auto simp: nth_Cons split: nat.splits)
    with i False show ?thesis by simp
  qed
qed

text \<open>
  Claim C1. For a non-empty trajectory whose energies and potentials have the same length,
  \<open>get_ts_guess_index\<close> returns an index inside the trajectory at which the bias-corrected
  energy \<open>energies ! i - potentials ! i\<close> is maximal, and every earlier index has a strictly
  smaller bias-corrected energy (first occurrence on ties). For energies \<open>[-10, -9, -8]\<close> and
  potentials \<open>[0, 5, 0.005]\<close> the index is 2.
\<close>

theorem get_ts_guess_index_first_max:
  assumes len: "length energies = length potentials" and ne: "energies \<noteq> []"
  shows "(\<exists>i. get_ts_guess_index energies potentials = Inr i \<and> i < length energies \<and>
            (\<forall>j<length energies. energies ! j - potentials ! j \<le> energies ! i - potentials ! i) \<and>
            (\<forall>j<i. energies ! j - potentials ! j < energies ! i - potentials ! i)) \<and>
         get_ts_guess_index [-10, -9, -8] [0, 5, 5 / 1000] = Inr 2"
proof -
  let ?te = "map (\<lambda>(x, y). x - y) (zip energies potentials)"
  have sub: "np_subtract energies potentials = Inr ?te" using len by (simp add: np_subtract_def)
  have lte: "length ?te = length energies" using len by simp
  have nth: "\<And>j. j < length energies \<Longrightarrow> ?te ! j = energies ! j - potentials ! j"
    using len by simp
  have "?te \<noteq> []" using ne len by (cases energies; cases potentials) auto
  from py_max_greatest[OF this] obtain m where m: "py_max ?te = Inr m" "m \<in> set ?te" "\<forall>y\<in>set ?te. y \<le> m"
    by blast
  from py_index_first[OF m(2)] obtain i where
    i: "py_index ?te m = Inr i" "i < length ?te" "?te ! i = m" "\<forall>j<i. ?te ! j \<noteq> m" by blast
  have res: "get_ts_guess_index energies potentials = Inr i"
    using sub m(1) i(1) by (simp add: get_ts_guess_index_def)
  have ilt: "i < length energies" using i(2) lte by simp
  have ub: "\<forall>j<length energies. energies ! j - potentials ! j \<le> energies ! i - potentials ! i"
  proof (intro allI impI)
    fix j assume j: "j < length energies"
    then have "?te ! j \<in> set ?te" using lte by (metis nth_mem)
    then have "?te ! j \<le> m" using m(3) by blast
    then show "energies ! j - potentials ! j \<le> energies ! i - potentials ! i"
      using nth[OF j] nth[OF ilt] i(3) by simp
  qed
  have strict: "\<forall>j<i. energies ! j - potentials ! j < energies ! i - potentials ! i"
  proof (intro allI impI)
    fix j assume j: "j < i"
    then have jl: "j < length energies" using ilt by simp
    have "?te ! j \<noteq> m" using i(4) j by blast
    moreover have "?te ! j \<le> m" using m(3) jl lte by (metis nth_mem)
    ultimately have "?te ! j < m" by simp
    then show "energies ! j - potentials ! j < energies ! i - potentials ! i"
      using nth[OF jl] nth[OF ilt] i(3) by simp
  qed
  have ex: "get_ts_guess_index [-10, -9, -8] [0, 5, 5 / 1000] = Inr 2"
    by (simp add: get_ts_guess_index_def np_subtract_def)
  from res ilt ub strict ex show ?thesis by blast
qed

theorem get_ts_guess_index_first_max_witness:
  "\<exists>i. get_ts_guess_index [1, 3, 3] [0, 1, 1] = Inr i \<and> i < 3"
proof -
  have "length [1, 3, 3::real] = length [0, 1, 1::real]" by simp
  moreover have "[1, 3, 3::real] \<noteq> []" by simp
  ultimately obtain i where i: "get_ts_guess_index [1, 3, 3] [0, 1, 1] = Inr i"
    and mx: "\<forall>j<length [1, 3, 3::real]. [1, 3, 3::real] ! j - [0, 1, 1] ! j \<le> [1, 3, 3] ! i - [0, 1, 1] ! i"
    and st: "\<forall>j<i. [1, 3, 3::real] ! j - [0, 1, 1] ! j < [1, 3, 3] ! i - [0, 1, 1] ! i"
    and il: "i < length [1, 3, 3::real]"
    using get_ts_guess_index_first_max[of "[1, 3, 3]" "[0, 1, 1]"] by blast
  from i il show ?thesis by auto
qed

section \<open>Properties of the bias potential\<close>

lemma matrix_get_distance:
  assumes "i < length g" "j < length g"
  shows "matrix_get (map (\<lambda>p. map (\<lambda>q. euclid p q) g) g) i j = Inr (euclid (g ! i) (g ! j))"
  using assms by (simp add: matrix_get_def)

lemma constraint_loop_sum:
  assumes "list_all (\<lambda>(key, target). fst key < length g \<and> snd key < length g) cs"
  shows "constraint_loop (map (\<lambda>p. map (\<lambda>q. euclid p q) g) g) k cs acc =
         Inr (acc + k * sum_list (map (\<lambda>(key, target).
            ((188973 / 100000) * (euclid (g ! fst key) (g ! snd key) - target))\<^sup>2) cs))"
  using assms
proof (induction cs arbitrary: acc)
  case Nil then show ?case by simp
next
  case (Cons c cs)
  obtain key t where c: "c = (key, t)" by (cases c)
  from Cons.prems c have r: "fst key < length g" "snd key < length g"
    and rest: "list_all (\<lambda>(key, target). fst key < length g \<and> snd key < length g) cs" by auto
  show ?case
    unfolding c
    by (simp add: matrix_get_distance[OF r] Cons.IH[OF rest] angstrom_to_bohr_def
        algebra_simps power2_eq_square)
qed

lemma determine_potential_formula:
  assumes "list_all (keys_in_range cs) all_coords"
  shows "determine_potential all_coords cs k = Inr (map (bias_formula k cs) all_coords)"
  using assms
proof (induction all_coords)
  case Nil then show ?case by simp
next
  case (Cons g gs)
  from Cons.prems have kg: "keys_in_range cs g" and rest: "list_all (keys_in_range cs) gs"
    by simp_all
  from kg have g: "g \<noteq> []"
    and r: "list_all (\<lambda>(key, target). fst key < length g \<and> snd key < length g) cs"
    by (simp_all add: keys_in_range_def)
  have dm: "distance_matrix g g = Inr (map (\<lambda>p. map (\<lambda>q. euclid p q) g) g)"
    using g by (simp add: distance_matrix_def)
  show ?case
    by (simp add: dm constraint_loop_sum[OF r] Cons.IH[OF rest] bias_formula_def)
qed

lemma sum_squares_nonneg:
  "0 \<le> sum_list (map (\<lambda>(key, target). ((c::real) * (f key - target))\<^sup>2) cs)"
  by (induction cs) (auto simp: case_prod_beta)

lemma sum_squares_zero_iff:
  assumes "c \<noteq> (0::real)"
  shows "sum_list (map (\<lambda>(key, target). (c * (f key - target))\<^sup>2) cs) = 0
         \<longleftrightarrow> list_all (\<lambda>(key, target). f key = target) cs"
proof (induction cs)
  case Nil then show ?case by simp
next
  case (Cons a cs)
  obtain key t where a: "a = (key, t)" by (cases a)
  have nn: "0 \<le> sum_list (map (\<lambda>(key, target). (c * (f key - target))\<^sup>2) cs)"
    by (rule sum_squares_nonneg)
  have sq: "0 \<le> (c * (f key - t))\<^sup>2" by simp
  have "(c * (f key - t))\<^sup>2 + sum_list (map (\<lambda>(key, target). (c * (f key - target))\<^sup>2) cs) = 0
        \<longleftrightarrow> (c * (f key - t))\<^sup>2 = 0 \<and> sum_list (map (\<lambda>(key, target). (c * (f key - target))\<^sup>2) cs) = 0"
    using nn sq by (simp add: add_nonneg_eq_0_iff)
  moreover have "(c * (f key - t))\<^sup>2 = 0 \<longleftrightarrow> f key = t" using assms by simp
  ultimately show ?case using Cons.IH a by simp
qed

lemma bias_formula_nonneg: "0 \<le> k \<Longrightarrow> 0 \<le> bias_formula k cs g"
  unfolding bias_formula_def
  using sum_squares_nonneg[of "188973 / 100000" "\<lambda>key. euclid (g ! fst key) (g ! snd key)" cs]
  by simp

lemma bias_formula_zero_iff: "0 < k \<Longrightarrow> bias_formula k cs g = 0 \<longleftrightarrow> targets_met cs g"
  unfolding bias_formula_def targets_met_def
  using sum_squares_zero_iff[of "188973 / 100000" "\<lambda>key. euclid (g ! fst key) (g ! snd key)" cs]
  by simp

lemma determine_potential_on_target: "determine_potential [[(0, 0, 0), (2, 0, 0)]] [((0, 1), 2)] k = Inr [0]"
  by (simp add: distance_matrix_def matrix_get_def euclid_def angstrom_to_bohr_def)

text \<open>
  Claim C7. For a positive force constant and geometries that carry the constraint map (every
  key indexes an atom of the geometry), \<open>determine_potential\<close> returns for each geometry
  \<open>k * \<Sum> (1.88973 * (actual_distance - target_distance))\<^sup>2\<close>, the distances being the
  Euclidean distances of the geometry. Each potential is non-negative, and it is zero exactly
  when every constrained distance equals its target. A single pair at distance 2.0 with
  target 2.0 has potential 0 for every force constant.
\<close>

theorem determine_potential_bias:
  assumes "0 < k" and "list_all (keys_in_range cs) all_coords"
  shows "determine_potential all_coords cs k = Inr (map (bias_formula k cs) all_coords) \<and>
         list_all (\<lambda>g. 0 \<le> bias_formula k cs g \<and> (bias_formula k cs g = 0 \<longleftrightarrow> targets_met cs g)) all_coords \<and>
         (\<forall>k'. determine_potential [[(0, 0, 0), (2, 0, 0)]] [((0, 1), 2)] k' = Inr [0])"
proof -
  have "list_all (\<lambda>g. 0 \<le> bias_formula k cs g \<and> (bias_formula k cs g = 0 \<longleftrightarrow> targets_met cs g)) all_coords"
    using assms(1) bias_formula_nonneg[of k cs] bias_formula_zero_iff[of k cs]
    by (simp add: list_all_iff)
  then show ?thesis using determine_potential_formula[OF assms(2)] determine_potential_on_target by simp
qed

theorem determine_potential_bias_witness:
  "determine_potential [[(0, 0, 0), (3, 4, 0)], [(0, 0, 0), (0, 0, 5)]] [((0, 1), 5)] 2 = Inr [0, 0] \<and>
   determine_potential [[(0, 0, 0), (3, 0, 0)]] [((0, 1), 2)] 1 = Inr [(188973 / 100000)\<^sup>2]"
proof -
  have a: "list_all (keys_in_range [((0, 1), 5)]) [[(0, 0, 0), (3, 4, 0)], [(0, 0, 0), (0, 0, 5)]]"
    by (simp add: keys_in_range_def)
  have b: "list_all (keys_in_range [((0, 1), 2)]) [[(0, 0, 0), (3, 0, 0)]]"
    by (simp add: keys_in_range_def)
  have s: "sqrt 25 = 5" using real_sqrt_abs[of 5] by simp
  have s3: "sqrt 9 = 3" using real_sqrt_abs[of 3] by simp
  show ?thesis
    using determine_potential_bias[OF _ a, of 2] determine_potential_bias[OF _ b, of 1]
    by (simp add: bias_formula_def euclid_def s s3)
qed

section \<open>Properties of the active bonds\<close>

lemma foldl_insert_image: "foldl (\<lambda>s b. insert (f b) s) s0 bs = s0 \<union> f ` set bs"
  by (induction bs arbitrary: s0) auto

lemma get_bonds_image: "get_bonds m = bond_descriptor m ` set (Bonds m)"
  by (simp add: get_bonds_def foldl_insert_image)

lemma bond_descriptor_canonical:
  "bond_descriptor m b =
     canonical_descriptor (AtomMapNum m (BeginAtomIdx b)) (AtomMapNum m (EndAtomIdx b))
       (py_round (BondTypeAsDouble b))"
  by (auto simp: bond_descriptor_def canonical_descriptor_def Let_def min_def max_def)

lemma canonical_descriptor_sym: "canonical_descriptor a b n = canonical_descriptor b a n"
  by (simp add: canonical_descriptor_def min.commute max.commute)

lemma py_round_one: "py_round 1 = 1"
  by (simp add: py_round_def)

lemma str_nat_digit: "n < 10 \<Longrightarrow> str_nat n = [digit_char n]"
  by (subst str_nat.simps) simp

lemma scenario_descriptor: "canonical_descriptor (Suc 0) 2 1 = ''1-2-1''"
proof -
  have s1: "str_nat (Suc 0) = ''1''" and s2: "str_nat 2 = ''2''"
    by (simp_all add: str_nat_digit digit_char_def)
  have s3: "str_int 1 = ''1''"
    using s1 by (simp add: str_int_def)
  have mn: "min (Suc 0) (2::nat) = Suc 0" "max (Suc 0) (2::nat) = 2" by simp_all
  show ?thesis unfolding canonical_descriptor_def mn s1 s2 s3 by simp
qed

lemma scenario_active_bonds: "get_active_bonds scenario_reactant scenario_product = ({}, {''1-2-1''})"
  by (simp add: get_active_bonds_def Let_def get_bonds_image scenario_reactant_def scenario_product_def
      bond_descriptor_canonical scenario_map_num_def py_round_one scenario_descriptor)

lemma digit_char_cases:
  assumes "d < 10"
  shows "d = 0 \<or> d = 1 \<or> d = 2 \<or> d = 3 \<or> d = 4 \<or> d = 5 \<or> d = 6 \<or> d = 7 \<or> d = 8 \<or> d = (9::nat)"
  using assms by presburger

lemma digit_char_value: "d < 10 \<Longrightarrow> (of_char (digit_char d) :: nat) - 48 = d"
  using digit_char_cases[of d] by (auto simp: digit_char_def)

lemma digit_char_in: "d < 10 \<Longrightarrow> digit_char d \<in> set ''0123456789''"
  using digit_char_cases[of d] by (auto simp: digit_char_def)

lemma str_nat_digits: "set (str_nat n) \<subseteq> set ''0123456789''"
proof (induction n rule: str_nat.induct)
  case (1 n)
  show ?case
  proof (cases "n < 10")
    case True
    then show ?thesis using digit_char_in[of n] by (subst str_nat.simps) simp
  next
    case False
    have "n mod 10 < 10" by simp
    then have "digit_char (n mod 10) \<in> set ''0123456789''" by (rule digit_char_in)
    then show ?thesis using False 1 by (subst str_nat.simps) simp
  qed
qed

lemma decimal_value_snoc: "decimal_value (s @ [c]) = 10 * decimal_value s + (of_char c - 48)"
  by (simp add: decimal_value_def)

lemma decimal_value_str_nat: "decimal_value (str_nat n) = n"
proof (induction n rule: str_nat.induct)
  case (1 n)
  show ?case
  proof (cases "n < 10")
    case True
    then show ?thesis
      by (subst str_nat.simps) (simp add: decimal_value_def digit_char_value)
  next
    case False
    have m: "n mod 10 < 10" by simp
    have "decimal_value (str_nat n) =
          10 * decimal_value (str_nat (n div 10)) + (of_char (digit_char (n mod 10)) - 48)"
      using False by (subst str_nat.simps) (simp add: decimal_value_snoc)
    also have "\<dots> = 10 * (n div 10) + n mod 10"
      using 1 False digit_char_value[OF m] by simp
    finally show ?thesis by simp
  qed
qed

lemma str_nat_inj: "str_nat a = str_nat b \<Longrightarrow> a = b"
  by (metis decimal_value_str_nat)

lemma str_nat_nonempty: "str_nat n \<noteq> []"
  by (subst str_nat.simps) simp

lemma str_nat_no_dash: "CHR ''-'' \<notin> set (str_nat n)"
  using str_nat_digits[of n] by auto

lemma str_int_nat: "str_int (int m) = str_nat m"
  by (simp add: str_int_def)

lemma str_int_inj:
  assumes "str_int i = str_int j"
  shows "i = j"
proof -
  have neg: "hd (str_int k) = CHR ''-'' \<longleftrightarrow> k < 0" for k
  proof (cases "k < 0")
    case True
    then show ?thesis by (simp add: str_int_def)
  next
    case False
    have "hd (str_nat (nat k)) \<in> set (str_nat (nat k))" using str_nat_nonempty by simp
    then have "hd (str_nat (nat k)) \<noteq> CHR ''-''" using str_nat_no_dash by metis
    then show ?thesis using False by (simp add: str_int_def)
  qed
  have s: "i < 0 \<longleftrightarrow> j < 0" using neg[of i] neg[of j] assms by simp
  show ?thesis
  proof (cases "i < 0")
    case True
    then have "str_nat (nat (- i)) = str_nat (nat (- j))" using assms s by (simp add: str_int_def)
    then have "nat (- i) = nat (- j)" by (rule str_nat_inj)
    then show ?thesis using True s by linarith
  next
    case False
    then have "str_nat (nat i) = str_nat (nat j)" using assms s by (simp add: str_int_def)
    then have "nat i = nat j" by (rule str_nat_inj)
    then show ?thesis using False s by linarith
  qed
qed

lemma split_at_dash:
  assumes "CHR ''-'' \<notin> set x" "CHR ''-'' \<notin> set x'" "x @ CHR ''-'' # y = x' @ CHR ''-'' # y'"
  shows "x = x' \<and> y = y'"
  using assms
proof (induction x arbitrary: x')
  case Nil
  then show ?case by (cases x') auto
next
  case (Cons a x)
  then show ?case by (cases x') auto
qed

lemma canonical_descriptor_inj:
  "canonical_descriptor a b n = canonical_descriptor a' b' n' \<longleftrightarrow> {a, b} = {a', b'} \<and> n = n'"
proof
  assume eq: "canonical_descriptor a b n = canonical_descriptor a' b' n'"
  let ?rest = "\<lambda>a b n. str_nat (max a b) @ CHR ''-'' # str_int n"
  have e1: "str_nat (min a b) @ CHR ''-'' # ?rest a b n = str_nat (min a' b') @ CHR ''-'' # ?rest a' b' n'"
    using eq by (simp add: canonical_descriptor_def)
  from split_at_dash[OF str_nat_no_dash str_nat_no_dash e1]
  have m1: "str_nat (min a b) = str_nat (min a' b')" and e2: "?rest a b n = ?rest a' b' n'" by simp_all
  from split_at_dash[OF str_nat_no_dash str_nat_no_dash e2]
  have m2: "str_nat (max a b) = str_nat (max a' b')" and e3: "str_int n = str_int n'" by simp_all
  have "min a b = min a' b'" "max a b = max a' b'" "n = n'"
    using str_nat_inj[OF m1] str_nat_inj[OF m2] str_int_inj[OF e3] by simp_all
  then show "{a, b} = {a', b'} \<and> n = n'"
    by (auto simp: min_def max_def split: if_splits)
next
  assume "{a, b} = {a', b'} \<and> n = n'"
  then have "min a b = min a' b'" "max a b = max a' b'" "n = n'"
    by (auto simp: doubleton_eq_iff min_def max_def)
  then show "canonical_descriptor a b n = canonical_descriptor a' b' n'"
    by (simp add: canonical_descriptor_def)
qed

lemma bond_descriptor_eq_iff:
  "bond_descriptor r br = bond_descriptor p bp \<longleftrightarrow> same_bond r br p bp"
  unfolding bond_descriptor_canonical canonical_descriptor_inj same_bond_def by simp

lemma broken_iff:
  assumes "br \<in> set (Bonds r)"
  shows "bond_descriptor r br \<in> snd (get_active_bonds r p) \<longleftrightarrow>
         \<not> (\<exists>bp\<in>set (Bonds p). same_bond r br p bp)"
proof -
  have "bond_descriptor r br \<in> get_bonds r" using assms by (simp add: get_bonds_image)
  moreover have "bond_descriptor r br \<in> get_bonds p \<longleftrightarrow> (\<exists>bp\<in>set (Bonds p). same_bond r br p bp)"
    by (simp add: get_bonds_image image_iff bond_descriptor_eq_iff)
  ultimately show ?thesis by (simp add: get_active_bonds_def Let_def)
qed

lemma formed_iff:
  assumes "bp \<in> set (Bonds p)"
  shows "bond_descriptor p bp \<in> fst (get_active_bonds r p) \<longleftrightarrow>
         \<not> (\<exists>br\<in>set (Bonds r). same_bond r br p bp)"
proof -
  have "bond_descriptor p bp = bond_descriptor r br \<longleftrightarrow> same_bond r br p bp" for br
    using bond_descriptor_eq_iff[of r br p bp] by auto
  then have "bond_descriptor p bp \<in> get_bonds r \<longleftrightarrow> (\<exists>br\<in>set (Bonds r). same_bond r br p bp)"
    by (simp add: get_bonds_image image_iff)
  moreover have "bond_descriptor p bp \<in> get_bonds p" using assms by (simp add: get_bonds_image)
  ultimately show ?thesis by (simp add: get_active_bonds_def Let_def)
qed

lemma py_round_nearest:
  "real_of_int (py_round x) - 1 / 2 \<le> x \<and> x \<le> real_of_int (py_round x) + 1 / 2 \<and>
   (x - real_of_int \<lfloor>x\<rfloor> = 1 / 2 \<longrightarrow> even (py_round x))"
proof -
  define f where "f = \<lfloor>x\<rfloor>"
  define d where "d = x - real_of_int f"
  have b: "0 \<le> d" "d < 1" unfolding d_def f_def by linarith+
  have r: "py_round x = (if d < 1 / 2 then f else if 1 / 2 < d then f + 1
                          else if even f then f else f + 1)"
    by (simp add: py_round_def Let_def f_def d_def)
  have x: "x = real_of_int f + d" unfolding d_def by linarith
  have fl: "x - real_of_int \<lfloor>x\<rfloor> = d" by (simp add: d_def f_def)
  consider "d < 1 / 2" | "1 / 2 < d" | "d = 1 / 2" by linarith
  then show ?thesis
  proof cases
    case 1
    then have p: "py_round x = f" using r by simp
    have "real_of_int f - 1 / 2 \<le> x" "x \<le> real_of_int f + 1 / 2" "d \<noteq> 1 / 2"
      using 1 b x by linarith+
    then show ?thesis unfolding p fl by blast
  next
    case 2
    then have p: "py_round x = f + 1" using r by simp
    have "real_of_int (f + 1) - 1 / 2 \<le> x" "x \<le> real_of_int (f + 1) + 1 / 2" "d \<noteq> 1 / 2"
      using 2 b x by simp_all
    then show ?thesis unfolding p fl by blast
  next
    case 3
    show ?thesis
    proof (cases "even f")
      case True
      then have p: "py_round x = f" using r 3 by simp
      have "real_of_int f - 1 / 2 \<le> x" "x \<le> real_of_int f + 1 / 2"
        using 3 x by linarith+
      then show ?thesis unfolding p using True by blast
    next
      case False
      then have p: "py_round x = f + 1" using r 3 by simp
      have "real_of_int (f + 1) - 1 / 2 \<le> x" "x \<le> real_of_int (f + 1) + 1 / 2"
        using 3 x by simp_all
      then show ?thesis unfolding p using False by simp
    qed
  qed
qed

lemma py_round_two: "py_round 2 = 2"
  by (simp add: py_round_def)

lemma py_round_halves: "py_round (3 / 2) = 2 \<and> py_round (5 / 2) = 2"
  by (simp add: py_round_def)


lemma str_nat_two_digits: "str_nat 12 = ''12''"
proof -
  have "str_nat 12 = str_nat (12 div 10) @ [digit_char (12 mod 10)]"
    by (subst str_nat.simps) simp
  also have "\<dots> = ''12''" by (simp add: str_nat_digit digit_char_def)
  finally show ?thesis .
qed

lemma descriptor_two_digits: "canonical_descriptor 12 3 2 = ''3-12-2''"
proof -
  have s3: "str_nat 3 = ''3''" by (simp add: str_nat_digit digit_char_def)
  have s2: "str_int 2 = ''2''" by (simp add: str_int_def str_nat_digit digit_char_def)
  have mn: "min 12 (3::nat) = 3" "max 12 (3::nat) = 12" by simp_all
  show ?thesis unfolding canonical_descriptor_def mn s3 s2 str_nat_two_digits by simp
qed

lemma carbonyl_descriptors:
  "canonical_descriptor (Suc 0) 2 2 = ''1-2-2''" "canonical_descriptor 2 (Suc 0) 1 = ''1-2-1''"
proof -
  have s1: "str_nat (Suc 0) = ''1''" and s2: "str_nat 2 = ''2''"
    by (simp_all add: str_nat_digit digit_char_def)
  have i1: "str_int 1 = ''1''" using s1 by (simp add: str_int_def)
  have i2: "str_int 2 = ''2''" using s2 by (simp add: str_int_def)
  have mn: "min (Suc 0) (2::nat) = Suc 0" "max (Suc 0) (2::nat) = 2"
    "min 2 (Suc 0) = Suc 0" "max 2 (Suc 0) = (2::nat)" by simp_all
  show "canonical_descriptor (Suc 0) 2 2 = ''1-2-2''"
    unfolding canonical_descriptor_def mn s1 s2 i2 by simp
  show "canonical_descriptor 2 (Suc 0) 1 = ''1-2-1''"
    unfolding canonical_descriptor_def mn s1 s2 i1 by simp
qed

lemma carbonyl_active_bonds:
  "get_active_bonds carbonyl_reactant carbonyl_product = ({''1-2-1''}, {''1-2-2''})"
  by (simp add: get_active_bonds_def Let_def get_bonds_image carbonyl_reactant_def
      carbonyl_product_def bond_descriptor_canonical scenario_map_num_def py_round_one
      py_round_two carbonyl_descriptors)

text \<open>
  Claim C8. \<open>get_active_bonds\<close> returns the pair (formed, broken) with formed the product
  descriptors without the reactant descriptors and broken the reactant descriptors without
  the product descriptors. The descriptors of a molecule are the canonical strings of its
  bonds: the two map numbers in ascending order and the bond order rounded to an integer.
  Formed and broken are disjoint, and when a reactant bond and a product bond join the same
  two map numbers (in either orientation) with the same rounded order, their common
  descriptor is in neither set. More precisely, the descriptor of a reactant bond is broken
  exactly when no product bond joins the same pair with the same rounded order, and the
  descriptor of a product bond is formed exactly when no reactant bond does: a bond whose
  order changes is broken with its old order and formed with its new one. Two descriptors
  are equal only for the same pair and the same order; the numbers are written in decimal
  digits, and the order is the integer nearest to the bond type, a tie going to the even
  one (1.5 and 2.5 both give 2). For \<^verbatim>\<open>[C:1][O:2]>>[C:1].[O:2]\<close> formed is empty and broken
  is \<open>{''1-2-1''}\<close>; for \<^verbatim>\<open>[C:1]=[O:2]>>[C:1][O:2]\<close> formed is \<open>{''1-2-1''}\<close> and broken is
  \<open>{''1-2-2''}\<close>.
\<close>

theorem get_active_bonds_set_difference:
  "fst (get_active_bonds r p) = get_bonds p - get_bonds r \<and>
   snd (get_active_bonds r p) = get_bonds r - get_bonds p \<and>
   fst (get_active_bonds r p) \<inter> snd (get_active_bonds r p) = {} \<and>
   get_bonds r = (\<lambda>b. canonical_descriptor (AtomMapNum r (BeginAtomIdx b)) (AtomMapNum r (EndAtomIdx b))
                    (py_round (BondTypeAsDouble b))) ` set (Bonds r) \<and>
   (\<forall>br\<in>set (Bonds r). \<forall>bp\<in>set (Bonds p).
       {AtomMapNum r (BeginAtomIdx br), AtomMapNum r (EndAtomIdx br)} =
       {AtomMapNum p (BeginAtomIdx bp), AtomMapNum p (EndAtomIdx bp)} \<and>
       py_round (BondTypeAsDouble br) = py_round (BondTypeAsDouble bp) \<longrightarrow>
       bond_descriptor r br = bond_descriptor p bp \<and>
       bond_descriptor r br \<notin> fst (get_active_bonds r p) \<and>
       bond_descriptor r br \<notin> snd (get_active_bonds r p)) \<and>
   (\<forall>br\<in>set (Bonds r).
       bond_descriptor r br \<in> snd (get_active_bonds r p) \<longleftrightarrow>
       \<not> (\<exists>bp\<in>set (Bonds p). same_bond r br p bp)) \<and>
   (\<forall>bp\<in>set (Bonds p).
       bond_descriptor p bp \<in> fst (get_active_bonds r p) \<longleftrightarrow>
       \<not> (\<exists>br\<in>set (Bonds r). same_bond r br p bp)) \<and>
   (canonical_descriptor a b n = canonical_descriptor a' b' n' \<longleftrightarrow> {a, b} = {a', b'} \<and> n = n') \<and>
   decimal_value (str_nat m) = m \<and> set (str_nat m) \<subseteq> set ''0123456789'' \<and>
   str_int (int m) = str_nat m \<and>
   real_of_int (py_round x) - 1 / 2 \<le> x \<and> x \<le> real_of_int (py_round x) + 1 / 2 \<and>
   (x - real_of_int \<lfloor>x\<rfloor> = 1 / 2 \<longrightarrow> even (py_round x)) \<and>
   py_round (3 / 2) = 2 \<and> py_round (5 / 2) = 2 \<and>
   canonical_descriptor 12 3 2 = ''3-12-2'' \<and>
   get_active_bonds scenario_reactant scenario_product = ({}, {''1-2-1''}) \<and>
   get_active_bonds carbonyl_reactant carbonyl_product = ({''1-2-1''}, {''1-2-2''})"
proof -
  have d: "fst (get_active_bonds r p) = get_bonds p - get_bonds r"
          "snd (get_active_bonds r p) = get_bonds r - get_bonds p"
    by (simp_all add: get_active_bonds_def Let_def)
  have disj: "fst (get_active_bonds r p) \<inter> snd (get_active_bonds r p) = {}"
    unfolding d by blast
  have canon: "get_bonds r = (\<lambda>b. canonical_descriptor (AtomMapNum r (BeginAtomIdx b)) (AtomMapNum r (EndAtomIdx b))
                    (py_round (BondTypeAsDouble b))) ` set (Bonds r)"
    unfolding get_bonds_image using bond_descriptor_canonical by (intro image_cong) auto
  have unchanged: "\<forall>br\<in>set (Bonds r). \<forall>bp\<in>set (Bonds p).
       {AtomMapNum r (BeginAtomIdx br), AtomMapNum r (EndAtomIdx br)} =
       {AtomMapNum p (BeginAtomIdx bp), AtomMapNum p (EndAtomIdx bp)} \<and>
       py_round (BondTypeAsDouble br) = py_round (BondTypeAsDouble bp) \<longrightarrow>
       bond_descriptor r br = bond_descriptor p bp \<and>
       bond_descriptor r br \<notin> fst (get_active_bonds r p) \<and>
       bond_descriptor r br \<notin> snd (get_active_bonds r p)"
  proof (intro ballI impI)
    fix br bp
    assume br: "br \<in> set (Bonds r)" and bp: "bp \<in> set (Bonds p)"
      and h: "{AtomMapNum r (BeginAtomIdx br), AtomMapNum r (EndAtomIdx br)} =
                 {AtomMapNum p (BeginAtomIdx bp), AtomMapNum p (EndAtomIdx bp)} \<and>
              py_round (BondTypeAsDouble br) = py_round (BondTypeAsDouble bp)"
    then have sb: "same_bond r br p bp" by (simp add: same_bond_def)
    then have eq: "bond_descriptor r br = bond_descriptor p bp"
      by (simp add: bond_descriptor_eq_iff)
    have "bond_descriptor r br \<in> get_bonds r" using br by (simp add: get_bonds_image)
    moreover have "bond_descriptor r br \<in> get_bonds p" using bp eq by (simp add: get_bonds_image)
    ultimately show "bond_descriptor r br = bond_descriptor p bp \<and>
       bond_descriptor r br \<notin> fst (get_active_bonds r p) \<and>
       bond_descriptor r br \<notin> snd (get_active_bonds r p)"
      using eq unfolding d by blast
  qed
  have broken: "\<forall>br\<in>set (Bonds r).
       bond_descriptor r br \<in> snd (get_active_bonds r p) \<longleftrightarrow>
       \<not> (\<exists>bp\<in>set (Bonds p). same_bond r br p bp)"
    using broken_iff by blast
  have formed: "\<forall>bp\<in>set (Bonds p).
       bond_descriptor p bp \<in> fst (get_active_bonds r p) \<longleftrightarrow>
       \<not> (\<exists>br\<in>set (Bonds r). same_bond r br p bp)"
    using formed_iff by blast
  note inj = canonical_descriptor_inj[of a b n a' b' n']
  note rd = decimal_value_str_nat[of m] str_nat_digits[of m] str_int_nat[of m]
  note pr = py_round_nearest[of x] py_round_halves
  show ?thesis
    using d disj canon unchanged broken formed inj rd pr descriptor_two_digits
      scenario_active_bonds carbonyl_active_bonds
    by (intro conjI) blast+
qed

theorem get_active_bonds_set_difference_witness:
  "bond_descriptor carbonyl_reactant \<lparr>BeginAtomIdx = 0, EndAtomIdx = 1, BondTypeAsDouble = 2\<rparr>
     \<in> snd (get_active_bonds carbonyl_reactant carbonyl_product) \<and>
   bond_descriptor carbonyl_product \<lparr>BeginAtomIdx = 1, EndAtomIdx = 0, BondTypeAsDouble = 1\<rparr>
     \<in> fst (get_active_bonds carbonyl_reactant carbonyl_product) \<and>
   bond_descriptor scenario_reactant \<lparr>BeginAtomIdx = 0, EndAtomIdx = 1, BondTypeAsDouble = 1\<rparr>
     \<notin> fst (get_active_bonds scenario_reactant scenario_reactant)"
proof -
  let ?br = "\<lparr>BeginAtomIdx = 0, EndAtomIdx = 1, BondTypeAsDouble = 2\<rparr>"
  let ?bp = "\<lparr>BeginAtomIdx = 1, EndAtomIdx = 0, BondTypeAsDouble = 1\<rparr>"
  let ?b = "\<lparr>BeginAtomIdx = 0, EndAtomIdx = 1, BondTypeAsDouble = 1\<rparr>"
  have r: "set (Bonds carbonyl_reactant) = {?br}" by (simp add: carbonyl_reactant_def)
  have p: "set (Bonds carbonyl_product) = {?bp}" by (simp add: carbonyl_product_def)
  have ns: "\<not> same_bond carbonyl_reactant ?br carbonyl_product ?bp"
    by (simp add: same_bond_def py_round_one py_round_two)
  note t = get_active_bonds_set_difference[where r = carbonyl_reactant and p = carbonyl_product
      and a = 0 and b = 0 and n = 0 and a' = 0 and b' = 0 and n' = 0 and m = 0 and x = 0]
  note t5 = t[THEN conjunct2, THEN conjunct2, THEN conjunct2, THEN conjunct2, THEN conjunct2]
  have a: "bond_descriptor carbonyl_reactant ?br \<in> snd (get_active_bonds carbonyl_reactant carbonyl_product)"
    using t5[THEN conjunct1] ns unfolding r p by simp
  have b: "bond_descriptor carbonyl_product ?bp \<in> fst (get_active_bonds carbonyl_reactant carbonyl_product)"
    using t5[THEN conjunct2, THEN conjunct1] ns unfolding r p by simp
  have m: "?b \<in> set (Bonds scenario_reactant)" by (simp add: scenario_reactant_def)
  note u = get_active_bonds_set_difference[where r = scenario_reactant and p = scenario_reactant
      and a = 0 and b = 0 and n = 0 and a' = 0 and b' = 0 and n' = 0 and m = 0 and x = 0]
  note u4 = u[THEN conjunct2, THEN conjunct2, THEN conjunct2, THEN conjunct2, THEN conjunct1]
  have c: "bond_descriptor scenario_reactant ?b \<notin> fst (get_active_bonds scenario_reactant scenario_reactant)"
    using u4 m by blast
  show ?thesis using a b c by blast
qed

section \<open>Properties of the clustering\<close>

lemma find_cluster_split:
  "find_cluster M i cs = Some cs' \<Longrightarrow>
     \<exists>pre c post. cs = pre @ c # post \<and> cs' = pre @ (c @ [i]) # post \<and>
        fits_cluster M i c \<and> list_all (\<lambda>c'. \<not> fits_cluster M i c') pre"
proof (induction cs arbitrary: cs')
  case Nil then show ?case by simp
next
  case (Cons a cs)
  show ?case
  proof (cases "fits_cluster M i a")
    case True
    with Cons.prems have "cs' = (a @ [i]) # cs" by (simp add: fits_cluster_def)
    with True have "a # cs = [] @ a # cs \<and> cs' = [] @ (a @ [i]) # cs \<and>
        fits_cluster M i a \<and> list_all (\<lambda>c'. \<not> fits_cluster M i c') []" by simp
    then show ?thesis by blast
  next
    case False
    with Cons.prems obtain r where r: "find_cluster M i cs = Some r" "cs' = a # r"
      by (auto simp: fits_cluster_def split: option.splits)
    from Cons.IH[OF r(1)] obtain pre c post where
      p: "cs = pre @ c # post" "r = pre @ (c @ [i]) # post" "fits_cluster M i c"
         "list_all (\<lambda>c'. \<not> fits_cluster M i c') pre" by blast
    have "a # cs = (a # pre) @ c # post \<and> cs' = (a # pre) @ (c @ [i]) # post \<and>
        fits_cluster M i c \<and> list_all (\<lambda>c'. \<not> fits_cluster M i c') (a # pre)"
      using p r(2) False by simp
    then show ?thesis by blast
  qed
qed

lemma find_cluster_None:
  "find_cluster M i cs = None \<longleftrightarrow> list_all (\<lambda>c'. \<not> fits_cluster M i c') cs"
  by (induction cs) (auto simp: fits_cluster_def split: option.splits)

lemma find_cluster_first:
  assumes "c < length cs" "fits_cluster M i (cs ! c)" "\<forall>c'<c. \<not> fits_cluster M i (cs ! c')"
  shows "find_cluster M i cs = Some (cs[c := cs ! c @ [i]])"
  using assms
proof (induction cs arbitrary: c)
  case Nil then show ?case by simp
next
  case (Cons a cs)
  show ?case
  proof (cases c)
    case 0
    with Cons.prems show ?thesis by (simp add: fits_cluster_def)
  next
    case (Suc d)
    with Cons.prems have na: "\<not> fits_cluster M i a" by auto
    from Suc Cons.prems have d: "d < length cs" "fits_cluster M i (cs ! d)" by auto
    have "\<forall>c'<d. \<not> fits_cluster M i (cs ! c')"
    proof (intro allI impI)
      fix c' assume "c' < d"
      then have "Suc c' < c" using Suc by simp
      with Cons.prems(3) have "\<not> fits_cluster M i ((a # cs) ! Suc c')" by blast
      then show "\<not> fits_cluster M i (cs ! c')" by simp
    qed
    from Cons.IH[OF d this] na Suc show ?thesis by (simp add: fits_cluster_def)
  qed
qed

lemma cluster_step_join:
  assumes "c < length cs" "fits_cluster M i (cs ! c)" "\<forall>c'<c. \<not> fits_cluster M i (cs ! c')"
  shows "cluster_step M cs i = cs[c := cs ! c @ [i]]"
  using find_cluster_first[OF assms] by (simp add: cluster_step_def)

lemma cluster_step_new:
  assumes "\<forall>c<length cs. \<not> fits_cluster M i (cs ! c)"
  shows "cluster_step M cs i = cs @ [[i]]"
proof -
  have "list_all (\<lambda>c'. \<not> fits_cluster M i c') cs"
    using assms by (auto simp: list_all_length)
  then show ?thesis using find_cluster_None[of M i cs] by (simp add: cluster_step_def)
qed

lemma count_unique_conformers_snoc:
  "foldl (cluster_step M) [] [0..<Suc k] = cluster_step M (foldl (cluster_step M) [] [0..<k]) k"
  by simp

lemma scenario_clusters: "count_unique_conformers scenario_rms [0, 1, 2] = [[0, 1], [2]]"
proof -
  have u: "[0..<length [0, 1, 2::nat]] = [0, 1, 2]" by (simp add: upt_rec)
  show ?thesis
    unfolding count_unique_conformers_def u
    by (simp add: cluster_step_def rmsd_matrix_def scenario_rms_def)
qed

lemma clusters_after_Suc:
  "clusters_after G ms (Suc k) = cluster_step (rmsd_matrix G ms) (clusters_after G ms k) k"
  by (simp add: clusters_after_def)

lemma count_unique_conformers_after:
  "count_unique_conformers G ms = clusters_after G ms (length ms)"
  by (simp add: count_unique_conformers_def clusters_after_def)

lemma partition_upto_step:
  assumes "partition_upto k cs"
  shows "partition_upto (Suc k) (cluster_step M cs k)"
proof (cases "find_cluster M k cs")
  case None
  then have st: "cluster_step M cs k = cs @ [[k]]" by (simp add: cluster_step_def)
  from assms have d: "distinct (concat cs)" and s: "set (concat cs) = {0..<k}"
    and a: "list_all (\<lambda>c. c \<noteq> [] \<and> sorted_wrt (<) c) cs"
    by (simp_all add: partition_upto_def)
  have "k \<notin> set (concat cs)" using s by simp
  then have "distinct (concat (cs @ [[k]]))" using d by simp
  moreover have "set (concat (cs @ [[k]])) = {0..<Suc k}" using s by auto
  moreover have "list_all (\<lambda>c. c \<noteq> [] \<and> sorted_wrt (<) c) (cs @ [[k]])" using a by simp
  ultimately show ?thesis unfolding st partition_upto_def by blast
next
  case (Some cs')
  then have st: "cluster_step M cs k = cs'" by (simp add: cluster_step_def)
  from find_cluster_split[OF Some] obtain pre c post where
    sp: "cs = pre @ c # post" "cs' = pre @ (c @ [k]) # post" by blast
  from assms have d: "distinct (concat cs)" and s: "set (concat cs) = {0..<k}"
    and a: "list_all (\<lambda>c. c \<noteq> [] \<and> sorted_wrt (<) c) cs"
    by (simp_all add: partition_upto_def)
  have kn: "k \<notin> set (concat cs)" using s by simp
  have csub: "set c \<subseteq> {0..<k}" using s sp(1) by auto
  have "distinct (concat cs')" using d kn unfolding sp by auto
  moreover have "set (concat cs') = {0..<Suc k}" using s unfolding sp by auto
  moreover have "sorted_wrt (<) (c @ [k])"
    using a csub unfolding sp(1) by (auto simp: sorted_wrt_append)
  then have "list_all (\<lambda>c. c \<noteq> [] \<and> sorted_wrt (<) c) cs'" using a unfolding sp by simp
  ultimately show ?thesis unfolding st partition_upto_def by blast
qed

lemma partition_upto_clusters_after: "partition_upto k (clusters_after G ms k)"
proof (induction k)
  case 0
  show ?case by (simp add: clusters_after_def partition_upto_def)
next
  case (Suc k)
  show ?case unfolding clusters_after_Suc by (rule partition_upto_step[OF Suc])
qed

lemma sorted_wrt_hd_least:
  assumes "sorted_wrt (<) c" "c \<noteq> []" "x \<in> set c"
  shows "hd c \<le> (x::nat)"
  using assms by (cases c) auto

lemma cluster_representatives_map:
  assumes "list_all (\<lambda>c. c \<noteq> [] \<and> hd c < length files) cs"
  shows "cluster_representatives files cs = Inr (map (\<lambda>c. files ! hd c) cs)"
  using assms
proof (induction cs)
  case Nil then show ?case by simp
next
  case (Cons c cs)
  then obtain x xs where c: "c = x # xs" by (cases c) auto
  with Cons show ?case by simp
qed

lemma partition_upto_heads:
  assumes "partition_upto k cs"
  shows "list_all (\<lambda>c. c \<noteq> [] \<and> hd c < k) cs"
proof -
  have "c \<noteq> [] \<and> hd c < k" if c: "c \<in> set cs" for c
  proof -
    from assms c have ne: "c \<noteq> []" by (auto simp: partition_upto_def list_all_iff)
    then have "hd c \<in> set c" by simp
    then have "hd c \<in> set (concat cs)" using c by auto
    moreover have "set (concat cs) = {0..<k}" using assms by (simp add: partition_upto_def)
    ultimately have "hd c \<in> {0..<k}" by blast
    then show ?thesis using ne by simp
  qed
  then show ?thesis by (simp add: list_all_iff)
qed

lemma distinct_heads:
  assumes "distinct (concat cs)" "\<forall>c\<in>set cs. c \<noteq> []"
  shows "distinct (map hd cs)"
  using assms
proof (induction cs)
  case Nil then show ?case by simp
next
  case (Cons c cs)
  from Cons.prems have dc: "distinct (concat cs)" and ne: "\<forall>c\<in>set cs. c \<noteq> []"
    and disj: "set c \<inter> set (concat cs) = {}" and cne: "c \<noteq> []"
    by simp_all
  have "hd c \<notin> hd ` set cs"
  proof
    assume "hd c \<in> hd ` set cs"
    then obtain c' where c': "c' \<in> set cs" "hd c = hd c'" by blast
    then have "hd c' \<in> set c'" using ne by simp
    then have "hd c \<in> set (concat cs)" using c' by auto
    moreover have "hd c \<in> set c" using cne by simp
    ultimately show False using disj by blast
  qed
  then show ?case using Cons.IH[OF dc ne] by simp
qed

lemma conformers_to_do_map:
  "conformers_to_do G files =
     Inr (map (\<lambda>c. files ! hd c) (count_unique_conformers G files))"
  unfolding conformers_to_do_def count_unique_conformers_after
  by (rule cluster_representatives_map)
     (rule partition_upto_heads[OF partition_upto_clusters_after])

lemma rmsd_matrix_diag: "rmsd_matrix G ms i i = 0"
  by (simp add: rmsd_matrix_def)

text \<open>
  Claim C9. \<open>count_unique_conformers\<close> processes the indices \<open>0, 1, \<dots>\<close> in ascending order,
  starting from no clusters. Index \<open>i\<close> is appended to the first existing cluster all of
  whose members \<open>j\<close> have \<open>RMSD(i, j) < 0.5\<close>; when no cluster passes, the new cluster
  \<open>[i]\<close> is appended. The representative of a cluster is the conformer of its first member,
  the RMSD of a conformer to itself is 0, and for RMSD(0,1) = 0.3, RMSD(0,2) = 0.3,
  RMSD(1,2) = 0.7 the clusters are \<open>[[0, 1], [2]]\<close>.
\<close>

theorem count_unique_conformers_first_fit:
  "count_unique_conformers G ms = clusters_after G ms (length ms) \<and>
   clusters_after G ms 0 = [] \<and>
   (\<forall>c. c < length (clusters_after G ms i) \<and>
        fits_cluster (rmsd_matrix G ms) i (clusters_after G ms i ! c) \<and>
        (\<forall>c'<c. \<not> fits_cluster (rmsd_matrix G ms) i (clusters_after G ms i ! c')) \<longrightarrow>
        clusters_after G ms (Suc i) =
          (clusters_after G ms i)[c := clusters_after G ms i ! c @ [i]]) \<and>
   ((\<forall>c<length (clusters_after G ms i).
        \<not> fits_cluster (rmsd_matrix G ms) i (clusters_after G ms i ! c)) \<longrightarrow>
      clusters_after G ms (Suc i) = clusters_after G ms i @ [[i]]) \<and>
   fits_cluster (rmsd_matrix G ms) i cluster =
      (\<forall>j\<in>set cluster. rmsd_matrix G ms i j < 5 / 10) \<and>
   conformers_to_do G ms = Inr (map (\<lambda>c. ms ! hd c) (count_unique_conformers G ms)) \<and>
   rmsd_matrix G ms i i = 0 \<and>
   count_unique_conformers scenario_rms [0, 1, 2] = [[0, 1], [2]]"
proof -
  have join: "\<forall>c. c < length (clusters_after G ms i) \<and>
        fits_cluster (rmsd_matrix G ms) i (clusters_after G ms i ! c) \<and>
        (\<forall>c'<c. \<not> fits_cluster (rmsd_matrix G ms) i (clusters_after G ms i ! c')) \<longrightarrow>
        clusters_after G ms (Suc i) =
          (clusters_after G ms i)[c := clusters_after G ms i ! c @ [i]]"
    unfolding clusters_after_Suc using cluster_step_join by blast
  have new: "(\<forall>c<length (clusters_after G ms i).
        \<not> fits_cluster (rmsd_matrix G ms) i (clusters_after G ms i ! c)) \<longrightarrow>
      clusters_after G ms (Suc i) = clusters_after G ms i @ [[i]]"
    unfolding clusters_after_Suc using cluster_step_new by blast
  have fit: "fits_cluster (rmsd_matrix G ms) i cluster =
      (\<forall>j\<in>set cluster. rmsd_matrix G ms i j < 5 / 10)"
    by (simp add: fits_cluster_def list_all_iff)
  have z: "clusters_after G ms 0 = []" by (simp add: clusters_after_def)
  show ?thesis
    using count_unique_conformers_after[of G ms] z join new fit conformers_to_do_map[of G ms]
      rmsd_matrix_diag[of G ms i] scenario_clusters
    by blast
qed

theorem count_unique_conformers_first_fit_witness:
  "clusters_after scenario_rms [0, 1, 2] (Suc (Suc 0)) = [[0, 1]] \<and>
   clusters_after scenario_rms [0, 1, 2] (Suc (Suc (Suc 0))) = [[0, 1], [2]]"
proof -
  let ?M = "rmsd_matrix scenario_rms [0, 1, 2]"
  have c1: "clusters_after scenario_rms [0, 1, 2] (Suc 0) = [[0]]"
    by (simp add: clusters_after_def cluster_step_def)
  have f1: "fits_cluster ?M (Suc 0) [0]"
    by (simp add: fits_cluster_def rmsd_matrix_def scenario_rms_def)
  have c2: "clusters_after scenario_rms [0, 1, 2] (Suc (Suc 0)) = [[0, 1]]"
    using count_unique_conformers_first_fit[of scenario_rms "[0, 1, 2]" "Suc 0"] c1 f1
    by simp
  have f2: "\<not> fits_cluster ?M (Suc (Suc 0)) [0, 1]"
    by (simp add: fits_cluster_def rmsd_matrix_def scenario_rms_def)
  have c3: "clusters_after scenario_rms [0, 1, 2] (Suc (Suc (Suc 0))) = [[0, 1], [2]]"
    using count_unique_conformers_first_fit[of scenario_rms "[0, 1, 2]" "Suc (Suc 0)"] c2 f2
    by simp
  show ?thesis using c2 c3 by blast
qed

text \<open>
  Claim C10. The clusters returned for \<open>n\<close> conformers are a partition of the indices
  \<open>0, \<dots>, n - 1\<close>: no index occurs twice, every index occurs, every cluster is non-empty and
  its first element is its smallest. The list of representatives is computed without error,
  has one entry per cluster, the conformer at the first index of the cluster, and no two
  clusters share their first index.
\<close>

theorem count_unique_conformers_partition:
  "distinct (concat (count_unique_conformers G ms)) \<and>
   set (concat (count_unique_conformers G ms)) = {0..<length ms} \<and>
   (\<forall>c\<in>set (count_unique_conformers G ms).
       c \<noteq> [] \<and> hd c \<in> set c \<and> (\<forall>x\<in>set c. hd c \<le> x)) \<and>
   (\<exists>reps. conformers_to_do G ms = Inr reps \<and>
       length reps = length (count_unique_conformers G ms) \<and>
       reps = map (\<lambda>c. ms ! hd c) (count_unique_conformers G ms)) \<and>
   distinct (map hd (count_unique_conformers G ms))"
proof -
  let ?cs = "count_unique_conformers G ms"
  have p: "partition_upto (length ms) ?cs"
    unfolding count_unique_conformers_after by (rule partition_upto_clusters_after)
  then have d: "distinct (concat ?cs)" and s: "set (concat ?cs) = {0..<length ms}"
    and a: "list_all (\<lambda>c. c \<noteq> [] \<and> sorted_wrt (<) c) ?cs"
    by (simp_all add: partition_upto_def)
  have cl: "\<forall>c\<in>set ?cs. c \<noteq> [] \<and> hd c \<in> set c \<and> (\<forall>x\<in>set c. hd c \<le> x)"
    using a sorted_wrt_hd_least by (auto simp: list_all_iff)
  have ne: "\<forall>c\<in>set ?cs. c \<noteq> []" using cl by blast
  have dh: "distinct (map hd ?cs)" by (rule distinct_heads[OF d ne])
  show ?thesis using d s cl conformers_to_do_map[of G ms] dh by simp
qed

theorem count_unique_conformers_partition_witness:
  "distinct (concat (count_unique_conformers scenario_rms [0, 1, 2])) \<and>
   set (concat (count_unique_conformers scenario_rms [0, 1, 2])) = {0..<length [0, 1, 2::nat]} \<and>
   conformers_to_do scenario_rms [0, 1, 2] = Inr [0, 2]"
proof -
  note p = count_unique_conformers_partition[of scenario_rms "[0, 1, 2]"]
  from p obtain reps where
    r: "conformers_to_do scenario_rms [0, 1, 2] = Inr reps"
       "reps = map (\<lambda>c. [0, 1, 2] ! hd c) (count_unique_conformers scenario_rms [0, 1, 2])"
    by (elim exE conjE) (rule that, assumption+)
  have "reps = [0, 2]" unfolding r(2) scenario_clusters by simp
  then show ?thesis using p r(1) by blast
qed

section \<open>Properties of the validation of the preliminary guess\<close>

lemma write_and_check_usable:
  assumes "step_usable E atoms coords i"
  shows "write_and_check E atoms coords fc i st =
     (st\<lparr>xyz_files := (xyz_files st)(ts_guess_xyz fc \<mapsto> step_geometry atoms coords i),
         engine_calls := engine_calls st @ [FrequencyCalculation (step_geometry atoms coords i)]\<rparr>,
      Inr (ts_guess_xyz fc, read_negative_frequencies (xtb_hess E (step_geometry atoms coords i))))"
  using assms
  by (simp add: step_usable_def write_and_check_def py_nth_def step_geometry_def
      write_xyz_file_from_atoms_and_coords_def get_negative_frequencies_def)

lemma py_len_usable:
  assumes "step_usable E atoms coords i"
  shows "py_len (read_negative_frequencies (xtb_hess E (step_geometry atoms coords i))) = Inr n
         \<longleftrightarrow> (\<exists>fs. read_negative_frequencies (xtb_hess E (step_geometry atoms coords i)) = Some fs \<and> length fs = n)"
  by (auto simp: py_len_def split: option.splits)

lemma single_imaginary_len:
  assumes "step_usable E atoms coords i"
  shows "\<exists>n. py_len (read_negative_frequencies (xtb_hess E (step_geometry atoms coords i))) = Inr n \<and>
             (n = 1 \<longleftrightarrow> single_imaginary E (step_geometry atoms coords i))"
  using assms
  by (auto simp: py_len_def single_imaginary_def step_usable_def read_negative_frequencies_def
      split: option.splits list.splits)

lemma validation_loop_none:
  assumes "list_all (\<lambda>i. step_usable E atoms coords i \<and> \<not> single_imaginary E (step_geometry atoms coords i)) idxs"
  shows "\<exists>st' init'. validation_loop E p atoms coords fc idxs init st = (st', Inr (Completed init')) \<and>
           (init \<noteq> None \<or> p \<in> set idxs \<longrightarrow> init' \<noteq> None) \<and>
           engine_calls st' = engine_calls st @ twice_each atoms coords idxs"
  using assms
proof (induction idxs arbitrary: init st)
  case Nil
  then show ?case by (simp add: twice_each_def)
next
  case (Cons i idxs)
  from Cons.prems have u: "step_usable E atoms coords i"
    and ns: "\<not> single_imaginary E (step_geometry atoms coords i)"
    and rest: "list_all (\<lambda>i. step_usable E atoms coords i \<and> \<not> single_imaginary E (step_geometry atoms coords i)) idxs"
    by simp_all
  from single_imaginary_len[OF u] ns obtain n where
    n: "py_len (read_negative_frequencies (xtb_hess E (step_geometry atoms coords i))) = Inr n" "n \<noteq> 1"
    by blast
  let ?g = "step_geometry atoms coords i"
  let ?st2 = "st\<lparr>xyz_files := (xyz_files st)(ts_guess_xyz fc \<mapsto> ?g),
                 engine_calls := engine_calls st @ [FrequencyCalculation ?g, FrequencyCalculation ?g]\<rparr>"
  let ?init = "if i = p then Some (read_negative_frequencies (xtb_hess E ?g)) else init"
  have step: "validation_loop E p atoms coords fc (i # idxs) init st =
              validation_loop E p atoms coords fc idxs ?init ?st2"
    using n by (simp add: write_and_check_usable[OF u])
  from Cons.IH[OF rest, of ?init ?st2] obtain st' init' where
    r: "validation_loop E p atoms coords fc idxs ?init ?st2 = (st', Inr (Completed init'))"
       "?init \<noteq> None \<or> p \<in> set idxs \<longrightarrow> init' \<noteq> None"
       "engine_calls st' = engine_calls ?st2 @ twice_each atoms coords idxs"
    by blast
  have "init \<noteq> None \<or> p \<in> set (i # idxs) \<longrightarrow> init' \<noteq> None" using r(2) by auto
  moreover have "engine_calls st' = engine_calls st @ twice_each atoms coords (i # idxs)"
    using r(3) by (simp add: twice_each_def)
  ultimately show ?case using step r(1) by simp
qed

lemma validation_loop_some:
  assumes "list_all (\<lambda>i. step_usable E atoms coords i \<and> \<not> single_imaginary E (step_geometry atoms coords i)) pre"
    and "step_usable E atoms coords i" and "single_imaginary E (step_geometry atoms coords i)"
  shows "\<exists>st'. validation_loop E p atoms coords fc (pre @ i # post) init st =
                 (st', Inr (Returned (ts_guess_xyz fc))) \<and>
           xyz_files st' (ts_guess_xyz fc) = Some (step_geometry atoms coords i) \<and>
           engine_calls st' = engine_calls st @ twice_each atoms coords pre @
                                [FrequencyCalculation (step_geometry atoms coords i)]"
  using assms(1)
proof (induction pre arbitrary: init st)
  case Nil
  from single_imaginary_len[OF assms(2)] assms(3) have
    n: "py_len (read_negative_frequencies (xtb_hess E (step_geometry atoms coords i))) = Inr 1"
    by auto
  show ?case using n by (simp add: write_and_check_usable[OF assms(2)] twice_each_def)
next
  case (Cons j pre)
  from Cons.prems have u: "step_usable E atoms coords j"
    and ns: "\<not> single_imaginary E (step_geometry atoms coords j)"
    and rest: "list_all (\<lambda>i. step_usable E atoms coords i \<and> \<not> single_imaginary E (step_geometry atoms coords i)) pre"
    by simp_all
  from single_imaginary_len[OF u] ns obtain n where
    n: "py_len (read_negative_frequencies (xtb_hess E (step_geometry atoms coords j))) = Inr n" "n \<noteq> 1"
    by blast
  let ?g = "step_geometry atoms coords j"
  let ?st2 = "st\<lparr>xyz_files := (xyz_files st)(ts_guess_xyz fc \<mapsto> ?g),
                 engine_calls := engine_calls st @ [FrequencyCalculation ?g, FrequencyCalculation ?g]\<rparr>"
  let ?init = "if j = p then Some (read_negative_frequencies (xtb_hess E ?g)) else init"
  have step: "validation_loop E p atoms coords fc ((j # pre) @ i # post) init st =
              validation_loop E p atoms coords fc (pre @ i # post) ?init ?st2"
    using n by (simp add: write_and_check_usable[OF u])
  from Cons.IH[OF rest, of ?init ?st2] obtain st' where
    r: "validation_loop E p atoms coords fc (pre @ i # post) ?init ?st2 = (st', Inr (Returned (ts_guess_xyz fc)))"
       "xyz_files st' (ts_guess_xyz fc) = Some (step_geometry atoms coords i)"
       "engine_calls st' = engine_calls ?st2 @ twice_each atoms coords pre @
                                [FrequencyCalculation (step_geometry atoms coords i)]"
    by blast
  have "engine_calls st' = engine_calls st @ twice_each atoms coords (j # pre) @
                                [FrequencyCalculation (step_geometry atoms coords i)]"
    using r(3) by (simp add: twice_each_def)
  then show ?case using step r(1,2) by simp
qed

lemma set_twice_each:
  "set (twice_each atoms coords idxs) =
     (\<lambda>j. FrequencyCalculation (step_geometry atoms coords j)) ` set idxs"
  by (induction idxs) (auto simp: twice_each_def)

lemma get_final_returns_first:
  assumes w: "window_usable E atoms coords p"
    and i: "p \<le> i" "i < min (p + 6) (length atoms)"
    and si: "single_imaginary E (step_geometry atoms coords i)"
    and before: "\<forall>j. p \<le> j \<and> j < i \<longrightarrow> \<not> single_imaginary E (step_geometry atoms coords j)"
  shows "\<exists>st'. get_final_ts_guess_geometry E p atoms coords fc st = (st', Inr (ts_guess_xyz fc)) \<and>
           xyz_files st' (ts_guess_xyz fc) = Some (step_geometry atoms coords i) \<and>
           set (engine_calls st') = set (engine_calls st) \<union>
             (\<lambda>j. FrequencyCalculation (step_geometry atoms coords j)) ` {p..i}"
proof -
  let ?stop = "min (p + 6) (length atoms)"
  have split: "[p..<?stop] = [p..<i] @ i # [Suc i..<?stop]"
    using i by (metis le_Suc_ex less_imp_le_nat upt_add_eq_append upt_conv_Cons)
  have all: "list_all (step_usable E atoms coords) [p..<?stop]"
    using w by (simp add: window_usable_def)
  then have ui: "step_usable E atoms coords i"
    using i by (simp add: list_all_iff)
  have pre: "list_all (\<lambda>i. step_usable E atoms coords i \<and>
               \<not> single_imaginary E (step_geometry atoms coords i)) [p..<i]"
    using all i before by (simp add: list_all_iff)
  from validation_loop_some[OF pre ui si, of p fc "[Suc i..<?stop]" None st]
  obtain st' where
    r: "validation_loop E p atoms coords fc [p..<?stop] None st = (st', Inr (Returned (ts_guess_xyz fc)))"
       "xyz_files st' (ts_guess_xyz fc) = Some (step_geometry atoms coords i)"
       "engine_calls st' = engine_calls st @ twice_each atoms coords [p..<i] @
                                [FrequencyCalculation (step_geometry atoms coords i)]"
    unfolding split by blast
  have "{p..i} = insert i {p..<i}" using i(1) by auto
  then have "set (engine_calls st') = set (engine_calls st) \<union>
             (\<lambda>j. FrequencyCalculation (step_geometry atoms coords j)) ` {p..i}"
    using r(3) by (simp add: set_twice_each Un_commute insert_commute)
  moreover have "get_final_ts_guess_geometry E p atoms coords fc st = (st', Inr (ts_guess_xyz fc))"
    using r(1) by (simp add: get_final_ts_guess_geometry_def)
  ultimately show ?thesis using r(2) by blast
qed

lemma get_final_falls_back:
  assumes w: "window_usable E atoms coords p"
    and none: "\<forall>i. p \<le> i \<and> i < min (p + 6) (length atoms) \<longrightarrow>
                 \<not> single_imaginary E (step_geometry atoms coords i)"
  shows "\<exists>st'. get_final_ts_guess_geometry E p atoms coords fc st = (st', Inr (ts_guess_xyz fc)) \<and>
           xyz_files st' (ts_guess_xyz fc) = Some (step_geometry atoms coords p) \<and>
           set (engine_calls st') = set (engine_calls st) \<union>
             (\<lambda>j. FrequencyCalculation (step_geometry atoms coords j)) `
               {p..<min (p + 6) (length atoms)}"
proof -
  let ?stop = "min (p + 6) (length atoms)"
  have pl: "p < length atoms" using w by (simp add: window_usable_def)
  then have pin: "p \<in> set [p..<?stop]" by simp
  have all: "list_all (step_usable E atoms coords) [p..<?stop]"
    using w by (simp add: window_usable_def)
  then have up: "step_usable E atoms coords p" using pin by (simp add: list_all_iff)
  have pre: "list_all (\<lambda>i. step_usable E atoms coords i \<and>
               \<not> single_imaginary E (step_geometry atoms coords i)) [p..<?stop]"
    using all none by (simp add: list_all_iff)
  from validation_loop_none[OF pre, of p fc None st] pin obtain st1 init' where
    r: "validation_loop E p atoms coords fc [p..<?stop] None st = (st1, Inr (Completed init'))"
       "init' \<noteq> None"
       "engine_calls st1 = engine_calls st @ twice_each atoms coords [p..<?stop]"
    by blast
  from r(2) obtain v where v: "init' = Some v" by (cases init') auto
  let ?st' = "st1\<lparr>xyz_files := (xyz_files st1)(ts_guess_xyz fc \<mapsto> step_geometry atoms coords p)\<rparr>"
  have "get_final_ts_guess_geometry E p atoms coords fc st = (?st', Inr (ts_guess_xyz fc))"
    using r(1) v up
    by (simp add: get_final_ts_guess_geometry_def step_usable_def py_nth_def
        write_xyz_file_from_atoms_and_coords_def step_geometry_def)
  moreover have "xyz_files ?st' (ts_guess_xyz fc) = Some (step_geometry atoms coords p)" by simp
  moreover have "set (engine_calls ?st') = set (engine_calls st) \<union>
             (\<lambda>j. FrequencyCalculation (step_geometry atoms coords j)) ` {p..<?stop}"
    using r(3) by (simp add: set_twice_each)
  ultimately show ?thesis by blast
qed

lemma line_atoms_7: "line_atoms 7 = [[''H''], [''H''], [''H''], [''H''], [''H''], [''H''], [''H'']]"
  by (simp add: line_atoms_def upt_rec)

lemma line_coords_7:
  "line_coords 7 = [[(0, 0, 0)], [(1, 0, 0)], [(2, 0, 0)], [(3, 0, 0)], [(4, 0, 0)], [(5, 0, 0)], [(6, 0, 0)]]"
  by (simp add: line_coords_def upt_rec)

lemma hess_step6_simps:
  "xtb_hess step6_engines (a, [(6, 0, 0)]) = [[- 300, 20, 40]]"
  "x \<noteq> 6 \<Longrightarrow> xtb_hess step6_engines (a, [(x, 0, 0)]) = [[- 300, - 20, 40]]"
  by (simp_all add: step6_engines_def hess_step6_def)

lemma sixth_step_eval:
  "get_final_ts_guess_geometry step6_engines 0 (line_atoms 7) (line_coords 7) (1 / 4) empty_world =
     (empty_world\<lparr>xyz_files := (xyz_files empty_world)(ts_guess_xyz (1 / 4) \<mapsto> ([''H''], [(0, 0, 0)])),
        engine_calls := twice_each (line_atoms 7) (line_coords 7) [0, 1, 2, 3, 4, 5]\<rparr>,
      Inr (ts_guess_xyz (1 / 4)))"
  unfolding line_atoms_7 line_coords_7
  apply (simp add: get_final_ts_guess_geometry_def upt_rec)
  apply (simp add: write_and_check_def py_nth_def write_xyz_file_from_atoms_and_coords_def
      get_negative_frequencies_def read_negative_frequencies_def py_len_def hess_step6_simps
      empty_world_def blank_world_def twice_each_def step_geometry_def)
  done

lemma line_step_geometry:
  "j < 7 \<Longrightarrow> step_geometry (line_atoms 7) (line_coords 7) j = ([''H''], [(real j, 0, 0)])"
  by (simp add: step_geometry_def line_atoms_def line_coords_def)

lemma line_single:
  "j < 7 \<Longrightarrow> single_imaginary step6_engines (step_geometry (line_atoms 7) (line_coords 7) j) \<longleftrightarrow> j = 6"
  by (simp add: line_step_geometry single_imaginary_def step6_engines_def hess_step6_def
      read_negative_frequencies_def)

lemma line_usable: "j < 7 \<Longrightarrow> step_usable step6_engines (line_atoms 7) (line_coords 7) j"
  by (simp add: step_usable_def line_step_geometry step6_engines_def hess_step6_def)
     (simp add: line_atoms_def line_coords_def)

lemma line_window:
  assumes "p < 7"
  shows "window_usable step6_engines (line_atoms 7) (line_coords 7) p"
proof -
  have len: "length (line_atoms 7) = 7" by (simp add: line_atoms_def)
  have "list_all (step_usable step6_engines (line_atoms 7) (line_coords 7)) [p..<min (p + 6) 7]"
    by (simp add: list_all_iff line_usable)
  then show ?thesis using assms unfolding window_usable_def len by simp
qed

text \<open>
  The window that the loop of \<open>get_final_ts_guess_geometry\<close> examines. Let the steps from the
  selected index \<open>p\<close> up to, but not including, \<open>min (p + 6) (length atoms)\<close> be usable: that
  is the selected step and at most five further ones. Then \<open>get_final_ts_guess_geometry\<close> returns the name of the TS-guess file,
  and
  \<^item> when \<open>i\<close> is the first of these steps whose geometry has exactly one negative frequency,
    the file holds the geometry of step \<open>i\<close>, and the frequency calculations that were run
    are those of the steps \<open>p, \<dots>, i\<close>;
  \<^item> when none of these steps has exactly one negative frequency (each has none or several),
    the file holds the geometry of step \<open>p\<close>, and the frequency calculation was run for every
    step of the window.
\<close>

theorem get_final_ts_guess_geometry_window:
  assumes "window_usable E atoms coords p"
  shows "\<exists>st'. get_final_ts_guess_geometry E p atoms coords fc st = (st', Inr (ts_guess_xyz fc)) \<and>
     (\<forall>i. p \<le> i \<and> i < min (p + 6) (length atoms) \<and>
          single_imaginary E (step_geometry atoms coords i) \<and>
          (\<forall>j. p \<le> j \<and> j < i \<longrightarrow> \<not> single_imaginary E (step_geometry atoms coords j)) \<longrightarrow>
          xyz_files st' (ts_guess_xyz fc) = Some (step_geometry atoms coords i) \<and>
          set (engine_calls st') = set (engine_calls st) \<union>
            (\<lambda>j. FrequencyCalculation (step_geometry atoms coords j)) ` {p..i}) \<and>
     ((\<forall>i. p \<le> i \<and> i < min (p + 6) (length atoms) \<longrightarrow>
           \<not> single_imaginary E (step_geometry atoms coords i)) \<longrightarrow>
          xyz_files st' (ts_guess_xyz fc) = Some (step_geometry atoms coords p) \<and>
          set (engine_calls st') = set (engine_calls st) \<union>
            (\<lambda>j. FrequencyCalculation (step_geometry atoms coords j)) `
              {p..<min (p + 6) (length atoms)})"
proof (cases "\<exists>i. p \<le> i \<and> i < min (p + 6) (length atoms) \<and>
                 single_imaginary E (step_geometry atoms coords i)")
  case False
  then have none: "\<forall>i. p \<le> i \<and> i < min (p + 6) (length atoms) \<longrightarrow>
                 \<not> single_imaginary E (step_geometry atoms coords i)" by blast
  from get_final_falls_back[OF assms none, of fc st] obtain st' where
    r: "get_final_ts_guess_geometry E p atoms coords fc st = (st', Inr (ts_guess_xyz fc))"
       "xyz_files st' (ts_guess_xyz fc) = Some (step_geometry atoms coords p)"
       "set (engine_calls st') = set (engine_calls st) \<union>
             (\<lambda>j. FrequencyCalculation (step_geometry atoms coords j)) `
               {p..<min (p + 6) (length atoms)}" by blast
  show ?thesis using r none by blast
next
  case True
  define P where "P = (\<lambda>i. p \<le> i \<and> i < min (p + 6) (length atoms) \<and>
                 single_imaginary E (step_geometry atoms coords i))"
  from True have ex: "\<exists>i. P i" by (simp add: P_def)
  define m where "m = (LEAST i. P i)"
  have Pm: "P m" unfolding m_def using ex by (rule LeastI_ex)
  have least: "\<And>j. P j \<Longrightarrow> m \<le> j" unfolding m_def by (rule Least_le)
  have before: "\<forall>j. p \<le> j \<and> j < m \<longrightarrow> \<not> single_imaginary E (step_geometry atoms coords j)"
  proof (intro allI impI)
    fix j assume j: "p \<le> j \<and> j < m"
    show "\<not> single_imaginary E (step_geometry atoms coords j)"
    proof
      assume "single_imaginary E (step_geometry atoms coords j)"
      then have "P j" using j Pm by (simp add: P_def)
      then have "m \<le> j" by (rule least)
      with j show False by simp
    qed
  qed
  from Pm have m: "p \<le> m" "m < min (p + 6) (length atoms)"
    "single_imaginary E (step_geometry atoms coords m)" by (simp_all add: P_def)
  from get_final_returns_first[OF assms m(1,2,3) before, of fc st] obtain st' where
    r: "get_final_ts_guess_geometry E p atoms coords fc st = (st', Inr (ts_guess_xyz fc))"
       "xyz_files st' (ts_guess_xyz fc) = Some (step_geometry atoms coords m)"
       "set (engine_calls st') = set (engine_calls st) \<union>
             (\<lambda>j. FrequencyCalculation (step_geometry atoms coords j)) ` {p..m}" by blast
  have uniq: "i = m" if "p \<le> i \<and> i < min (p + 6) (length atoms) \<and>
          single_imaginary E (step_geometry atoms coords i) \<and>
          (\<forall>j. p \<le> j \<and> j < i \<longrightarrow> \<not> single_imaginary E (step_geometry atoms coords j))" for i
  proof -
    from that have "P i" by (simp add: P_def)
    then have "m \<le> i" by (rule least)
    moreover have "\<not> m < i" using that m by blast
    ultimately show ?thesis by simp
  qed
  have first: "\<forall>i. p \<le> i \<and> i < min (p + 6) (length atoms) \<and>
          single_imaginary E (step_geometry atoms coords i) \<and>
          (\<forall>j. p \<le> j \<and> j < i \<longrightarrow> \<not> single_imaginary E (step_geometry atoms coords j)) \<longrightarrow>
          xyz_files st' (ts_guess_xyz fc) = Some (step_geometry atoms coords i) \<and>
          set (engine_calls st') = set (engine_calls st) \<union>
            (\<lambda>j. FrequencyCalculation (step_geometry atoms coords j)) ` {p..i}"
    using uniq r(2,3) by blast
  have nofb: "\<not> (\<forall>i. p \<le> i \<and> i < min (p + 6) (length atoms) \<longrightarrow>
           \<not> single_imaginary E (step_geometry atoms coords i))" using True by blast
  show ?thesis using r(1) first nofb by blast
qed

theorem get_final_ts_guess_geometry_window_witness:
  "(\<exists>st'. get_final_ts_guess_geometry step6_engines 1 (line_atoms 7) (line_coords 7) (1 / 4) empty_world =
            (st', Inr (ts_guess_xyz (1 / 4))) \<and>
          xyz_files st' (ts_guess_xyz (1 / 4)) = Some ([''H''], [(6, 0, 0)])) \<and>
   (\<exists>st'. get_final_ts_guess_geometry step6_engines 0 (line_atoms 7) (line_coords 7) (1 / 4) empty_world =
            (st', Inr (ts_guess_xyz (1 / 4))) \<and>
          xyz_files st' (ts_guess_xyz (1 / 4)) = Some ([''H''], [(0, 0, 0)]))"
proof -
  have len: "length (line_atoms 7) = 7" by (simp add: line_atoms_def)
  have w1: "window_usable step6_engines (line_atoms 7) (line_coords 7) 1" by (simp add: line_window)
  have w0: "window_usable step6_engines (line_atoms 7) (line_coords 7) 0" by (simp add: line_window)
  from get_final_ts_guess_geometry_window[OF w1, of "1 / 4" empty_world] obtain st1 where
    r1: "get_final_ts_guess_geometry step6_engines 1 (line_atoms 7) (line_coords 7) (1 / 4) empty_world =
           (st1, Inr (ts_guess_xyz (1 / 4)))"
    and f1: "\<forall>i. 1 \<le> i \<and> i < min (1 + 6) (length (line_atoms 7)) \<and>
          single_imaginary step6_engines (step_geometry (line_atoms 7) (line_coords 7) i) \<and>
          (\<forall>j. 1 \<le> j \<and> j < i \<longrightarrow>
               \<not> single_imaginary step6_engines (step_geometry (line_atoms 7) (line_coords 7) j)) \<longrightarrow>
          xyz_files st1 (ts_guess_xyz (1 / 4)) = Some (step_geometry (line_atoms 7) (line_coords 7) i) \<and>
          set (engine_calls st1) = set (engine_calls empty_world) \<union>
            (\<lambda>j. FrequencyCalculation (step_geometry (line_atoms 7) (line_coords 7) j)) ` {1..i}"
    by (elim exE conjE) (rule that, assumption+)
  have "xyz_files st1 (ts_guess_xyz (1 / 4)) = Some (step_geometry (line_atoms 7) (line_coords 7) 6)"
    using f1[rule_format, of 6] by (simp add: len line_single)
  then have a: "xyz_files st1 (ts_guess_xyz (1 / 4)) = Some ([''H''], [(6, 0, 0)])"
    by (simp add: line_step_geometry)
  from get_final_ts_guess_geometry_window[OF w0, of "1 / 4" empty_world] obtain st0 where
    r0: "get_final_ts_guess_geometry step6_engines 0 (line_atoms 7) (line_coords 7) (1 / 4) empty_world =
           (st0, Inr (ts_guess_xyz (1 / 4)))"
    and f0: "(\<forall>i. 0 \<le> i \<and> i < min (0 + 6) (length (line_atoms 7)) \<longrightarrow>
           \<not> single_imaginary step6_engines (step_geometry (line_atoms 7) (line_coords 7) i)) \<longrightarrow>
          xyz_files st0 (ts_guess_xyz (1 / 4)) = Some (step_geometry (line_atoms 7) (line_coords 7) 0) \<and>
          set (engine_calls st0) = set (engine_calls empty_world) \<union>
            (\<lambda>j. FrequencyCalculation (step_geometry (line_atoms 7) (line_coords 7) j)) `
              {0..<min (0 + 6) (length (line_atoms 7))}"
    by (elim exE conjE) (rule that, assumption+)
  have "xyz_files st0 (ts_guess_xyz (1 / 4)) = Some (step_geometry (line_atoms 7) (line_coords 7) 0)"
    using f0 by (simp add: len line_single)
  then have b: "xyz_files st0 (ts_guess_xyz (1 / 4)) = Some ([''H''], [(0, 0, 0)])"
    by (simp add: line_step_geometry)
  show ?thesis using r1 a r0 b by blast
qed

text \<open>
  Claim C3 says that the scan goes forward from the selected index up to 6 further steps,
  and returns the first candidate whose geometry has exactly one negative frequency. The
  comment at the call of \<open>get_final_ts_guess_geometry\<close> says the same: the next 6
  optimisation points are to be tried. The loop runs over
  \<^verbatim>\<open>range(p, min(p + 6, len(atoms)))\<close>, which ends with the fifth further step. On a
  trajectory of seven steps, selected index 0, where step 6 is the only one with exactly
  one negative frequency, the claim asks for the geometry of step 6. The code returns the
  geometry of step 0 and never runs the frequency calculation for step 6.
\<close>

theorem get_final_ts_guess_geometry_misses_sixth_further_step:
  "6 < length (line_atoms 7) \<and>
   step_geometry (line_atoms 7) (line_coords 7) 6 = ([''H''], [(6, 0, 0)]) \<and>
   single_imaginary step6_engines (step_geometry (line_atoms 7) (line_coords 7) 6) \<and>
   list_all (\<lambda>j. \<not> single_imaginary step6_engines (step_geometry (line_atoms 7) (line_coords 7) j))
     [0, 1, 2, 3, 4, 5] \<and>
   snd (get_final_ts_guess_geometry step6_engines 0 (line_atoms 7) (line_coords 7) (1 / 4) empty_world) =
     Inr (ts_guess_xyz (1 / 4)) \<and>
   xyz_files (fst (get_final_ts_guess_geometry step6_engines 0 (line_atoms 7) (line_coords 7) (1 / 4)
       empty_world)) (ts_guess_xyz (1 / 4)) = Some ([''H''], [(0, 0, 0)]) \<and>
   FrequencyCalculation ([''H''], [(6, 0, 0)]) \<notin>
     set (engine_calls (fst (get_final_ts_guess_geometry step6_engines 0 (line_atoms 7) (line_coords 7)
       (1 / 4) empty_world)))"
proof -
  have len: "6 < length (line_atoms 7)" by (simp add: line_atoms_def)
  have g6: "step_geometry (line_atoms 7) (line_coords 7) 6 = ([''H''], [(6, 0, 0)])"
    using line_step_geometry[of 6] by simp
  have s6: "single_imaginary step6_engines (step_geometry (line_atoms 7) (line_coords 7) 6)"
    by (simp add: line_single)
  have ns: "list_all (\<lambda>j. \<not> single_imaginary step6_engines (step_geometry (line_atoms 7) (line_coords 7) j))
     [0, 1, 2, 3, 4, 5]"
    by (simp add: line_single)
  have nc: "FrequencyCalculation ([''H''], [(6, 0, 0)]) \<notin>
     set (twice_each (line_atoms 7) (line_coords 7) [0, 1, 2, 3, 4, 5])"
    by (simp add: set_twice_each line_step_geometry)
  show ?thesis using len g6 s6 ns nc by (simp add: sixth_step_eval)
qed

text \<open>
  Claim C4 says that the frequency calculation is invoked exactly once per candidate step
  examined. For a trajectory of one step whose geometry has two negative frequencies the
  validation examines one candidate, and the frequency calculation is run twice on it: the
  body of the loop repeats the write-and-check pair after the first check has failed.
\<close>

theorem frequency_calculation_runs_twice:
  "snd (get_final_ts_guess_geometry (demo_engines [[- 300, - 20, 40]]) 0
        [[''H'']] [[(0, 0, 0)]] (1 / 4) empty_world) = Inr (ts_guess_xyz (1 / 4)) \<and>
   engine_calls (fst (get_final_ts_guess_geometry (demo_engines [[- 300, - 20, 40]]) 0
        [[''H'']] [[(0, 0, 0)]] (1 / 4) empty_world)) =
     [FrequencyCalculation ([''H''], [(0, 0, 0)]), FrequencyCalculation ([''H''], [(0, 0, 0)])]"
  by (simp add: get_final_ts_guess_geometry_def write_and_check_def
      py_nth_def write_xyz_file_from_atoms_and_coords_def get_negative_frequencies_def
      read_negative_frequencies_def py_len_def demo_engines_def empty_world_def blank_world_def)

section \<open>Properties of the binary64 rounding\<close>

lemma py_round_bounds:
  "real_of_int (py_round x) - 1 / 2 \<le> x" "x \<le> real_of_int (py_round x) + 1 / 2"
  using py_round_nearest[of x] by simp_all

lemma py_round_mono:
  assumes "x \<le> y"
  shows "py_round x \<le> py_round y"
proof (rule ccontr)
  assume "\<not> py_round x \<le> py_round y"
  then have gt: "py_round y + 1 \<le> py_round x" by simp
  then have g: "real_of_int (py_round y) + 1 \<le> real_of_int (py_round x)" by linarith
  have "real_of_int (py_round x) - 1 / 2 \<le> x" by (rule py_round_bounds)
  moreover have "y \<le> real_of_int (py_round y) + 1 / 2" by (rule py_round_bounds)
  ultimately have xy: "x = y"
    using assms g by linarith
  from xy gt show False by simp
qed

lemma py_round_of_int: "py_round (real_of_int n) = n"
  by (simp add: py_round_def)

lemma log2_bounds:
  assumes "x \<noteq> 0"
  shows "2 powr real_of_int \<lfloor>log 2 \<bar>x\<bar>\<rfloor> \<le> \<bar>x\<bar>"
    and "\<bar>x\<bar> < 2 powr (real_of_int \<lfloor>log 2 \<bar>x\<bar>\<rfloor> + 1)"
  using assms floor_log_eq_powr_iff[of "\<bar>x\<bar>" 2 "\<lfloor>log 2 \<bar>x\<bar>\<rfloor>"] by simp_all

lemma ulp_exponent_ge: "- 1074 \<le> ulp_exponent x"
  by (simp add: ulp_exponent_def)

lemma scaled_upper:
  assumes "x \<noteq> 0"
  shows "\<bar>x\<bar> / 2 powr real_of_int (ulp_exponent x) < 2 ^ 53"
proof -
  have "\<bar>x\<bar> < 2 powr (real_of_int \<lfloor>log 2 \<bar>x\<bar>\<rfloor> + 1)" by (rule log2_bounds[OF assms])
  also have "\<dots> \<le> 2 powr (real_of_int (ulp_exponent x) + 53)"
    by (rule powr_mono) (simp_all add: ulp_exponent_def)
  also have "\<dots> = 2 powr real_of_int (ulp_exponent x) * 2 ^ 53"
    by (simp add: powr_add)
  finally show ?thesis by (simp add: pos_divide_less_eq mult.commute)
qed

lemma scaled_lower:
  assumes "x \<noteq> 0" "- 1022 \<le> \<lfloor>log 2 \<bar>x\<bar>\<rfloor>"
  shows "2 ^ 52 \<le> \<bar>x\<bar> / 2 powr real_of_int (ulp_exponent x)"
proof -
  have u: "real_of_int (ulp_exponent x) + 52 = real_of_int \<lfloor>log 2 \<bar>x\<bar>\<rfloor>"
    using assms(2) by (simp add: ulp_exponent_def)
  have "2 powr real_of_int (ulp_exponent x) * 2 ^ 52 = 2 powr (real_of_int (ulp_exponent x) + 52)"
    by (simp add: powr_add)
  also have "\<dots> \<le> \<bar>x\<bar>" unfolding u by (rule log2_bounds[OF assms(1)])
  finally show ?thesis by (simp add: pos_le_divide_eq mult.commute)
qed

lemma binary64_nonneg: "0 \<le> x \<Longrightarrow> 0 \<le> binary64 x"
proof -
  assume x: "0 \<le> x"
  have "0 \<le> x / 2 powr real_of_int (ulp_exponent x)" using x by simp
  then have "py_round 0 \<le> py_round (x / 2 powr real_of_int (ulp_exponent x))"
    by (rule py_round_mono)
  then have "0 \<le> py_round (x / 2 powr real_of_int (ulp_exponent x))"
    using py_round_of_int[of 0] by simp
  then show ?thesis by (simp add: binary64_def)
qed

lemma binary64_nonpos: "x \<le> 0 \<Longrightarrow> binary64 x \<le> 0"
proof -
  assume x: "x \<le> 0"
  have "x / 2 powr real_of_int (ulp_exponent x) \<le> 0" using x by (simp add: divide_nonpos_pos)
  then have "py_round (x / 2 powr real_of_int (ulp_exponent x)) \<le> py_round 0"
    by (rule py_round_mono)
  then have "py_round (x / 2 powr real_of_int (ulp_exponent x)) \<le> 0"
    using py_round_of_int[of 0] by simp
  then show ?thesis by (simp add: binary64_def mult_nonpos_nonneg)
qed


lemma py_round_minus: "py_round (- x) = - py_round x"
proof (cases "x = real_of_int \<lfloor>x\<rfloor>")
  case True
  then obtain n where n: "x = real_of_int n" by blast
  have "- x = real_of_int (- n)" using n by simp
  then have "py_round (- x) = - n" using py_round_of_int[of "- n"] by simp
  then show ?thesis using n py_round_of_int[of n] by simp
next
  case False
  define f where "f = \<lfloor>x\<rfloor>"
  define d where "d = x - real_of_int f"
  have c: "\<lceil>x\<rceil> = f + 1" using False by (simp add: ceiling_altdef f_def)
  have fm: "\<lfloor>- x\<rfloor> = - f - 1" using c by (simp add: ceiling_def)
  have dm: "- x - real_of_int (- f - 1) = 1 - d" by (simp add: d_def)
  have r: "py_round x = (if d < 1 / 2 then f else if 1 / 2 < d then f + 1
                          else if even f then f else f + 1)"
    by (simp add: py_round_def Let_def f_def d_def)
  have rm: "py_round (- x) = (if 1 - d < 1 / 2 then - f - 1 else if 1 / 2 < 1 - d then - f - 1 + 1
                          else if even (- f - 1) then - f - 1 else - f - 1 + 1)"
    unfolding py_round_def Let_def fm dm by simp
  consider "d < 1 / 2" | "1 / 2 < d" | "d = 1 / 2" by linarith
  then show ?thesis
  proof cases
    case 1
    then show ?thesis unfolding r rm by simp
  next
    case 2
    then show ?thesis unfolding r rm by simp
  next
    case 3
    then show ?thesis unfolding r rm by (cases "even f") simp_all
  qed
qed

lemma ulp_exponent_minus: "ulp_exponent (- x) = ulp_exponent x"
  by (simp add: ulp_exponent_def)

lemma binary64_minus: "binary64 (- x) = - binary64 x"
  by (simp add: binary64_def ulp_exponent_minus py_round_minus)

lemma ulp_exponent_mono:
  assumes "x \<noteq> 0" "\<bar>x\<bar> \<le> \<bar>y\<bar>"
  shows "ulp_exponent x \<le> ulp_exponent y"
proof -
  have "log 2 \<bar>x\<bar> \<le> log 2 \<bar>y\<bar>" using assms by simp
  then have "\<lfloor>log 2 \<bar>x\<bar>\<rfloor> \<le> \<lfloor>log 2 \<bar>y\<bar>\<rfloor>" by (rule floor_mono)
  then show ?thesis by (simp add: ulp_exponent_def)
qed

lemma binary64_pos_upper:
  assumes "0 < x"
  shows "binary64 x \<le> 2 powr (real_of_int (ulp_exponent x) + 53)"
proof -
  let ?u = "2 powr real_of_int (ulp_exponent x)"
  have "x / ?u \<le> real_of_int (2 ^ 53)" using scaled_upper[of x] assms by simp
  then have "py_round (x / ?u) \<le> py_round (real_of_int (2 ^ 53))" by (rule py_round_mono)
  then have "py_round (x / ?u) \<le> 2 ^ 53" unfolding py_round_of_int .
  then have "real_of_int (py_round (x / ?u)) \<le> real_of_int (2 ^ 53)" by (simp only: of_int_le_iff)
  then have "real_of_int (py_round (x / ?u)) \<le> 2 ^ 53" by simp
  then have "real_of_int (py_round (x / ?u)) * ?u \<le> 2 ^ 53 * ?u"
    by (rule mult_right_mono) simp
  then show ?thesis using assms by (simp add: binary64_def powr_add mult.commute)
qed

lemma binary64_pos_lower:
  assumes "0 < x" "- 1074 < ulp_exponent x"
  shows "2 powr (real_of_int (ulp_exponent x) + 52) \<le> binary64 x"
proof -
  let ?u = "2 powr real_of_int (ulp_exponent x)"
  have n: "- 1022 \<le> \<lfloor>log 2 \<bar>x\<bar>\<rfloor>" using assms(2) by (simp add: ulp_exponent_def max_def split: if_splits)
  have "real_of_int (2 ^ 52) \<le> x / ?u" using scaled_lower[of x] assms(1) n by simp
  then have "py_round (real_of_int (2 ^ 52)) \<le> py_round (x / ?u)" by (rule py_round_mono)
  then have "2 ^ 52 \<le> py_round (x / ?u)" unfolding py_round_of_int .
  then have "real_of_int (2 ^ 52) \<le> real_of_int (py_round (x / ?u))" by (simp only: of_int_le_iff)
  then have "2 ^ 52 \<le> real_of_int (py_round (x / ?u))" by simp
  then have "2 ^ 52 * ?u \<le> real_of_int (py_round (x / ?u)) * ?u"
    by (rule mult_right_mono) simp
  then show ?thesis using assms by (simp add: binary64_def powr_add mult.commute)
qed

lemma binary64_mono_pos:
  assumes "0 < x" "x \<le> y"
  shows "binary64 x \<le> binary64 y"
proof -
  have y: "0 < y" using assms by simp
  have le: "ulp_exponent x \<le> ulp_exponent y"
    using ulp_exponent_mono[of x y] assms by simp
  show ?thesis
  proof (cases "ulp_exponent x = ulp_exponent y")
    case True
    let ?u = "2 powr real_of_int (ulp_exponent y)"
    have "x / ?u \<le> y / ?u" using assms(2) by (simp add: divide_right_mono)
    then have "py_round (x / ?u) \<le> py_round (y / ?u)" by (rule py_round_mono)
    then have "real_of_int (py_round (x / ?u)) * ?u \<le> real_of_int (py_round (y / ?u)) * ?u"
      by (simp add: mult_right_mono)
    then show ?thesis using assms(1) y True by (simp add: binary64_def)
  next
    case False
    then have lt: "ulp_exponent x + 1 \<le> ulp_exponent y" using le by simp
    then have n: "- 1074 < ulp_exponent y" using ulp_exponent_ge[of x] by linarith
    have "binary64 x \<le> 2 powr (real_of_int (ulp_exponent x) + 53)"
      by (rule binary64_pos_upper[OF assms(1)])
    also have "\<dots> \<le> 2 powr (real_of_int (ulp_exponent y) + 52)"
      by (rule powr_mono) (use lt in simp_all)
    also have "\<dots> \<le> binary64 y" by (rule binary64_pos_lower[OF y n])
    finally show ?thesis .
  qed
qed

lemma binary64_mono:
  assumes "x \<le> y"
  shows "binary64 x \<le> binary64 y"
proof -
  consider "0 < x" | "y < 0" | "x \<le> 0" "0 \<le> y" by linarith
  then show ?thesis
  proof cases
    case 1
    then show ?thesis using assms by (rule binary64_mono_pos)
  next
    case 2
    then have "0 < - y" "- y \<le> - x" using assms by simp_all
    then have "binary64 (- y) \<le> binary64 (- x)" by (rule binary64_mono_pos)
    then show ?thesis by (simp add: binary64_minus)
  next
    case 3
    then show ?thesis using binary64_nonpos[of x] binary64_nonneg[of y] by linarith
  qed
qed


lemma floor_log2_le:
  assumes "0 < w" "w < 2 powr (real_of_int e + 1)"
  shows "\<lfloor>log 2 w\<rfloor> \<le> e"
proof -
  have "log 2 w < real_of_int e + 1" using assms by (simp add: log_less_iff)
  then show ?thesis by (simp add: floor_le_iff)
qed

lemma floor_log2_ge:
  assumes "0 < w" "2 powr real_of_int e \<le> w"
  shows "e \<le> \<lfloor>log 2 w\<rfloor>"
proof -
  have "real_of_int e \<le> log 2 w" using assms by (simp add: le_log_iff)
  then show ?thesis by (simp add: le_floor_iff)
qed

lemma ulp_exponent_eq:
  assumes "0 < w" "w < 2 powr (real_of_int e + 1)" "e = - 1022 \<or> 2 powr real_of_int e \<le> w"
    and "- 1022 \<le> e"
  shows "ulp_exponent w = e - 52"
proof -
  have le: "\<lfloor>log 2 w\<rfloor> \<le> e" by (rule floor_log2_le[OF assms(1,2)])
  have "max \<lfloor>log 2 w\<rfloor> (- 1022) = e"
  proof (cases "e = - 1022")
    case True
    then show ?thesis using le by simp
  next
    case False
    then have "2 powr real_of_int e \<le> w" using assms(3) by simp
    then have "e \<le> \<lfloor>log 2 w\<rfloor>" by (rule floor_log2_ge[OF assms(1)])
    then show ?thesis using le assms(4) by simp
  qed
  then show ?thesis using assms(1) by (simp add: ulp_exponent_def)
qed

lemma binary64_on_grid:
  assumes "w \<noteq> 0" "w = real_of_int m * 2 powr real_of_int (ulp_exponent w)"
  shows "binary64 w = w"
proof -
  have "w / 2 powr real_of_int (ulp_exponent w) = real_of_int m"
    using assms(2) by (metis nonzero_mult_div_cancel_right powr_non_neg powr_eq_0_iff zero_neq_numeral)
  then have "py_round (w / 2 powr real_of_int (ulp_exponent w)) = m"
    by (simp add: py_round_of_int)
  then show ?thesis using assms by (simp add: binary64_def)
qed

lemma binary64_idem_pos:
  assumes "0 < x"
  shows "binary64 (binary64 x) = binary64 x"
proof -
  define u where "u = 2 powr real_of_int (ulp_exponent x)"
  define m where "m = py_round (x / u)"
  define e where "e = ulp_exponent x + 52"
  have up: "0 < u" by (simp add: u_def)
  have w: "binary64 x = real_of_int m * u" using assms by (simp add: binary64_def m_def u_def)
  have e1022: "- 1022 \<le> e" by (simp add: e_def ulp_exponent_def)
  have ue: "real_of_int (ulp_exponent x) = real_of_int e - 52" by (simp add: e_def)
  have m0: "0 \<le> real_of_int m * u" using binary64_nonneg[of x] assms w by simp
  show ?thesis
  proof (cases "binary64 x = 0")
    case True
    then show ?thesis by (simp add: binary64_def)
  next
    case False
    have "0 \<le> binary64 x" using binary64_nonneg[of x] assms by simp
    with False have wpos: "0 < binary64 x" by linarith
    have eq53: "real_of_int (ulp_exponent x) + 53 = real_of_int e + 1" by (simp add: e_def)
    have eq52: "real_of_int (ulp_exponent x) + 52 = real_of_int e" by (simp add: e_def)
    have upper: "binary64 x \<le> 2 powr (real_of_int e + 1)"
      using binary64_pos_upper[OF assms] unfolding eq53 .
    have lower: "e = - 1022 \<or> 2 powr real_of_int e \<le> binary64 x"
    proof (cases "- 1074 < ulp_exponent x")
      case True
      show ?thesis using binary64_pos_lower[OF assms True] unfolding eq52 by simp
    next
      case False
      then have "ulp_exponent x = - 1074" using ulp_exponent_ge[of x] by linarith
      then show ?thesis by (simp add: e_def)
    qed
    show ?thesis
    proof (cases "binary64 x = 2 powr (real_of_int e + 1)")
      case True
      have a: "2 powr (real_of_int (e + 1)) \<le> binary64 x" using True by simp
      have b: "binary64 x < 2 powr (real_of_int (e + 1) + 1)" unfolding True by simp
      have "ulp_exponent (binary64 x) = e + 1 - 52"
        by (rule ulp_exponent_eq[OF wpos b]) (use a e1022 in simp_all)
      then have g: "real_of_int (ulp_exponent (binary64 x)) = real_of_int e + 1 - 52" by simp
      have "2 powr (real_of_int e + 1) = real_of_int (2 ^ 52) * 2 powr (real_of_int e + 1 - 52)"
        by (simp add: powr_diff powr_add)
      then have "binary64 x = real_of_int (2 ^ 52) * 2 powr (real_of_int e + 1 - 52)"
        by (rule trans[OF True])
      then have "binary64 x = real_of_int (2 ^ 52) * 2 powr real_of_int (ulp_exponent (binary64 x))"
        unfolding g .
      then show ?thesis using binary64_on_grid[of "binary64 x" "2 ^ 52"] False by blast
    next
      case ne: False
      then have b: "binary64 x < 2 powr (real_of_int e + 1)" using upper by simp
      have "ulp_exponent (binary64 x) = e - 52"
        by (rule ulp_exponent_eq[OF wpos b lower e1022])
      then have "ulp_exponent (binary64 x) = ulp_exponent x" by (simp add: e_def)
      then have "binary64 x = real_of_int m * 2 powr real_of_int (ulp_exponent (binary64 x))"
        using w by (simp add: u_def)
      then show ?thesis using binary64_on_grid[of "binary64 x" m] False by blast
    qed
  qed
qed

lemma binary64_idem: "binary64 (binary64 x) = binary64 x"
proof -
  consider "0 < x" | "x = 0" | "x < 0" by linarith
  then show ?thesis
  proof cases
    case 1
    then show ?thesis by (rule binary64_idem_pos)
  next
    case 2
    then show ?thesis by (simp add: binary64_def)
  next
    case 3
    then have "binary64 (binary64 (- x)) = binary64 (- x)" by (simp add: binary64_idem_pos)
    then show ?thesis by (simp add: binary64_minus)
  qed
qed


lemma binary64_fixed_form:
  assumes "binary64 w = w" "w \<noteq> 0"
  shows "w = real_of_int (py_round (w / 2 powr real_of_int (ulp_exponent w))) *
             2 powr real_of_int (ulp_exponent w)"
  using assms by (simp add: binary64_def)

lemma floor_log2_double:
  assumes "0 < w"
  shows "\<lfloor>log 2 (2 * w)\<rfloor> = \<lfloor>log 2 w\<rfloor> + 1"
proof -
  have "log 2 (2 * w) = log 2 w + 1" using assms by (simp add: log_mult)
  then show ?thesis by simp
qed

lemma binary64_double:
  assumes "binary64 w = w" "0 \<le> w"
  shows "binary64 (2 * w) = 2 * w"
proof (cases "w = 0")
  case True
  then show ?thesis by (simp add: binary64_def)
next
  case False
  then have pos: "0 < w" using assms(2) by simp
  define m where "m = py_round (w / 2 powr real_of_int (ulp_exponent w))"
  have w: "w = real_of_int m * 2 powr real_of_int (ulp_exponent w)"
    unfolding m_def by (rule binary64_fixed_form[OF assms(1) False])
  define L where "L = \<lfloor>log 2 \<bar>w\<bar>\<rfloor>"
  have fl: "\<lfloor>log 2 \<bar>2 * w\<bar>\<rfloor> = L + 1"
    unfolding L_def using floor_log2_double[OF pos] pos by simp
  have uw: "ulp_exponent w = max L (- 1022) - 52" by (simp add: ulp_exponent_def L_def)
  have u2: "ulp_exponent (2 * w) = max (L + 1) (- 1022) - 52"
    unfolding ulp_exponent_def fl ..
  have nz: "2 * w \<noteq> 0" using False by simp
  show ?thesis
  proof (cases "- 1022 \<le> L")
    case True
    then have "ulp_exponent (2 * w) = ulp_exponent w + 1"
      unfolding uw u2 by simp
    then have g: "real_of_int (ulp_exponent (2 * w)) = real_of_int (ulp_exponent w) + 1" by simp
    have "2 * w = real_of_int m * 2 powr (real_of_int (ulp_exponent w) + 1)"
      using w by (simp add: powr_add)
    then have "2 * w = real_of_int m * 2 powr real_of_int (ulp_exponent (2 * w))"
      unfolding g .
    then show ?thesis by (rule binary64_on_grid[OF nz])
  next
    case False
    then have "ulp_exponent (2 * w) = ulp_exponent w"
      unfolding uw u2 by simp
    then have g: "real_of_int (ulp_exponent (2 * w)) = real_of_int (ulp_exponent w)" by simp
    have "2 * w = real_of_int (2 * m) * 2 powr real_of_int (ulp_exponent w)"
      using w by simp
    then have "2 * w = real_of_int (2 * m) * 2 powr real_of_int (ulp_exponent (2 * w))"
      unfolding g .
    then show ?thesis by (rule binary64_on_grid[OF nz])
  qed
qed

lemma powr_grid:
  assumes "- 1074 \<le> k"
  shows "2 powr real_of_int k = real_of_int (2 ^ nat (k + 1074)) * 2 powr (- 1074)"
proof -
  have "real_of_int k = real (nat (k + 1074)) + (- 1074)" using assms by simp
  then have "2 powr real_of_int k = 2 powr real (nat (k + 1074)) * 2 powr (- 1074)"
    by (metis powr_add)
  also have "2 powr real (nat (k + 1074)) = (2::real) ^ nat (k + 1074)"
    by (simp add: powr_realpow)
  finally show ?thesis by simp
qed

lemma binary64_fixed_grid:
  assumes "binary64 a = a"
  shows "\<exists>n::int. a = real_of_int n * 2 powr (- 1074)"
proof (cases "a = 0")
  case True
  then have "a = real_of_int 0 * 2 powr (- 1074)" by simp
  then show ?thesis by (rule exI)
next
  case False
  define m where "m = py_round (a / 2 powr real_of_int (ulp_exponent a))"
  have "a = real_of_int m * 2 powr real_of_int (ulp_exponent a)"
    unfolding m_def by (rule binary64_fixed_form[OF assms False])
  also have "2 powr real_of_int (ulp_exponent a) =
      real_of_int (2 ^ nat (ulp_exponent a + 1074)) * 2 powr (- 1074)"
    by (rule powr_grid[OF ulp_exponent_ge])
  finally have "a = real_of_int (m * 2 ^ nat (ulp_exponent a + 1074)) * 2 powr (- 1074)"
    by simp
  then show ?thesis by (rule exI)
qed

lemma binary64_difference:
  assumes "binary64 a = a" "binary64 b = b" "a \<le> b"
  shows "b - a \<le> 2 * binary64 (b - a)"
proof (cases "b - a = 0")
  case True
  then show ?thesis by (simp add: binary64_def)
next
  case False
  then have pos: "0 < b - a" using assms(3) by simp
  show ?thesis
  proof (cases "- 1074 < ulp_exponent (b - a)")
    case True
    have "\<bar>b - a\<bar> / 2 powr real_of_int (ulp_exponent (b - a)) < 2 ^ 53"
      using scaled_upper[of "b - a"] False by simp
    then have "b - a < 2 ^ 53 * 2 powr real_of_int (ulp_exponent (b - a))"
      using pos by (simp add: pos_divide_less_eq)
    also have "\<dots> = 2 * 2 powr (real_of_int (ulp_exponent (b - a)) + 52)"
      by (simp add: powr_add)
    also have "\<dots> \<le> 2 * binary64 (b - a)"
      using binary64_pos_lower[OF pos True] by simp
    finally show ?thesis by simp
  next
    case sub: False
    then have u: "ulp_exponent (b - a) = - 1074" using ulp_exponent_ge[of "b - a"] by linarith
    from binary64_fixed_grid[OF assms(1)] obtain na :: int where
      na: "a = real_of_int na * 2 powr (- 1074)" by blast
    from binary64_fixed_grid[OF assms(2)] obtain nb :: int where
      nb: "b = real_of_int nb * 2 powr (- 1074)" by blast
    have "b - a = real_of_int (nb - na) * 2 powr (- 1074)"
      unfolding na nb by (simp add: algebra_simps)
    then have "b - a = real_of_int (nb - na) * 2 powr real_of_int (ulp_exponent (b - a))"
      unfolding u by simp
    then have "binary64 (b - a) = b - a" by (rule binary64_on_grid[OF False])
    then show ?thesis using pos by simp
  qed
qed

lemma floor_log2_eq:
  assumes "0 < x" "2 powr real_of_int e \<le> x" "x < 2 powr (real_of_int e + 1)"
  shows "\<lfloor>log 2 x\<rfloor> = e"
  using assms floor_log_eq_powr_iff[of x 2 e] by simp

lemma binary64_normal:
  assumes "2 powr real_of_int e \<le> \<bar>x\<bar>" "\<bar>x\<bar> < 2 powr (real_of_int e + 1)" "- 1022 \<le> e"
  shows "binary64 x = real_of_int (py_round (x / 2 powr real_of_int (e - 52))) *
                        2 powr real_of_int (e - 52)"
proof -
  have pos: "0 < \<bar>x\<bar>" using assms(1) by (smt (verit) powr_gt_zero)
  then have nz: "x \<noteq> 0" by simp
  have "\<lfloor>log 2 \<bar>x\<bar>\<rfloor> = e" by (rule floor_log2_eq[OF pos assms(1,2)])
  then have "ulp_exponent x = e - 52" using assms(3) by (simp add: ulp_exponent_def)
  then show ?thesis using nz by (simp add: binary64_def)
qed

lemma b64_half: "binary64 (1 / 2) = 1 / 2"
  using binary64_normal[of "-1" "1 / 2"] by (simp add: powr_neg_numeral py_round_def)

lemma b64_tenth: "binary64 (1 / 10) = 3602879701896397 / 36028797018963968"
  using binary64_normal[of "-4" "1 / 10"] by (simp add: powr_neg_numeral py_round_def)


lemma b64_four_tenths: "binary64 (4 / 10) = 3602879701896397 / 9007199254740992"
  using binary64_normal[of "-2" "4 / 10"] by (simp add: powr_neg_numeral py_round_def)

lemma b64_steps:
  "binary64 (3602879701896397 / 36028797018963968) = 3602879701896397 / 36028797018963968"
  "binary64 (3602879701896397 / 18014398509481984) = 3602879701896397 / 18014398509481984"
  "binary64 (10808639105689191 / 36028797018963968) = 1351079888211149 / 4503599627370496"
  "binary64 (14411518807585589 / 36028797018963968) = 3602879701896397 / 9007199254740992"
  "binary64 (10808639105689192 / 3602879701896397) = 6755399441055745 / 2251799813685248"
proof -
  show "binary64 (3602879701896397 / 36028797018963968) = 3602879701896397 / 36028797018963968"
    using binary64_normal[of "-4" "3602879701896397 / 36028797018963968"]
    by (simp add: powr_neg_numeral py_round_def)
  show "binary64 (3602879701896397 / 18014398509481984) = 3602879701896397 / 18014398509481984"
    using binary64_normal[of "-3" "3602879701896397 / 18014398509481984"]
    by (simp add: powr_neg_numeral py_round_def)
  show "binary64 (10808639105689191 / 36028797018963968) = 1351079888211149 / 4503599627370496"
    using binary64_normal[of "-2" "10808639105689191 / 36028797018963968"]
    by (simp add: powr_neg_numeral py_round_def)
  show "binary64 (14411518807585589 / 36028797018963968) = 3602879701896397 / 9007199254740992"
    using binary64_normal[of "-2" "14411518807585589 / 36028797018963968"]
    by (simp add: powr_neg_numeral py_round_def)
  show "binary64 (10808639105689192 / 3602879701896397) = 6755399441055745 / 2251799813685248"
    using binary64_normal[of 1 "10808639105689192 / 3602879701896397"]
    by (simp add: powr_neg_numeral py_round_def)
qed

lemma binary64_multiple:
  "\<exists>m::int. binary64 x = real_of_int m * 2 powr real_of_int (ulp_exponent x)"
proof (cases "x = 0")
  case True
  then have "binary64 x = real_of_int 0 * 2 powr real_of_int (ulp_exponent x)"
    by (simp add: binary64_def)
  then show ?thesis by (rule exI)
next
  case False
  then have "binary64 x = real_of_int (py_round (x / 2 powr real_of_int (ulp_exponent x))) *
      2 powr real_of_int (ulp_exponent x)" by (simp add: binary64_def)
  then show ?thesis by (rule exI)
qed

lemma binary64_nearest:
  "\<bar>binary64 x - x\<bar> \<le> 2 powr real_of_int (ulp_exponent x) / 2"
proof (cases "x = 0")
  case True
  then show ?thesis by (simp add: binary64_def)
next
  case False
  define u where "u = 2 powr real_of_int (ulp_exponent x)"
  define m where "m = real_of_int (py_round (x / u))"
  have up: "0 < u" by (simp add: u_def)
  have b: "m - 1 / 2 \<le> x / u" "x / u \<le> m + 1 / 2"
    unfolding m_def by (rule py_round_bounds)+
  have xu: "x = (x / u) * u" using up by simp
  have "m * u - x = (m - x / u) * u" using up by (simp add: algebra_simps)
  then have "\<bar>m * u - x\<bar> = \<bar>m - x / u\<bar> * u" using up by (simp add: abs_mult)
  also have "\<dots> \<le> (1 / 2) * u"
  proof (rule mult_right_mono)
    show "\<bar>m - x / u\<bar> \<le> 1 / 2" using b by linarith
    show "0 \<le> u" using up by simp
  qed
  finally have "\<bar>m * u - x\<bar> \<le> u / 2" by simp
  then show ?thesis using False by (simp add: binary64_def m_def u_def)
qed

lemma ulp_exponent_upper:
  assumes "x \<noteq> 0"
  shows "\<bar>x\<bar> < 2 powr (real_of_int (ulp_exponent x) + 53)"
proof -
  have "\<bar>x\<bar> / 2 powr real_of_int (ulp_exponent x) < 2 ^ 53"
    using scaled_upper[of x] assms by simp
  then have "\<bar>x\<bar> < 2 ^ 53 * 2 powr real_of_int (ulp_exponent x)"
    by (simp add: pos_divide_less_eq)
  then show ?thesis by (simp add: powr_add mult.commute)
qed

lemma ulp_exponent_lower:
  assumes "x \<noteq> 0" "- 1074 < ulp_exponent x"
  shows "2 powr (real_of_int (ulp_exponent x) + 52) \<le> \<bar>x\<bar>"
proof -
  have n: "- 1022 \<le> \<lfloor>log 2 \<bar>x\<bar>\<rfloor>"
    using assms(2) by (simp add: ulp_exponent_def max_def split: if_splits)
  have "2 ^ 52 \<le> \<bar>x\<bar> / 2 powr real_of_int (ulp_exponent x)"
    by (rule scaled_lower[OF assms(1) n])
  then have "2 ^ 52 * 2 powr real_of_int (ulp_exponent x) \<le> \<bar>x\<bar>"
    by (simp add: pos_le_divide_eq)
  then show ?thesis by (simp add: powr_add mult.commute)
qed

section \<open>Properties of the scan of the force constant\<close>

lemma get_ts_guess_index_defined:
  assumes len: "length energies = length potentials" and ne: "energies \<noteq> []"
  shows "\<exists>i. get_ts_guess_index energies potentials = Inr i"
proof -
  let ?te = "map (\<lambda>(x, y). x - y) (zip energies potentials)"
  have sub: "np_subtract energies potentials = Inr ?te" using len by (simp add: np_subtract_def)
  have "?te \<noteq> []" using ne len by (cases energies; cases potentials) auto
  from py_max_greatest[OF this] obtain m where m: "py_max ?te = Inr m" "m \<in> set ?te" by blast
  from py_index_first[OF m(2)] obtain i where "py_index ?te m = Inr i" by blast
  then show ?thesis using sub m(1) by (simp add: get_ts_guess_index_def)
qed

lemma determine_potential_length:
  "determine_potential gs cs k = Inr ps \<Longrightarrow> length ps = length gs"
  by (induction gs arbitrary: ps) (auto split: sum.splits)

lemma get_profile_calls:
  "engine_calls (fst (get_profile_for_biased_optimization E c cs k st)) =
     engine_calls st @ [BiasedOptimization c k]"
  by (simp add: get_profile_for_biased_optimization_def Let_def
      write_xyz_file_from_atoms_and_coords_def split: sum.splits prod.splits)

lemma get_profile_snd:
  "snd (get_profile_for_biased_optimization E c cs k st) = run_profile E c cs k"
  by (simp add: run_profile_def get_profile_for_biased_optimization_def Let_def
      write_xyz_file_from_atoms_and_coords_def split: sum.splits prod.splits)

lemma run_profile_lengths:
  assumes "run_profile E c cs k = Inr prof"
  shows "length (p_energies prof) = length (p_potentials prof)"
  using assms
  by (auto simp: run_profile_def get_profile_for_biased_optimization_def Let_def
      write_xyz_file_from_atoms_and_coords_def dest: determine_potential_length
      split: sum.splits prod.splits if_splits)

lemma rejected_iff:
  "rejected E c cs k \<longleftrightarrow>
     (\<exists>prof v. run_profile E c cs k = Inr prof \<and> py_last (p_potentials prof) = Inr v \<and> 1 / 100 < v)"
  by (auto simp: rejected_def final_potential_def split: sum.splits option.splits)

lemma reaches_product_iff:
  "reaches_product E c cs k \<longleftrightarrow>
     (\<exists>prof v. run_profile E c cs k = Inr prof \<and> py_last (p_potentials prof) = Inr v \<and> v \<le> 1 / 100)"
  by (auto simp: reaches_product_def final_potential_def split: sum.splits option.splits)

lemma force_constant_loop_step_rejected:
  assumes "rejected E c cs k"
  shows "\<exists>st1 prof. force_constant_loop E c cs (k # ks) b st =
            force_constant_loop E c cs ks (Some (k, prof)) st1 \<and>
            engine_calls st1 = engine_calls st @ [BiasedOptimization c k] \<and>
            run_profile E c cs k = Inr prof \<and> p_potentials prof \<noteq> []"
proof -
  from assms obtain prof v where
    p: "run_profile E c cs k = Inr prof" "py_last (p_potentials prof) = Inr v" "1 / 100 < v"
    unfolding rejected_iff by blast
  obtain st1 r where g: "get_profile_for_biased_optimization E c cs k st = (st1, r)"
    by (cases "get_profile_for_biased_optimization E c cs k st")
  have r: "r = Inr prof" using get_profile_snd[of E c cs k st] g p(1) by simp
  have c: "engine_calls st1 = engine_calls st @ [BiasedOptimization c k]"
    using get_profile_calls[of E c cs k st] g by simp
  have ne: "p_potentials prof \<noteq> []" using p(2) by (auto simp: py_last_def split: if_splits)
  have "force_constant_loop E c cs (k # ks) b st =
            force_constant_loop E c cs ks (Some (k, prof)) st1"
    using g r p(2,3) by simp
  then show ?thesis using c p(1) ne by blast
qed

lemma force_constant_loop_step_stop:
  assumes "\<not> rejected E c cs k"
  shows "engine_calls (fst (force_constant_loop E c cs (k # ks) b st)) =
           engine_calls st @ [BiasedOptimization c k]"
proof -
  obtain st1 r where g: "get_profile_for_biased_optimization E c cs k st = (st1, r)"
    by (cases "get_profile_for_biased_optimization E c cs k st")
  have r: "r = run_profile E c cs k" using get_profile_snd[of E c cs k st] g by simp
  have c: "engine_calls st1 = engine_calls st @ [BiasedOptimization c k]"
    using get_profile_calls[of E c cs k st] g by simp
  show ?thesis
  proof (cases r)
    case (Inl e)
    then show ?thesis using g c by simp
  next
    case (Inr prof)
    show ?thesis
    proof (cases "py_last (p_potentials prof)")
      case (Inl e)
      then show ?thesis using g c Inr by simp
    next
      case (Inr v)
      have rp: "run_profile E c cs k = Inr prof" using r \<open>r = Inr prof\<close> by simp
      have "\<not> 1 / 100 < v"
      proof
        assume "1 / 100 < v"
        with rp Inr have "rejected E c cs k" unfolding rejected_iff by blast
        with assms show False by simp
      qed
      then show ?thesis using g c \<open>r = Inr prof\<close> Inr by (simp split: sum.splits)
    qed
  qed
qed

lemma force_constant_loop_calls:
  "engine_calls (fst (force_constant_loop E c cs ks b st)) =
     engine_calls st @ map (BiasedOptimization c) (evaluated E c cs ks)"
proof (induction ks arbitrary: b st)
  case Nil
  show ?case by (simp add: evaluated_def)
next
  case (Cons k ks)
  show ?case
  proof (cases "rejected E c cs k")
    case True
    from force_constant_loop_step_rejected[OF True, of ks b st] obtain st1 prof where
      s: "force_constant_loop E c cs (k # ks) b st = force_constant_loop E c cs ks (Some (k, prof)) st1"
         "engine_calls st1 = engine_calls st @ [BiasedOptimization c k]" by blast
    show ?thesis unfolding s(1) Cons.IH using s(2) True by (simp add: evaluated_def)
  next
    case False
    show ?thesis using force_constant_loop_step_stop[OF False, of ks b st] False
      by (simp add: evaluated_def)
  qed
qed

lemma force_constant_loop_accepts:
  assumes "list_all (rejected E c cs) pre" and "reaches_product E c cs k"
  shows "\<exists>st1 prof idx. force_constant_loop E c cs (pre @ k # post) b st =
            (st1, Inr (Accepted k prof idx)) \<and>
            run_profile E c cs k = Inr prof \<and>
            get_ts_guess_index (p_energies prof) (p_potentials prof) = Inr idx"
  using assms(1)
proof (induction pre arbitrary: b st)
  case Nil
  from assms(2) obtain prof v where
    p: "run_profile E c cs k = Inr prof" "py_last (p_potentials prof) = Inr v" "v \<le> 1 / 100"
    unfolding reaches_product_iff by blast
  obtain st1 r where g: "get_profile_for_biased_optimization E c cs k st = (st1, r)"
    by (cases "get_profile_for_biased_optimization E c cs k st")
  have r: "r = Inr prof" using get_profile_snd[of E c cs k st] g p(1) by simp
  have ne: "p_potentials prof \<noteq> []" using p(2) by (auto simp: py_last_def split: if_splits)
  have len: "length (p_energies prof) = length (p_potentials prof)"
    by (rule run_profile_lengths[OF p(1)])
  then have "p_energies prof \<noteq> []" using ne by auto
  from get_ts_guess_index_defined[OF len this] obtain idx where
    idx: "get_ts_guess_index (p_energies prof) (p_potentials prof) = Inr idx" by blast
  have "force_constant_loop E c cs ([] @ k # post) b st = (st1, Inr (Accepted k prof idx))"
    using g r p(2,3) idx by simp
  then show ?case using p(1) idx by blast
next
  case (Cons j pre)
  then have rj: "rejected E c cs j" and rest: "list_all (rejected E c cs) pre" by simp_all
  from force_constant_loop_step_rejected[OF rj, of "pre @ k # post" b st] obtain st1 prof where
    s: "force_constant_loop E c cs (j # pre @ k # post) b st =
        force_constant_loop E c cs (pre @ k # post) (Some (j, prof)) st1" by blast
  show ?case using Cons.IH[OF rest, of "Some (j, prof)" st1] s by simp
qed

lemma force_constant_loop_exhausted:
  assumes "list_all (rejected E c cs) ks"
  shows "\<exists>st1 b'. force_constant_loop E c cs ks b st = (st1, Inr (Exhausted b')) \<and>
           (ks = [] \<longrightarrow> b' = b) \<and>
           (ks \<noteq> [] \<longrightarrow> (\<exists>prof. b' = Some (last ks, prof) \<and> p_potentials prof \<noteq> []))"
  using assms
proof (induction ks arbitrary: b st)
  case Nil
  show ?case by simp
next
  case (Cons k ks)
  then have rk: "rejected E c cs k" and rest: "list_all (rejected E c cs) ks" by simp_all
  from force_constant_loop_step_rejected[OF rk, of ks b st] obtain st1 prof where
    s: "force_constant_loop E c cs (k # ks) b st =
        force_constant_loop E c cs ks (Some (k, prof)) st1" "p_potentials prof \<noteq> []" by blast
  from Cons.IH[OF rest, of "Some (k, prof)" st1] obtain st2 b' where
    r: "force_constant_loop E c cs ks (Some (k, prof)) st1 = (st2, Inr (Exhausted b'))"
       "ks = [] \<longrightarrow> b' = Some (k, prof)"
       "ks \<noteq> [] \<longrightarrow> (\<exists>prof. b' = Some (last ks, prof) \<and> p_potentials prof \<noteq> [])" by blast
  show ?case using s r by (cases "ks = []") auto
qed

lemma fca_refl: "frequency_calls_appended st st"
  unfolding frequency_calls_appended_def by (rule exI[of _ "[]"]) simp

lemma fca_trans:
  assumes "frequency_calls_appended a b" "frequency_calls_appended b c"
  shows "frequency_calls_appended a c"
proof -
  from assms obtain x y where "engine_calls b = engine_calls a @ map FrequencyCalculation x"
    "engine_calls c = engine_calls b @ map FrequencyCalculation y"
    unfolding frequency_calls_appended_def by blast
  then have "engine_calls c = engine_calls a @ map FrequencyCalculation (x @ y)" by simp
  then show ?thesis unfolding frequency_calls_appended_def by blast
qed

lemma fca_files: "frequency_calls_appended st (st\<lparr>xyz_files := f\<rparr>)"
  unfolding frequency_calls_appended_def by (rule exI[of _ "[]"]) simp

lemma write_xyz_fca:
  "write_xyz_file_from_atoms_and_coords a c name st = (st', r) \<Longrightarrow> frequency_calls_appended st st'"
  by (auto simp: write_xyz_file_from_atoms_and_coords_def fca_refl fca_files split: if_splits)

lemma get_negative_frequencies_fca:
  assumes "get_negative_frequencies E name st = (st', r)"
  shows "frequency_calls_appended st st'"
proof (cases "xyz_files st name")
  case None
  then show ?thesis using assms by (simp add: get_negative_frequencies_def fca_refl)
next
  case (Some content)
  have "engine_calls (st\<lparr>engine_calls := engine_calls st @ [FrequencyCalculation content]\<rparr>) =
        engine_calls st @ map FrequencyCalculation [content]" by simp
  then have "frequency_calls_appended st
        (st\<lparr>engine_calls := engine_calls st @ [FrequencyCalculation content]\<rparr>)"
    unfolding frequency_calls_appended_def by blast
  then show ?thesis using Some assms by (auto simp: get_negative_frequencies_def)
qed

lemma write_and_check_fca:
  assumes "write_and_check E atoms coords fc i st = (st', r)"
  shows "frequency_calls_appended st st'"
proof (cases "py_nth atoms i")
  case (Inl e)
  then show ?thesis using assms by (simp add: write_and_check_def fca_refl)
next
  case a: (Inr a)
  show ?thesis
  proof (cases "py_nth coords i")
    case (Inl e)
    then show ?thesis using assms a by (simp add: write_and_check_def fca_refl)
  next
    case c: (Inr c)
    obtain st1 r1 where w: "write_xyz_file_from_atoms_and_coords a c (ts_guess_xyz fc) st = (st1, r1)"
      by (cases "write_xyz_file_from_atoms_and_coords a c (ts_guess_xyz fc) st")
    have a1: "frequency_calls_appended st st1" by (rule write_xyz_fca[OF w])
    show ?thesis
    proof (cases r1)
      case (Inl e)
      then show ?thesis using assms a c w a1 by (simp add: write_and_check_def)
    next
      case (Inr filename)
      obtain st2 r2 where g: "get_negative_frequencies E filename st1 = (st2, r2)"
        by (cases "get_negative_frequencies E filename st1")
      have a2: "frequency_calls_appended st st2"
        using a1 get_negative_frequencies_fca[OF g] by (rule fca_trans)
      show ?thesis using assms a c w Inr g a2
        by (auto simp: write_and_check_def split: sum.splits)
    qed
  qed
qed

lemma validation_loop_fca:
  "validation_loop E p atoms coords fc idxs init st = (st', r) \<Longrightarrow> frequency_calls_appended st st'"
proof (induction idxs arbitrary: init st)
  case Nil
  then show ?case by (auto simp: fca_refl)
next
  case (Cons i idxs)
  obtain st1 r1 where w1: "write_and_check E atoms coords fc i st = (st1, r1)"
    by (cases "write_and_check E atoms coords fc i st")
  have a1: "frequency_calls_appended st st1" by (rule write_and_check_fca[OF w1])
  obtain st2 r2 where w2: "write_and_check E atoms coords fc i st1 = (st2, r2)"
    by (cases "write_and_check E atoms coords fc i st1")
  have a2: "frequency_calls_appended st st2"
    using a1 write_and_check_fca[OF w2] by (rule fca_trans)
  have a3: "frequency_calls_appended st st'"
    if "validation_loop E p atoms coords fc idxs init' st2 = (st', r)" for init'
    using a2 Cons.IH[OF that] by (rule fca_trans)
  show ?case using Cons.prems w1 w2 a1 a2 a3
    by (auto split: sum.splits prod.splits if_splits)
qed

lemma get_final_fca:
  assumes "get_final_ts_guess_geometry E p atoms coords fc st = (st', r)"
  shows "frequency_calls_appended st st'"
proof -
  let ?v = "validation_loop E p atoms coords fc [p..<min (p + 6) (length atoms)] None st"
  obtain st1 r1 where v: "?v = (st1, r1)" by (cases ?v)
  have a1: "frequency_calls_appended st st1" by (rule validation_loop_fca[OF v])
  have a2: "frequency_calls_appended st st'"
    if "write_xyz_file_from_atoms_and_coords a c name st1 = (st', r)" for a c name
    using a1 write_xyz_fca[OF that] by (rule fca_trans)
  show ?thesis using assms v a1 a2
    by (auto simp: get_final_ts_guess_geometry_def
        split: sum.splits prod.splits validation_outcome.splits option.splits)
qed

lemma sorted_map_upt:
  assumes "\<And>i j. i \<le> j \<Longrightarrow> f i \<le> (f j :: real)"
  shows "sorted (map f [0..<n])"
proof -
  have "sorted_wrt (\<lambda>i j. f i \<le> f j) [0..<n]"
    using assms by (simp add: sorted_wrt_iff_nth_less)
  then show ?thesis by (simp add: sorted_map)
qed

lemma arange_element_mono:
  assumes "0 < step" "binary64 start = start" "i \<le> j"
  shows "(if i = 0 then start else if i = 1 then binary64 (start + step)
          else binary64 (start + binary64 (real i * binary64 (binary64 (start + step) - start))))
       \<le> (if j = 0 then start else if j = 1 then binary64 (start + step)
          else binary64 (start + binary64 (real j * binary64 (binary64 (start + step) - start))))"
proof -
  define nxt where "nxt = binary64 (start + step)"
  define delta where "delta = binary64 (nxt - start)"
  define el where "el = (\<lambda>i::nat. binary64 (start + binary64 (real i * delta)))"
  have s_n: "start \<le> nxt"
    using binary64_mono[of start "start + step"] assms(1,2) by (simp add: nxt_def)
  have n_fix: "binary64 nxt = nxt" by (simp add: nxt_def binary64_idem)
  have d0: "0 \<le> delta"
    using binary64_nonneg[of "nxt - start"] s_n by (simp add: delta_def)
  have d_fix: "binary64 delta = delta" by (simp add: delta_def binary64_idem)
  have el_mono: "el a \<le> el b" if "a \<le> b" for a b
  proof -
    have "real a * delta \<le> real b * delta" using that d0 by (simp add: mult_right_mono)
    then have "binary64 (real a * delta) \<le> binary64 (real b * delta)" by (rule binary64_mono)
    then have "start + binary64 (real a * delta) \<le> start + binary64 (real b * delta)" by simp
    then show ?thesis unfolding el_def by (rule binary64_mono)
  qed
  have n_el2: "nxt \<le> el 2"
  proof -
    have "nxt - start \<le> 2 * delta"
      unfolding delta_def by (rule binary64_difference[OF assms(2) n_fix s_n])
    also have "2 * delta = binary64 (2 * delta)"
      using binary64_double[OF d_fix d0] by simp
    finally have "nxt \<le> start + binary64 (real 2 * delta)" by simp
    then have "binary64 nxt \<le> binary64 (start + binary64 (real 2 * delta))" by (rule binary64_mono)
    then show ?thesis unfolding n_fix el_def .
  qed
  have n_el: "nxt \<le> el b" if "2 \<le> b" for b
    using n_el2 el_mono[OF that] by linarith
  have "(if i = 0 then start else if i = 1 then nxt else el i)
       \<le> (if j = 0 then start else if j = 1 then nxt else el j)"
  proof (cases "i = 0")
    case True
    show ?thesis
    proof (cases "j = 0")
      case True
      then show ?thesis using \<open>i = 0\<close> by simp
    next
      case j0: False
      show ?thesis
      proof (cases "j = 1")
        case True
        then show ?thesis using \<open>i = 0\<close> s_n by simp
      next
        case False
        then have "2 \<le> j" using j0 by simp
        then have "nxt \<le> el j" by (rule n_el)
        then show ?thesis using \<open>i = 0\<close> j0 False s_n by simp
      qed
    qed
  next
    case i0: False
    show ?thesis
    proof (cases "i = 1")
      case True
      show ?thesis
      proof (cases "j = 1")
        case True
        then show ?thesis using \<open>i = 1\<close> by simp
      next
        case False
        then have "2 \<le> j" using True assms(3) by simp
        then have "nxt \<le> el j" by (rule n_el)
        then show ?thesis using True False \<open>2 \<le> j\<close> by simp
      qed
    next
      case False
      then have "2 \<le> i" using i0 by simp
      then have j: "j \<noteq> 0" "j \<noteq> 1" using assms(3) by simp_all
      show ?thesis using i0 False j el_mono[OF assms(3)] by simp
    qed
  qed
  then show ?thesis unfolding el_def delta_def nxt_def .
qed

lemma np_arange_sorted:
  assumes "0 < step" "binary64 start = start" "np_arange start stop step = Inr ks"
  shows "sorted ks"
proof -
  have "ks = map (\<lambda>i. if i = 0 then start else if i = 1 then binary64 (start + step)
          else binary64 (start + binary64 (real i * binary64 (binary64 (start + step) - start))))
          [0..<nat \<lceil>binary64 (binary64 (stop - start) / step)\<rceil>]"
    using assms(1,3) by (simp add: np_arange_def Let_def)
  then show ?thesis
    using sorted_map_upt[of "\<lambda>i. if i = 0 then start else if i = 1 then binary64 (start + step)
          else binary64 (start + binary64 (real i * binary64 (binary64 (start + step) - start)))"]
      arange_element_mono[OF assms(1,2)] by simp
qed

lemma evaluated_stop:
  assumes "list_all (rejected E c cs) pre" "\<not> rejected E c cs k"
  shows "evaluated E c cs (pre @ k # post) = pre @ [k]"
proof -
  have t: "takeWhile (rejected E c cs) (pre @ k # post) = pre"
    using assms by (simp add: takeWhile_append2 list_all_iff)
  have d: "dropWhile (rejected E c cs) (pre @ k # post) = k # post"
    using assms by (simp add: dropWhile_append2 list_all_iff)
  show ?thesis unfolding evaluated_def t d by simp
qed

lemma evaluated_all:
  assumes "list_all (rejected E c cs) ks"
  shows "evaluated E c cs ks = ks"
proof -
  have t: "takeWhile (rejected E c cs) ks = ks" using assms by (simp add: list_all_iff)
  have d: "dropWhile (rejected E c cs) ks = []" using assms by (simp add: list_all_iff)
  show ?thesis unfolding evaluated_def t d by simp
qed

lemma find_ts_guess_calls:
  assumes "np_arange fc_min fc_max fc_delta = Inr ks"
  shows "\<exists>contents. engine_calls (fst (find_ts_guess E cs (c # rest) fc_min fc_max fc_delta st)) =
           engine_calls st @ map (BiasedOptimization c) (evaluated E c cs ks) @
           map FrequencyCalculation contents"
proof -
  let ?l = "force_constant_loop E c cs ks None st"
  obtain st1 r where l: "?l = (st1, r)" by (cases ?l)
  have c1: "engine_calls st1 = engine_calls st @ map (BiasedOptimization c) (evaluated E c cs ks)"
    using force_constant_loop_calls[of E c cs ks None st] l by simp
  have "frequency_calls_appended st1 (fst (find_ts_guess E cs (c # rest) fc_min fc_max fc_delta st))"
    using assms l
    by (auto simp: fca_refl dest: get_final_fca
        split: sum.splits prod.splits scan_outcome.splits option.splits)
  then show ?thesis unfolding frequency_calls_appended_def c1 by simp
qed

lemma upt_four: "[0..<nat 4] = [0, 1, 2, 3]" and upt_two: "[0..<nat 2] = [0, 1]"
  by (simp_all add: upt_rec)

lemma arange_demo: "np_arange (1 / 4) (3 / 4) (1 / 4) = Inr [1 / 4, 1 / 2]"
proof -
  have d: "binary64 (3 / 4 - 1 / 4) = 1 / 2" using b64_half by simp
  have q: "binary64 (1 / 2 / (1 / 4)) = 2"
    using binary64_normal[of 1 2] by (simp add: powr_neg_numeral py_round_def)
  have n: "binary64 (1 / 4 + 1 / 4) = 1 / 2" using b64_half by simp
  have c: "\<lceil>2::real\<rceil> = 2" by simp
  show ?thesis
    unfolding np_arange_def Let_def d q n c upt_two by simp
qed

lemma arange_empty: "np_arange (1 / 2) (1 / 2) (1 / 4) = Inr []"
  by (simp add: np_arange_def binary64_def)

lemma arange_tenths:
  "np_arange (binary64 (1 / 10)) (binary64 (4 / 10)) (binary64 (1 / 10)) =
     Inr [binary64 (1 / 10), 3602879701896397 / 18014398509481984,
          1351079888211149 / 4503599627370496, binary64 (4 / 10)]"
  unfolding b64_tenth b64_four_tenths
  by (simp add: np_arange_def Let_def b64_steps upt_rec)

lemma potentials_far:
  "determine_potential [[(0, 0, 0), (3, 0, 0)]] demo_constraints k = Inr [k * (2 * (188973 / 100000))\<^sup>2]"
proof -
  have s3: "sqrt 9 = 3" using real_sqrt_abs[of 3] by simp
  show ?thesis
    by (simp add: demo_constraints_def distance_matrix_def matrix_get_def euclid_def
        angstrom_to_bohr_def s3)
qed

lemma potentials_near:
  "determine_potential [[(0, 0, 0), (1, 0, 0)]] demo_constraints k = Inr [0]"
  by (simp add: demo_constraints_def distance_matrix_def matrix_get_def euclid_def
        angstrom_to_bohr_def)

lemma profile_far:
  "get_profile_for_biased_optimization (demo_engines r) ''far'' demo_constraints k st =
     (st\<lparr>engine_calls := engine_calls st @ [BiasedOptimization ''far'' k],
         xyz_files := (xyz_files st)(product_geometry_obtained_xyz \<mapsto>
                         ([''C'', ''O''], [(0, 0, 0), (3, 0, 0)]))\<rparr>,
      Inr \<lparr>p_energies = [- 5], p_coords = [[(0, 0, 0), (3, 0, 0)]], p_atoms = [[''C'', ''O'']],
           p_potentials = [k * (2 * (188973 / 100000))\<^sup>2]\<rparr>)"
  by (simp add: get_profile_for_biased_optimization_def Let_def demo_engines_def demo_path_def
      potentials_far py_last_def write_xyz_file_from_atoms_and_coords_def
      del: determine_potential.simps)

lemma profile_near:
  "get_profile_for_biased_optimization (demo_engines r) ''near'' demo_constraints k st =
     (st\<lparr>engine_calls := engine_calls st @ [BiasedOptimization ''near'' k],
         xyz_files := (xyz_files st)(product_geometry_obtained_xyz \<mapsto>
                         ([''C'', ''O''], [(0, 0, 0), (1, 0, 0)]))\<rparr>,
      Inr \<lparr>p_energies = [- 5], p_coords = [[(0, 0, 0), (1, 0, 0)]], p_atoms = [[''C'', ''O'']],
           p_potentials = [0]\<rparr>)"
  by (simp add: get_profile_for_biased_optimization_def Let_def demo_engines_def demo_path_def
      potentials_near py_last_def write_xyz_file_from_atoms_and_coords_def
      del: determine_potential.simps)

lemma scan_far:
  "force_constant_loop (demo_engines r) ''far'' demo_constraints [1 / 4, 1 / 2] None empty_world =
     (empty_world\<lparr>engine_calls := [BiasedOptimization ''far'' (1 / 4), BiasedOptimization ''far'' (1 / 2)],
         xyz_files := (xyz_files empty_world)(product_geometry_obtained_xyz \<mapsto>
                         ([''C'', ''O''], [(0, 0, 0), (3, 0, 0)]))\<rparr>,
      Inr (Exhausted (Some (1 / 2,
           \<lparr>p_energies = [- 5], p_coords = [[(0, 0, 0), (3, 0, 0)]], p_atoms = [[''C'', ''O'']],
            p_potentials = [1 / 2 * (2 * (188973 / 100000))\<^sup>2]\<rparr>))))"
  by (simp add: profile_far py_last_def empty_world_def blank_world_def power2_eq_square)

lemma early_return:
  "snd (find_ts_guess (demo_engines [[- 300, 20, 40]]) demo_constraints [''far'', ''near'']
          (1 / 4) (3 / 4) (1 / 4) empty_world) = Inr None \<and>
   engine_calls (fst (find_ts_guess (demo_engines [[- 300, 20, 40]]) demo_constraints
          [''far'', ''near''] (1 / 4) (3 / 4) (1 / 4) empty_world)) =
     [BiasedOptimization ''far'' (1 / 4), BiasedOptimization ''far'' (1 / 2)]"
  by (simp add: arange_demo scan_far py_last_def del: force_constant_loop.simps)

lemma hess_demo: "xtb_hess (demo_engines r) content = r"
  by (simp add: demo_engines_def)

lemma scan_near:
  "force_constant_loop (demo_engines r) ''near'' demo_constraints [1 / 4, 1 / 2] None empty_world =
     (empty_world\<lparr>engine_calls := [BiasedOptimization ''near'' (1 / 4)],
         xyz_files := (xyz_files empty_world)(product_geometry_obtained_xyz \<mapsto>
                         ([''C'', ''O''], [(0, 0, 0), (1, 0, 0)]))\<rparr>,
      Inr (Accepted (1 / 4)
           \<lparr>p_energies = [- 5], p_coords = [[(0, 0, 0), (1, 0, 0)]], p_atoms = [[''C'', ''O'']],
            p_potentials = [0]\<rparr> 0))"
  by (simp add: profile_near py_last_def empty_world_def blank_world_def get_ts_guess_index_def np_subtract_def)

lemma near_alone:
  "snd (find_ts_guess (demo_engines [[- 300, 20, 40]]) demo_constraints [''near'']
          (1 / 4) (3 / 4) (1 / 4) empty_world) = Inr (Some (ts_guess_xyz (1 / 4)))"
  by (simp add: arange_demo scan_near get_final_ts_guess_geometry_def write_and_check_def
      py_nth_def write_xyz_file_from_atoms_and_coords_def get_negative_frequencies_def
      read_negative_frequencies_def py_len_def hess_demo del: force_constant_loop.simps)

lemma unbound_potentials:
  "find_ts_guess E cs (conformer # rest) (1 / 2) (1 / 2) (1 / 4) st = (st, Inl UnboundLocalError)"
  by (simp add: arange_empty)

lemma find_ts_guess_snd_accepted:
  assumes "np_arange fc_min fc_max fc_delta = Inr ks"
    and "force_constant_loop E c cs ks None st = (st1, Inr (Accepted k prof idx))"
  shows "find_ts_guess E cs (c # rest) fc_min fc_max fc_delta st =
           (case get_final_ts_guess_geometry E idx (p_atoms prof) (p_coords prof) k st1 of
              (st2, Inl e) \<Rightarrow> (st2, Inl e)
            | (st2, Inr name) \<Rightarrow> (st2, Inr (Some name)))"
  using assms by simp

lemma find_ts_guess_exhausted_nonempty:
  assumes "np_arange fc_min fc_max fc_delta = Inr ks" and "ks \<noteq> []"
    and "list_all (rejected E c cs) ks"
  shows "snd (find_ts_guess E cs (c # rest) fc_min fc_max fc_delta st) = Inr None"
proof -
  from force_constant_loop_exhausted[OF assms(3), of None st] assms(2) obtain st1 prof where
    l: "force_constant_loop E c cs ks None st = (st1, Inr (Exhausted (Some (last ks, prof))))"
       "p_potentials prof \<noteq> []" by blast
  show ?thesis using assms(1) l by (simp add: py_last_def)
qed

lemma b64_quarter: "binary64 (1 / 4) = 1 / 4"
  using binary64_normal[of "-2" "1 / 4"] by (simp add: powr_neg_numeral py_round_def)

lemma np_arange_length:
  assumes "np_arange start stop step = Inr ks"
  shows "i < length ks \<longleftrightarrow> real i < binary64 (binary64 (stop - start) / step)"
proof -
  have nz: "step \<noteq> 0" using assms by (auto simp: np_arange_def)
  have "length ks = nat \<lceil>binary64 (binary64 (stop - start) / step)\<rceil>"
    using assms nz by (auto simp: np_arange_def Let_def)
  then have "i < length ks \<longleftrightarrow> int i < \<lceil>binary64 (binary64 (stop - start) / step)\<rceil>"
    by linarith
  also have "\<dots> \<longleftrightarrow> real i < binary64 (binary64 (stop - start) / step)"
    by (simp add: less_ceiling_iff)
  finally show ?thesis .
qed

lemma np_arange_nth:
  assumes "np_arange start stop step = Inr ks" "i < length ks"
  shows "ks ! i = (if i = 0 then start else if i = 1 then binary64 (start + step)
           else binary64 (start + binary64 (real i * binary64 (binary64 (start + step) - start))))"
proof -
  have nz: "step \<noteq> 0" using assms(1) by (auto simp: np_arange_def)
  have "ks = map (\<lambda>i. if i = 0 then start else if i = 1 then binary64 (start + step)
          else binary64 (start + binary64 (real i * binary64 (binary64 (start + step) - start))))
          [0..<nat \<lceil>binary64 (binary64 (stop - start) / step)\<rceil>]"
    using assms(1) nz by (simp add: np_arange_def Let_def)
  then show ?thesis using assms(2) by simp
qed

lemma np_arange_empty:
  assumes "np_arange start stop step = Inr ks" "0 < step" "stop \<le> start"
  shows "ks = []"
proof -
  have "binary64 (stop - start) \<le> 0" using assms(3) by (simp add: binary64_nonpos)
  then have "binary64 (stop - start) / step \<le> 0" using assms(2) by (simp add: divide_nonpos_pos)
  then have "binary64 (binary64 (stop - start) / step) \<le> 0" by (rule binary64_nonpos)
  then have "\<not> real 0 < binary64 (binary64 (stop - start) / step)" by simp
  then have "\<not> 0 < length ks" unfolding np_arange_length[OF assms(1)] .
  then show ?thesis by simp
qed

lemma far_rejected:
  assumes "1 / 100 < k"
  shows "rejected (demo_engines r) ''far'' demo_constraints k"
proof -
  have "1 / 100 < k * 1" using assms by simp
  also have "k * 1 \<le> k * (2 * (188973 / 100000))\<^sup>2"
    using assms by (intro mult_left_mono) (simp_all add: power2_eq_square)
  finally have "1 / 100 < k * (2 * (188973 / 100000))\<^sup>2" .
  then show ?thesis
    unfolding rejected_iff run_profile_def
    by (simp add: profile_far py_last_def)
qed

lemma find_ts_guess_exhausted_calls:
  assumes "np_arange fc_min fc_max fc_delta = Inr ks" and "ks \<noteq> []"
    and "list_all (rejected E c cs) ks"
  shows "engine_calls (fst (find_ts_guess E cs (c # rest) fc_min fc_max fc_delta st)) =
           engine_calls st @ map (BiasedOptimization c) ks"
proof -
  from force_constant_loop_exhausted[OF assms(3), of None st] assms(2) obtain st1 prof where
    l: "force_constant_loop E c cs ks None st = (st1, Inr (Exhausted (Some (last ks, prof))))"
       "p_potentials prof \<noteq> []" by blast
  have "engine_calls st1 = engine_calls st @ map (BiasedOptimization c) (evaluated E c cs ks)"
    using force_constant_loop_calls[of E c cs ks None st] l(1) by simp
  then have "engine_calls st1 = engine_calls st @ map (BiasedOptimization c) ks"
    by (simp add: evaluated_all[OF assms(3)])
  moreover have "fst (find_ts_guess E cs (c # rest) fc_min fc_max fc_delta st) = st1"
    using assms(1) l by (simp add: py_last_def)
  ultimately show ?thesis by simp
qed

text \<open>
  The order of the scan is not strictly ascending for every positive step: a step below
  half a unit in the last place of \<open>fc_min\<close> is lost in the rounded sum, and the scan repeats
  \<open>fc_min\<close>.
\<close>

lemma b64_one: "binary64 1 = 1"
  using binary64_normal[of 0 1] by (simp add: powr_neg_numeral py_round_def)

lemma b64_repeat_steps:
  "binary64 (1 / 2251799813685248) = 1 / 2251799813685248"
  "binary64 8 = 8"
  "binary64 (18014398509481985 / 18014398509481984) = 1"
proof -
  show "binary64 (1 / 2251799813685248) = 1 / 2251799813685248"
    using binary64_normal[of "-51" "1 / 2251799813685248"]
    by (simp add: powr_neg_numeral py_round_def)
  show "binary64 8 = 8"
    using binary64_normal[of 3 8] by (simp add: powr_neg_numeral py_round_def)
  show "binary64 (18014398509481985 / 18014398509481984) = 1"
    using binary64_normal[of 0 "18014398509481985 / 18014398509481984"]
    by (simp add: powr_neg_numeral py_round_def)
qed

lemma arange_repeats:
  "np_arange 1 (2251799813685249 / 2251799813685248) (1 / 18014398509481984) =
     Inr [1, 1, 1, 1, 1, 1, 1, 1]"
  by (simp add: np_arange_def Let_def b64_repeat_steps b64_one upt_rec binary64_def[of 0])

lemma near_reaches: "reaches_product (demo_engines r) ''near'' demo_constraints k"
  unfolding reaches_product_iff run_profile_def
  by (simp add: profile_near py_last_def)

lemma near_not_rejected: "\<not> rejected (demo_engines r) ''near'' demo_constraints k"
  unfolding rejected_iff run_profile_def
  by (simp add: profile_near py_last_def)

text \<open>
  Claim C2, as the code has it. For a positive \<open>fc_delta\<close> and a non-empty list of
  conformers, the force constants of the scan are the elements of
  \<^verbatim>\<open>np.arange(fc_min, fc_max, fc_delta)\<close>, computed in binary64 arithmetic:
  \<^item> there are as many as the ceiling of the rounded quotient \<open>(fc_max - fc_min) / fc_delta\<close>,
    so index \<open>i\<close> is in the scan exactly when \<open>i\<close> is below that rounded quotient, and not
    exactly when \<open>fc_min + i * fc_delta\<close> is below \<open>fc_max\<close>;
  \<^item> the first is \<open>fc_min\<close>, the second the rounded sum \<open>fc_min + fc_delta\<close>, and the one at
    index \<open>i\<close> the rounded sum of \<open>fc_min\<close> and the rounded product of \<open>i\<close> and the rounded
    difference of the first two;
  \<^item> there is none when \<open>fc_max\<close> is not above \<open>fc_min\<close>;
  \<^item> for a binary64 number \<open>fc_min\<close> they are in non-descending order.
  The calls of the external program made by \<open>find_ts_guess\<close> are the biased optimisations of
  the first conformer at the evaluated force constants, in that order, followed by frequency
  calculations only. The evaluated force constants are the rejected ones (final-step
  potential above 0.01) up to the first that is not rejected, together with that one: all
  of them when every run is rejected, and \<open>pre @ [k]\<close> when \<open>k\<close> is the first one not rejected.
  When that run reaches the product (final-step potential at most 0.01), the scan ends with
  this force constant and the index that \<open>get_ts_guess_index\<close> selects in its profile, and
  \<open>find_ts_guess\<close> returns what the validation of that index returns.

  The rounding in these statements is the one of binary64 arithmetic: \<open>binary64 x\<close> is an
  integer multiple of the unit in the last place of \<open>x\<close>, at most half a unit away from \<open>x\<close>;
  it is monotone and leaves its own results unchanged. The unit is \<open>2\<close> to the power
  \<open>ulp_exponent x\<close>, which is not below \<open>-1074\<close>, with \<open>\<bar>x\<bar>\<close> below \<open>2\<close> to the power
  \<open>ulp_exponent x + 53\<close> and, above the least exponent, not below \<open>2\<close> to the power
  \<open>ulp_exponent x + 52\<close>. The float 0.1 is \<open>3602879701896397 / 2 ^ 55\<close>, and
  \<^verbatim>\<open>np.arange(0.1, 0.4, 0.1)\<close> has the four elements 0.1, 0.2, 0.30000000000000004 and 0.4.
\<close>

theorem find_ts_guess_scan_order:
  assumes "0 < fc_delta"
  shows "(\<exists>ks. np_arange fc_min fc_max fc_delta = Inr ks \<and>
     (\<forall>i. i < length ks \<longleftrightarrow> real i < binary64 (binary64 (fc_max - fc_min) / fc_delta)) \<and>
     (\<forall>i<length ks. ks ! i =
        (if i = 0 then fc_min else if i = 1 then binary64 (fc_min + fc_delta)
         else binary64 (fc_min +
                binary64 (real i * binary64 (binary64 (fc_min + fc_delta) - fc_min))))) \<and>
     (fc_max \<le> fc_min \<longrightarrow> ks = []) \<and>
     (binary64 fc_min = fc_min \<longrightarrow> sorted ks) \<and>
     (\<exists>contents. engine_calls (fst (find_ts_guess E cs (c # rest) fc_min fc_max fc_delta st)) =
         engine_calls st @ map (BiasedOptimization c) (evaluated E c cs ks) @
         map FrequencyCalculation contents) \<and>
     (list_all (rejected E c cs) ks \<longrightarrow> evaluated E c cs ks = ks) \<and>
     (\<forall>pre k post. ks = pre @ k # post \<and> list_all (rejected E c cs) pre \<and> \<not> rejected E c cs k \<longrightarrow>
         evaluated E c cs ks = pre @ [k]) \<and>
     (\<forall>pre k post. ks = pre @ k # post \<and> list_all (rejected E c cs) pre \<and>
         reaches_product E c cs k \<longrightarrow>
         (\<exists>st1 prof idx.
            force_constant_loop E c cs ks None st = (st1, Inr (Accepted k prof idx)) \<and>
            run_profile E c cs k = Inr prof \<and>
            get_ts_guess_index (p_energies prof) (p_potentials prof) = Inr idx \<and>
            find_ts_guess E cs (c # rest) fc_min fc_max fc_delta st =
              (case get_final_ts_guess_geometry E idx (p_atoms prof) (p_coords prof) k st1 of
                 (st2, Inl e) \<Rightarrow> (st2, Inl e)
               | (st2, Inr name) \<Rightarrow> (st2, Inr (Some name)))))) \<and>
     binary64 (binary64 x) = binary64 x \<and>
     (x \<le> y \<longrightarrow> binary64 x \<le> binary64 y) \<and>
     \<bar>binary64 x - x\<bar> \<le> 2 powr real_of_int (ulp_exponent x) / 2 \<and>
     (\<exists>m::int. binary64 x = real_of_int m * 2 powr real_of_int (ulp_exponent x)) \<and>
     - 1074 \<le> ulp_exponent x \<and>
     (x \<noteq> 0 \<longrightarrow> \<bar>x\<bar> < 2 powr (real_of_int (ulp_exponent x) + 53)) \<and>
     (x \<noteq> 0 \<and> - 1074 < ulp_exponent x \<longrightarrow>
        2 powr (real_of_int (ulp_exponent x) + 52) \<le> \<bar>x\<bar>) \<and>
     binary64 (1 / 10) = 3602879701896397 / 36028797018963968 \<and>
     np_arange (binary64 (1 / 10)) (binary64 (4 / 10)) (binary64 (1 / 10)) =
       Inr [binary64 (1 / 10), 3602879701896397 / 18014398509481984,
            1351079888211149 / 4503599627370496, binary64 (4 / 10)]"
    (is "?scan \<and> ?rounding")
proof -
  have nz: "fc_delta \<noteq> 0" using assms by simp
  obtain ks where ar: "np_arange fc_min fc_max fc_delta = Inr ks"
    using nz by (simp add: np_arange_def Let_def)
  have len: "\<forall>i. i < length ks \<longleftrightarrow> real i < binary64 (binary64 (fc_max - fc_min) / fc_delta)"
    by (rule allI) (rule np_arange_length[OF ar])
  have nth: "\<forall>i<length ks. ks ! i =
        (if i = 0 then fc_min else if i = 1 then binary64 (fc_min + fc_delta)
         else binary64 (fc_min +
                binary64 (real i * binary64 (binary64 (fc_min + fc_delta) - fc_min))))"
    by (intro allI impI) (rule np_arange_nth[OF ar])
  have emp: "fc_max \<le> fc_min \<longrightarrow> ks = []"
    by (rule impI) (rule np_arange_empty[OF ar assms])
  have asc: "binary64 fc_min = fc_min \<longrightarrow> sorted ks"
    by (rule impI) (rule np_arange_sorted[OF assms _ ar])
  have calls: "\<exists>contents. engine_calls (fst (find_ts_guess E cs (c # rest) fc_min fc_max fc_delta st)) =
         engine_calls st @ map (BiasedOptimization c) (evaluated E c cs ks) @
         map FrequencyCalculation contents"
    by (rule find_ts_guess_calls[OF ar])
  have allrej: "list_all (rejected E c cs) ks \<longrightarrow> evaluated E c cs ks = ks"
    by (rule impI) (rule evaluated_all)
  have stop: "\<forall>pre k post. ks = pre @ k # post \<and> list_all (rejected E c cs) pre \<and>
         \<not> rejected E c cs k \<longrightarrow> evaluated E c cs ks = pre @ [k]"
  proof (intro allI impI)
    fix pre k post
    assume h: "ks = pre @ k # post \<and> list_all (rejected E c cs) pre \<and> \<not> rejected E c cs k"
    then have "evaluated E c cs (pre @ k # post) = pre @ [k]"
      using evaluated_stop[of E c cs pre k post] by blast
    then show "evaluated E c cs ks = pre @ [k]" using h by simp
  qed
  have acc: "\<forall>pre k post. ks = pre @ k # post \<and> list_all (rejected E c cs) pre \<and>
         reaches_product E c cs k \<longrightarrow>
         (\<exists>st1 prof idx.
            force_constant_loop E c cs ks None st = (st1, Inr (Accepted k prof idx)) \<and>
            run_profile E c cs k = Inr prof \<and>
            get_ts_guess_index (p_energies prof) (p_potentials prof) = Inr idx \<and>
            find_ts_guess E cs (c # rest) fc_min fc_max fc_delta st =
              (case get_final_ts_guess_geometry E idx (p_atoms prof) (p_coords prof) k st1 of
                 (st2, Inl e) \<Rightarrow> (st2, Inl e)
               | (st2, Inr name) \<Rightarrow> (st2, Inr (Some name))))"
  proof (intro allI impI)
    fix pre k post
    assume h: "ks = pre @ k # post \<and> list_all (rejected E c cs) pre \<and> reaches_product E c cs k"
    from force_constant_loop_accepts[of E c cs pre k post None st] h obtain st1 prof idx where
      r: "force_constant_loop E c cs (pre @ k # post) None st = (st1, Inr (Accepted k prof idx))"
         "run_profile E c cs k = Inr prof"
         "get_ts_guess_index (p_energies prof) (p_potentials prof) = Inr idx" by blast
    have l: "force_constant_loop E c cs ks None st = (st1, Inr (Accepted k prof idx))"
      using r(1) h by simp
    from find_ts_guess_snd_accepted[OF ar l, of rest] r(2,3) l
    show "\<exists>st1 prof idx.
            force_constant_loop E c cs ks None st = (st1, Inr (Accepted k prof idx)) \<and>
            run_profile E c cs k = Inr prof \<and>
            get_ts_guess_index (p_energies prof) (p_potentials prof) = Inr idx \<and>
            find_ts_guess E cs (c # rest) fc_min fc_max fc_delta st =
              (case get_final_ts_guess_geometry E idx (p_atoms prof) (p_coords prof) k st1 of
                 (st2, Inl e) \<Rightarrow> (st2, Inl e)
               | (st2, Inr name) \<Rightarrow> (st2, Inr (Some name)))"
      by blast
  qed
  have scan: ?scan
    apply (rule exI[of _ ks])
    using ar len nth emp asc calls allrej stop acc by blast
  have rounding: ?rounding
    using binary64_idem[of x] binary64_mono[of x y] binary64_nearest[of x]
      binary64_multiple[of x] ulp_exponent_ge[of x] ulp_exponent_upper[of x]
      ulp_exponent_lower[of x] b64_tenth arange_tenths by blast
  show ?thesis using scan rounding by (rule conjI)
qed

theorem find_ts_guess_scan_order_witness:
  "\<exists>ks contents. np_arange (1 / 4) (3 / 4) (1 / 4) = Inr ks \<and> sorted ks \<and>
      engine_calls (fst (find_ts_guess (demo_engines [[- 300, 20, 40]]) demo_constraints
        [''near''] (1 / 4) (3 / 4) (1 / 4) empty_world)) =
      BiasedOptimization ''near'' (1 / 4) # map FrequencyCalculation contents"
proof -
  let ?E = "demo_engines [[- 300, 20, 40]]"
  have pos: "(0::real) < 1 / 4" by simp
  from find_ts_guess_scan_order[OF pos, of "1 / 4" "3 / 4" ?E demo_constraints "''near''" "[]"
      empty_world 0 0]
  obtain ks contents where
    ks: "np_arange (1 / 4) (3 / 4) (1 / 4) = Inr ks"
    and asc: "binary64 (1 / 4) = 1 / 4 \<longrightarrow> sorted ks"
    and calls: "engine_calls (fst (find_ts_guess ?E demo_constraints [''near''] (1 / 4) (3 / 4) (1 / 4) empty_world)) =
         engine_calls empty_world @ map (BiasedOptimization ''near'') (evaluated ?E ''near'' demo_constraints ks) @
         map FrequencyCalculation contents"
    and stop: "\<forall>pre k post. ks = pre @ k # post \<and> list_all (rejected ?E ''near'' demo_constraints) pre \<and>
         \<not> rejected ?E ''near'' demo_constraints k \<longrightarrow>
         evaluated ?E ''near'' demo_constraints ks = pre @ [k]"
    by (elim exE conjE) (rule that, assumption+)
  have srt: "sorted ks" using asc b64_quarter by blast
  have k2: "ks = [] @ (1 / 4) # [1 / 2]" using ks by (simp add: arange_demo)
  have e: "evaluated ?E ''near'' demo_constraints ks = [1 / 4]"
    using stop[rule_format, of "[]" "1 / 4" "[1 / 2]"] k2
      near_not_rejected[of "[[- 300, 20, 40]]" "1 / 4"] by simp
  have ew: "engine_calls empty_world = []" by (simp add: empty_world_def blank_world_def)
  have "engine_calls (fst (find_ts_guess ?E demo_constraints [''near''] (1 / 4) (3 / 4) (1 / 4) empty_world)) =
      BiasedOptimization ''near'' (1 / 4) # map FrequencyCalculation contents"
    unfolding calls e ew by simp
  then show ?thesis using ks srt by blast
qed

text \<open>
  The claim as stated keeps every evaluated force constant strictly below \<open>fc_max\<close>. For the
  Python floats \<open>fc_min = 0.1\<close>, \<open>fc_max = 0.4\<close> and \<open>fc_delta = 0.1\<close> the rounded quotient
  \<open>(0.4 - 0.1) / 0.1\<close> is just above 3, so the scan has four force constants, and the
  biased optimisation is run at the fourth, which is \<open>fc_max\<close> itself: the float 0.4 is
  exactly \<open>fc_min + 3 * fc_delta\<close>.
\<close>

theorem find_ts_guess_scan_order_counterexample:
  "np_arange (binary64 (1 / 10)) (binary64 (4 / 10)) (binary64 (1 / 10)) =
     Inr [binary64 (1 / 10), 3602879701896397 / 18014398509481984,
          1351079888211149 / 4503599627370496, binary64 (4 / 10)] \<and>
   engine_calls (fst (find_ts_guess (demo_engines [[- 300, 20, 40]]) demo_constraints
        [''far''] (binary64 (1 / 10)) (binary64 (4 / 10)) (binary64 (1 / 10)) empty_world)) =
     [BiasedOptimization ''far'' (binary64 (1 / 10)),
      BiasedOptimization ''far'' (3602879701896397 / 18014398509481984),
      BiasedOptimization ''far'' (1351079888211149 / 4503599627370496),
      BiasedOptimization ''far'' (binary64 (4 / 10))] \<and>
   binary64 (1 / 10) + 3 * binary64 (1 / 10) = binary64 (4 / 10)"
proof -
  let ?E = "demo_engines [[- 300, 20, 40]]"
  let ?ks = "[binary64 (1 / 10), 3602879701896397 / 18014398509481984,
          1351079888211149 / 4503599627370496, binary64 (4 / 10)]"
  have rej: "list_all (rejected ?E ''far'' demo_constraints) ?ks"
    unfolding b64_tenth b64_four_tenths by (simp add: far_rejected)
  have ew: "engine_calls empty_world = []" by (simp add: empty_world_def blank_world_def)
  have "engine_calls (fst (find_ts_guess ?E demo_constraints [''far'']
          (binary64 (1 / 10)) (binary64 (4 / 10)) (binary64 (1 / 10)) empty_world)) =
        engine_calls empty_world @ map (BiasedOptimization ''far'') ?ks"
    by (rule find_ts_guess_exhausted_calls[OF arange_tenths _ rej]) simp
  then have c: "engine_calls (fst (find_ts_guess ?E demo_constraints [''far'']
          (binary64 (1 / 10)) (binary64 (4 / 10)) (binary64 (1 / 10)) empty_world)) =
        [BiasedOptimization ''far'' (binary64 (1 / 10)),
         BiasedOptimization ''far'' (3602879701896397 / 18014398509481984),
         BiasedOptimization ''far'' (1351079888211149 / 4503599627370496),
         BiasedOptimization ''far'' (binary64 (4 / 10))]" unfolding ew by simp
  have p: "binary64 (1 / 10) + 3 * binary64 (1 / 10) = binary64 (4 / 10)"
    unfolding b64_tenth b64_four_tenths by simp
  show ?thesis by (intro conjI) (rule arange_tenths, rule c, rule p)
qed

text \<open>
  Claim C5 says that every representative conformer is subjected to the scan until a TS
  guess is produced. With the representatives \<open>''far''\<close> and \<open>''near''\<close>, where no force
  constant lets \<open>''far''\<close> reach the product and the first one lets \<open>''near''\<close> reach it,
  \<open>find_ts_guess\<close> returns \<open>None\<close> after the two runs of \<open>''far''\<close>; no run of \<open>''near''\<close> is
  made, although \<open>''near''\<close> alone yields a TS guess.
\<close>

theorem find_ts_guess_returns_after_first_conformer:
  "snd (find_ts_guess (demo_engines [[- 300, 20, 40]]) demo_constraints [''far'', ''near'']
          (1 / 4) (3 / 4) (1 / 4) empty_world) = Inr None \<and>
   engine_calls (fst (find_ts_guess (demo_engines [[- 300, 20, 40]]) demo_constraints
          [''far'', ''near''] (1 / 4) (3 / 4) (1 / 4) empty_world)) =
     [BiasedOptimization ''far'' (1 / 4), BiasedOptimization ''far'' (1 / 2)] \<and>
   snd (find_ts_guess (demo_engines [[- 300, 20, 40]]) demo_constraints [''near'']
          (1 / 4) (3 / 4) (1 / 4) empty_world) = Inr (Some (ts_guess_xyz (1 / 4)))"
  using early_return near_alone by blast

text \<open>
  Claim C6 says that \<open>find_ts_guess\<close> returns \<open>None\<close>, and raises no exception, when no run in
  the configured range reaches the product. For \<open>fc_min = fc_max = 0.5\<close> the range is empty,
  so no run reaches the product, and with at least one conformer the function raises
  UnboundLocalError: it reads \<open>potentials\<close>, which no run has bound.
\<close>

theorem find_ts_guess_empty_range_raises:
  "np_arange (1 / 2) (1 / 2) (1 / 4) = Inr [] \<and>
   find_ts_guess E cs (conformer # rest) (1 / 2) (1 / 2) (1 / 4) st = (st, Inl UnboundLocalError)"
  by (simp add: arange_empty)

end
